theory Spec2Isabelle
  imports Complex_Main
begin

section \<open>Data model\<close>

text \<open>
  The development follows the canvas component of the fireworks application (the file with
  the \<^verbatim>\<open>Particle\<close> class, \<^verbatim>\<open>onResults\<close>, \<^verbatim>\<open>triggerFirework\<close> and \<^verbatim>\<open>draw\<close>) and
  \<^verbatim>\<open>types.ts\<close>. JavaScript numbers are modelled as mathematical reals (rounding of
  floating-point arithmetic is not modelled); \<^verbatim>\<open>Date.now()\<close> is an integer number of
  milliseconds. Drawing on the 2D context and the audio cue change none of the state
  below and are left out.
\<close>

datatype HandState = OPEN | FIST | UNKNOWN

text \<open>
  The two keys \<^verbatim>\<open>'Left'\<close> and \<^verbatim>\<open>'Right'\<close> of the per-hand dictionaries, which are
  also the two labels that the hand tracker gives to a hand.
\<close>

datatype hand = Left | Right

record Point =
  x :: real
  y :: real

text \<open>An entry of \<^verbatim>\<open>COLOR_PALETTES\<close>.\<close>

record Palette =
  hue :: real
  name :: string

datatype ExplosionStyle = circle | ring | burst | willow | chrysanthemum

record Particle =
  x :: real
  y :: real
  vx :: real
  vy :: real
  hue :: real
  lightness :: real
  alpha :: real
  decay :: real
  friction :: real
  gravity :: real
  size :: real

text \<open>
  The canvas element as far as the code reads it: its pixel dimensions and whether
  \<^verbatim>\<open>getContext('2d')\<close> yields a context.
\<close>

record canvas =
  width :: nat
  height :: nat
  ctx2d :: bool

text \<open>
  The payload of the hand tracker's callback. Either list may be missing (\<^verbatim>\<open>undefined\<close>),
  which is what the truthiness test of \<^verbatim>\<open>onResults\<close> looks at; an array, even an empty
  one, is truthy. A landmark is kept as its \<^verbatim>\<open>x\<close> and \<^verbatim>\<open>y\<close>; a handedness entry as its
  \<^verbatim>\<open>label\<close>.
\<close>

record results =
  multiHandLandmarks :: "Point list list option"
  multiHandedness :: "hand list option"

datatype error = TypeError

text \<open>
  The mutable references of the component. \<^verbatim>\<open>Math.random()\<close> is modelled by a fixed
  sequence of future draws \<open>random_src\<close> and the number \<open>random_used\<close> of draws
  already consumed.
\<close>

record game =
  particles :: "Particle list"
  handStateRef :: "hand \<Rightarrow> HandState"
  prevHandStateRef :: "hand \<Rightarrow> HandState"
  handPosRef :: "hand \<Rightarrow> Point"
  lastTriggerTime :: "hand \<Rightarrow> int"
  grandFinale_active :: bool
  grandFinale_lastSpawn :: int
  canvasRef :: "canvas option"
  random_src :: "nat \<Rightarrow> real"
  random_used :: nat

section \<open>Configuration and helpers\<close>

definition COLOR_PALETTES :: "Palette list" where
  "COLOR_PALETTES =
     [\<lparr>Palette.hue = 0, name = ''red''\<rparr>, \<lparr>Palette.hue = 15, name = ''scarlet''\<rparr>,
      \<lparr>Palette.hue = 30, name = ''orange''\<rparr>, \<lparr>Palette.hue = 45, name = ''gold''\<rparr>,
      \<lparr>Palette.hue = 55, name = ''yellow''\<rparr>, \<lparr>Palette.hue = 120, name = ''green''\<rparr>,
      \<lparr>Palette.hue = 160, name = ''cyan''\<rparr>, \<lparr>Palette.hue = 200, name = ''blue''\<rparr>,
      \<lparr>Palette.hue = 240, name = ''indigo''\<rparr>, \<lparr>Palette.hue = 280, name = ''purple''\<rparr>,
      \<lparr>Palette.hue = 300, name = ''magenta''\<rparr>, \<lparr>Palette.hue = 330, name = ''pink''\<rparr>]"

definition EXPLOSION_STYLES :: "ExplosionStyle list" where
  "EXPLOSION_STYLES = [circle, ring, burst, willow, chrysanthemum]"

definition MAX_PARTICLES :: nat where
  "MAX_PARTICLES = 2000"

text \<open>
  \<^verbatim>\<open>Math.random()\<close>: the next draw of the source \<open>R\<close> at position \<open>k\<close>, and the
  position after it. ECMAScript promises a value in \<open>[0, 1)\<close>; \<open>rng_ok\<close> states it.
\<close>

definition Math_random :: "(nat \<Rightarrow> real) \<Rightarrow> nat \<Rightarrow> real \<times> nat" where
  "Math_random R k = (R k, Suc k)"

definition rng_ok :: "(nat \<Rightarrow> real) \<Rightarrow> bool" where
  "rng_ok R = (\<forall>n. 0 \<le> R n \<and> R n < 1)"

text \<open>
  \<^verbatim>\<open>arr[Math.floor(Math.random() * arr.length)]\<close>. For a draw in \<open>[0, 1)\<close> the index is
  in range (lemma \<open>randomChoice_index\<close> below).
\<close>

definition randomChoice :: "(nat \<Rightarrow> real) \<Rightarrow> 'a list \<Rightarrow> nat \<Rightarrow> 'a \<times> nat" where
  "randomChoice R arr k =
     (let (r, k) = Math_random R k
      in (arr ! nat \<lfloor>r * real (length arr)\<rfloor>, k))"

definition randomRange :: "(nat \<Rightarrow> real) \<Rightarrow> real \<Rightarrow> real \<Rightarrow> nat \<Rightarrow> real \<times> nat" where
  "randomRange R mn mx k =
     (let (r, k) = Math_random R k
      in (r * (mx - mn) + mn, k))"

text \<open>The remainder operator \<^verbatim>\<open>%\<close> of JavaScript: the quotient is truncated towards zero.\<close>

definition js_rem :: "real \<Rightarrow> real \<Rightarrow> real" where
  "js_rem a b =
     a - b * of_int (if 0 \<le> a / b then \<lfloor>a / b\<rfloor> else \<lceil>a / b\<rceil>)"

text \<open>
  \<^verbatim>\<open>for (let i = i0; i < n; i++) body\<close> with a number \<open>n\<close> that need not be an integer
  and a counter that starts at a natural number.
\<close>

function for_loop :: "real \<Rightarrow> (nat \<Rightarrow> 's \<Rightarrow> 's) \<Rightarrow> nat \<Rightarrow> 's \<Rightarrow> 's" where
  "for_loop n body i s = (if real i < n then for_loop n body (Suc i) (body i s) else s)"
  by pat_completeness auto
termination
proof (relation "measure (\<lambda>(n, body, i, s). nat (\<lceil>n\<rceil> - int i))")
  show "wf (measure (\<lambda>(n, body, i, s). nat (\<lceil>n\<rceil> - int i)))"
    by simp
next
  fix n :: real and body :: "nat \<Rightarrow> 's \<Rightarrow> 's" and i :: nat and s :: 's
  assume "real i < n"
  then have "int i < \<lceil>n\<rceil>"
    by (simp add: less_ceiling_iff)
  then show "((n, body, Suc i, body i s), (n, body, i, s))
             \<in> measure (\<lambda>(n, body, i, s). nat (\<lceil>n\<rceil> - int i))"
    by simp
qed

declare for_loop.simps [simp del]

section \<open>Particle\<close>

text \<open>
  The constructor. It draws three random numbers, in the order of its assignments:
  for the lightness, the decay and the size.
\<close>

definition new_Particle ::
  "(nat \<Rightarrow> real) \<Rightarrow> real \<Rightarrow> real \<Rightarrow> real \<Rightarrow> Point \<Rightarrow> real \<Rightarrow> real \<Rightarrow> nat \<Rightarrow> Particle \<times> nat" where
  "new_Particle R x0 y0 hue0 velocity lightness0 size0 k0 =
     (let (r1, k) = Math_random R k0;
          (r2, k) = Math_random R k;
          (r3, k) = Math_random R k
      in (\<lparr>x = x0, y = y0, vx = Point.x velocity, vy = Point.y velocity, hue = hue0,
           lightness = lightness0 + r1 * 10, alpha = 1, decay = 0.012 + r2 * 0.018,
           friction = 0.98, gravity = 0.04, size = size0 + r3 * 2\<rparr>, k))"

text \<open>
  \<^verbatim>\<open>Particle.update\<close>: six assignments in the order of the source, each reading the
  fields as the previous assignments left them.
\<close>

definition update :: "Particle \<Rightarrow> Particle" where
  "update p0 =
     (let p1 = p0\<lparr>vx := vx p0 * friction p0\<rparr>;
          p2 = p1\<lparr>vy := vy p1 * friction p1\<rparr>;
          p3 = p2\<lparr>vy := vy p2 + gravity p2\<rparr>;
          p4 = p3\<lparr>x := Particle.x p3 + vx p3\<rparr>;
          p5 = p4\<lparr>y := Particle.y p4 + vy p4\<rparr>;
          p6 = p5\<lparr>alpha := alpha p5 - decay p5\<rparr>
      in p6)"

definition isDead :: "Particle \<Rightarrow> bool" where
  "isDead p = (alpha p \<le> 0)"

section \<open>Explosion composer\<close>

text \<open>
  The size-class branch of \<^verbatim>\<open>triggerFirework\<close>: from the draw \<open>sizeClass\<close> to
  \<open>(particleCount, explosionPower, baseSize)\<close>. \<open>particleCount\<close> is a number, not
  necessarily an integer; it is the bound of the loop that creates the particles.
\<close>

definition size_class :: "(nat \<Rightarrow> real) \<Rightarrow> real \<Rightarrow> nat \<Rightarrow> real \<times> real \<times> real \<times> nat" where
  "size_class R sizeClass k0 =
     (if sizeClass < 0.3 then
        (let (particleCount, k) = randomRange R 70 110 k0;
             (explosionPower, k) = randomRange R 5 8 k;
             (baseSize, k) = randomRange R 3.5 5 k
         in (particleCount, explosionPower, baseSize, k))
      else if sizeClass < 0.7 then
        (let (particleCount, k) = randomRange R 120 180 k0;
             (explosionPower, k) = randomRange R 8 11 k;
             (baseSize, k) = randomRange R 4.5 6 k
         in (particleCount, explosionPower, baseSize, k))
      else
        (let (particleCount, k) = randomRange R 200 300 k0;
             (explosionPower, k) = randomRange R 10 14 k;
             (baseSize, k) = randomRange R 5.5 7.5 k
         in (particleCount, explosionPower, baseSize, k)))"

text \<open>
  The draws of \<^verbatim>\<open>triggerFirework\<close> before its loop: palette, style, size class and the
  three parameters of the size class.
\<close>

definition roll_explosion ::
  "(nat \<Rightarrow> real) \<Rightarrow> nat \<Rightarrow> (Palette \<times> ExplosionStyle \<times> real \<times> real \<times> real) \<times> nat" where
  "roll_explosion R k0 =
     (let (palette, k) = randomChoice R COLOR_PALETTES k0;
          (style, k) = randomChoice R EXPLOSION_STYLES k;
          (sizeClass, k) = Math_random R k;
          (particleCount, explosionPower, baseSize, k) = size_class R sizeClass k
      in ((palette, style, particleCount, explosionPower, baseSize), k))"

text \<open>
  The \<^verbatim>\<open>switch (style)\<close> of the loop body, on the locals
  \<open>(velocity, hueVariation, lightness', decay', gravity')\<close> (primed: the
  unprimed names are the fields of a particle).
\<close>

definition style_adjust ::
  "(nat \<Rightarrow> real) \<Rightarrow> Palette \<Rightarrow> ExplosionStyle \<Rightarrow> real \<Rightarrow>
   real \<times> real \<times> real \<times> real \<times> real \<Rightarrow> nat \<Rightarrow> (real \<times> real \<times> real \<times> real \<times> real) \<times> nat" where
  "style_adjust R palette style explosionPower locals k0 =
     (case locals of (velocity, hueVariation, lightness', decay', gravity') \<Rightarrow>
        (case style of
           ring \<Rightarrow>
             (let (r, k) = Math_random R k0;
                  velocity = explosionPower * (0.85 + r * 0.3);
                  (decay', k) = randomRange R 0.015 0.025 k;
                  (lightness', k) = randomRange R 45 55 k
              in ((velocity, hueVariation, lightness', decay', gravity'), k))
         | burst \<Rightarrow>
             (let (r, k) = Math_random R k0;
                  velocity = (if r > 0.7 then velocity * 1.8 else velocity);
                  (lightness', k) = randomRange R 45 58 k
              in ((velocity, hueVariation, lightness', decay', gravity'), k))
         | willow \<Rightarrow>
             (let (m, k) = randomRange R 0.3 0.7 k0;
                  velocity = explosionPower * m;
                  gravity' = 0.08;
                  (decay', k) = randomRange R 0.008 0.015 k;
                  (r, k) = Math_random R k;
                  hueVariation = (if r > 0.7 then js_rem (Palette.hue palette + 180) 360
                                  else hueVariation);
                  (lightness', k) = randomRange R 45 55 k
              in ((velocity, hueVariation, lightness', decay', gravity'), k))
         | chrysanthemum \<Rightarrow>
             (let (r, k) = Math_random R k0;
                  (lightness', k) = (if r > 0.7 then randomRange R 50 60 k else (lightness', k));
                  (m, k) = randomRange R 0.5 1.0 k;
                  velocity = explosionPower * m
              in ((velocity, hueVariation, lightness', decay', gravity'), k))
         | circle \<Rightarrow> ((velocity, hueVariation, lightness', decay', gravity'), k0)))"

text \<open>
  One iteration of the loop of \<^verbatim>\<open>triggerFirework\<close>: the particle it pushes and the
  position of the random source afterwards. The two assignments after the constructor
  call replace the decay and the gravity that the constructor chose.
\<close>

definition spawn_particle ::
  "(nat \<Rightarrow> real) \<Rightarrow> real \<Rightarrow> real \<Rightarrow> Palette \<Rightarrow> ExplosionStyle \<Rightarrow> real \<Rightarrow> real \<Rightarrow> nat \<Rightarrow>
   Particle \<times> nat" where
  "spawn_particle R x0 y0 palette style explosionPower baseSize k0 =
     (let (r, k) = Math_random R k0;
          angle = r * pi * 2;
          (r, k) = Math_random R k;
          velocity = r * explosionPower;
          (r, k) = Math_random R k;
          hueVariation = Palette.hue palette + (r - 0.5) * 30;
          (lightness', k) = randomRange R 45 55 k;
          size' = baseSize;
          (decay', k) = randomRange R 0.01 0.02 k;
          gravity' = 0.04;
          ((velocity, hueVariation, lightness', decay', gravity'), k) =
             style_adjust R palette style explosionPower
               (velocity, hueVariation, lightness', decay', gravity') k;
          (particle, k) =
             new_Particle R x0 y0 hueVariation
               \<lparr>Point.x = cos angle * velocity, Point.y = sin angle * velocity\<rparr>
               lightness' size' k;
          particle = particle\<lparr>decay := decay'\<rparr>;
          particle = particle\<lparr>gravity := gravity'\<rparr>
      in (particle, k))"

text \<open>
  \<^verbatim>\<open>triggerFirework\<close>. The two early returns come first; the loop pushes one particle
  per iteration onto the pool.
\<close>

definition triggerFirework :: "real \<Rightarrow> real \<Rightarrow> game \<Rightarrow> game" where
  "triggerFirework x0 y0 g =
     (if canvasRef g = None then g
      else if length (particles g) > MAX_PARTICLES then g
      else
        (let R = random_src g;
             ((palette, style, particleCount, explosionPower, baseSize), k) =
                roll_explosion R (random_used g);
             (ps, k) =
                for_loop particleCount
                  (\<lambda>i (ps, k).
                     let (particle, k) =
                           spawn_particle R x0 y0 palette style explosionPower baseSize k
                     in (ps @ [particle], k))
                  0 (particles g, k)
         in g\<lparr>particles := ps, random_used := k\<rparr>))"

section \<open>Gesture classifier\<close>

text \<open>\<^verbatim>\<open>arr[i]\<close> of JavaScript: \<^verbatim>\<open>undefined\<close> (here \<open>None\<close>) out of range.\<close>

definition at_index :: "'a list \<Rightarrow> nat \<Rightarrow> 'a option" where
  "at_index arr i = (if i < length arr then Some (arr ! i) else None)"

text \<open>
  The \<^verbatim>\<open>tips.forEach\<close> of \<^verbatim>\<open>onResults\<close>: it adds the distance of each fingertip from
  the wrist to \<open>avgDist\<close>. Reading \<^verbatim>\<open>.x\<close> of a missing landmark throws.
\<close>

fun tips_forEach :: "Point list \<Rightarrow> Point option \<Rightarrow> nat list \<Rightarrow> real \<Rightarrow> error + real" where
  "tips_forEach landmarks wrist [] avgDist = Inr avgDist"
| "tips_forEach landmarks wrist (tipIdx # tips) avgDist =
     (case at_index landmarks tipIdx of
        None \<Rightarrow> Inl TypeError
      | Some tip \<Rightarrow>
          (case wrist of
             None \<Rightarrow> Inl TypeError
           | Some w \<Rightarrow>
               (let dx = Point.x tip - Point.x w;
                    dy = Point.y tip - Point.y w
                in tips_forEach landmarks wrist tips (avgDist + sqrt (dx * dx + dy * dy)))))"

text \<open>
  The body of the loop over the detected hands, for hand \<open>i\<close>. The state is the set
  \<open>foundHands\<close> and the references. An exception leaves the loop with the references as
  they are at that moment.
\<close>

definition hand_body ::
  "Point list list \<Rightarrow> hand list \<Rightarrow> nat \<Rightarrow> hand set \<times> game \<Rightarrow> error \<times> game + hand set \<times> game" where
  "hand_body lms hds i st =
     (case st of (foundHands, g) \<Rightarrow>
        (let landmarks = lms ! i in
         case at_index hds i of
           None \<Rightarrow> Inl (TypeError, g)
         | Some label \<Rightarrow>
             (let foundHands = insert label foundHands;
                  wrist = at_index landmarks 0
              in case tips_forEach landmarks wrist [8, 12, 16, 20] 0 of
                   Inl e \<Rightarrow> Inl (e, g)
                 | Inr avgDist \<Rightarrow>
                     (let avgDist = avgDist / 4;
                          newState = (if avgDist < 0.25 then FIST else OPEN);
                          g = g\<lparr>handPosRef := (handPosRef g)
                                  (label := \<lparr>Point.x = Point.x (the wrist),
                                             Point.y = Point.y (the wrist)\<rparr>)\<rparr>;
                          g = g\<lparr>handStateRef := (handStateRef g)(label := newState)\<rparr>
                      in Inr (foundHands, g)))))"

text \<open>
  The loop \<^verbatim>\<open>for (let i = 0; i < results.multiHandLandmarks.length; i++)\<close>. In
  \<open>hand_body\<close> the index \<open>i\<close> is below the length of \<open>lms\<close>, and where the tips were
  read the wrist exists, so \<open>lms ! i\<close> and \<open>the wrist\<close> are the values the code reads.
\<close>

function hands_loop ::
  "Point list list \<Rightarrow> hand list \<Rightarrow> nat \<Rightarrow> hand set \<times> game \<Rightarrow> error \<times> game + hand set \<times> game" where
  "hands_loop lms hds i st =
     (if i < length lms then
        (case hand_body lms hds i st of
           Inl e \<Rightarrow> Inl e
         | Inr st' \<Rightarrow> hands_loop lms hds (Suc i) st')
      else Inr st)"
  by pat_completeness auto
termination
  by (relation "measure (\<lambda>(lms, hds, i, st). length lms - i)") auto

declare hands_loop.simps [simp del]

text \<open>The \<^verbatim>\<open>forEach\<close> that clears the hands that were not found.\<close>

definition clear_missing :: "hand set \<Rightarrow> game \<Rightarrow> game" where
  "clear_missing foundHands g0 =
     fold (\<lambda>hand g. if hand \<notin> foundHands
                     then g\<lparr>handStateRef := (handStateRef g)(hand := UNKNOWN)\<rparr> else g)
       [Left, Right] g0"

text \<open>
  \<^verbatim>\<open>onResults\<close>. \<open>Inl (e, g)\<close>: the callback threw \<open>e\<close> and left the references as in
  \<open>g\<close>; \<open>Inr g\<close>: it returned.
\<close>

definition onResults :: "results \<Rightarrow> game \<Rightarrow> error \<times> game + game" where
  "onResults res g =
     (case multiHandLandmarks res of
        None \<Rightarrow> Inr g
      | Some lms \<Rightarrow>
          (case multiHandedness res of
             None \<Rightarrow> Inr g
           | Some hds \<Rightarrow>
               (case hands_loop lms hds 0 ({}, g) of
                  Inl e \<Rightarrow> Inl e
                | Inr (foundHands, g') \<Rightarrow> Inr (clear_missing foundHands g'))))"

section \<open>Trigger controller and simulation loop\<close>

text \<open>\<^verbatim>\<open>Math.random()\<close> called from \<^verbatim>\<open>draw\<close>, on the references.\<close>

definition game_random :: "game \<Rightarrow> real \<times> game" where
  "game_random g =
     (let (r, k) = Math_random (random_src g) (random_used g)
      in (r, g\<lparr>random_used := k\<rparr>))"

text \<open>
  The six patterns of the grand finale, one definition per branch of \<^verbatim>\<open>draw\<close>;
  \<open>width'\<close> and \<open>height'\<close> are the locals \<^verbatim>\<open>width\<close> and \<^verbatim>\<open>height\<close> of \<^verbatim>\<open>draw\<close>.
\<close>

definition finale_pattern1 :: "real \<Rightarrow> real \<Rightarrow> game \<Rightarrow> game" where
  "finale_pattern1 width' height' g0 =
     (let (r, g) = game_random g0;
          y' = r * height' * 0.5 + height' * 0.15;
          g = triggerFirework (width' * 0.1) y' g;
          g = triggerFirework (width' * 0.9) y' g;
          g = triggerFirework (width' * 0.3) (y' - 30) g;
          g = triggerFirework (width' * 0.7) (y' - 30) g;
          g = triggerFirework (width' * 0.5) (y' - 60) g
      in g)"

definition finale_pattern2 :: "real \<Rightarrow> real \<Rightarrow> game \<Rightarrow> game" where
  "finale_pattern2 width' height' g0 =
     for_loop 6
       (\<lambda>i g. let (r, g) = game_random g;
                  x' = (r * 0.8 + 0.1) * width';
                  (r, g) = game_random g;
                  y' = r * height' * 0.5 + height' * 0.1
              in triggerFirework x' y' g)
       0 g0"

definition finale_pattern3 :: "real \<Rightarrow> real \<Rightarrow> game \<Rightarrow> game" where
  "finale_pattern3 width' height' g0 =
     (let (r, g) = game_random g0;
          centerX = width' / 2 + (r - 0.5) * 200;
          (r, g) = game_random g;
          centerY = height' * 0.3 + (r - 0.5) * 100;
          g = triggerFirework centerX centerY g;
          g = triggerFirework (centerX - 150) (centerY + 80) g;
          g = triggerFirework (centerX + 150) (centerY + 80) g;
          g = triggerFirework (centerX - 100) (centerY - 50) g;
          g = triggerFirework (centerX + 100) (centerY - 50) g
      in g)"

definition finale_pattern4 :: "real \<Rightarrow> real \<Rightarrow> game \<Rightarrow> game" where
  "finale_pattern4 width' height' g0 =
     (let g = triggerFirework (width' * 0.15) (height' * 0.15) g0;
          g = triggerFirework (width' * 0.85) (height' * 0.15) g;
          g = triggerFirework (width' * 0.5) (height' * 0.35) g;
          g = triggerFirework (width' * 0.15) (height' * 0.55) g;
          g = triggerFirework (width' * 0.85) (height' * 0.55) g;
          g = triggerFirework (width' * 0.3) (height' * 0.25) g;
          g = triggerFirework (width' * 0.7) (height' * 0.25) g
      in g)"

definition finale_pattern5 :: "real \<Rightarrow> real \<Rightarrow> game \<Rightarrow> game" where
  "finale_pattern5 width' height' g0 =
     (let cx = width' / 2;
          cy = height' * 0.4
      in for_loop 8
           (\<lambda>i g. let angle = (real i / 8) * pi * 2;
                      radius = 200
                  in triggerFirework (cx + cos angle * radius)
                       (cy + sin angle * radius * 0.6) g)
           0 g0)"

definition finale_pattern6 :: "real \<Rightarrow> real \<Rightarrow> game \<Rightarrow> game" where
  "finale_pattern6 width' height' g0 =
     for_loop 8
       (\<lambda>i g. let (r, g) = game_random g;
                  randX = r * width';
                  (r, g) = game_random g;
                  randY = r * height' * 0.7 + height' * 0.1
              in triggerFirework randX randY g)
       0 g0"

text \<open>The choice of the pattern by \<^verbatim>\<open>Math.floor(now / 400) % 6\<close>.\<close>

definition finale_patterns :: "real \<Rightarrow> real \<Rightarrow> int \<Rightarrow> game \<Rightarrow> game" where
  "finale_patterns width' height' now g0 =
     (let phase = js_rem (of_int \<lfloor>of_int now / (400 :: real)\<rfloor>) 6 in
      if phase = 0 then finale_pattern1 width' height' g0
      else if phase = 1 then finale_pattern2 width' height' g0
      else if phase = 2 then finale_pattern3 width' height' g0
      else if phase = 3 then finale_pattern4 width' height' g0
      else if phase = 4 then finale_pattern5 width' height' g0
      else finale_pattern6 width' height' g0)"

text \<open>
  The body of \<^verbatim>\<open>['Left', 'Right'].forEach\<close> in \<^verbatim>\<open>draw\<close> (the hand indicator it
  paints is left out).
\<close>

definition hand_step :: "real \<Rightarrow> real \<Rightarrow> int \<Rightarrow> bool \<Rightarrow> hand \<Rightarrow> game \<Rightarrow> game" where
  "hand_step width' height' now bothHandsOpen hand g0 =
     (let state = handStateRef g0 hand;
          pos = handPosRef g0 hand;
          screenX = (1 - Point.x pos) * width';
          screenY = Point.y pos * height';
          g = (if \<not> bothHandsOpen then
                 (let prevState = prevHandStateRef g0 hand;
                      justOpened = (state = OPEN \<and> prevState \<noteq> OPEN)
                  in if justOpened \<and> now - lastTriggerTime g0 hand > 250 then
                       (let g = triggerFirework screenX screenY g0
                        in g\<lparr>lastTriggerTime := (lastTriggerTime g)(hand := now)\<rparr>)
                     else g0)
               else g0)
      in g\<lparr>prevHandStateRef := (prevHandStateRef g)(hand := state)\<rparr>)"

text \<open>
  The in-place clean-up loop of \<^verbatim>\<open>draw\<close>, on the array and \<open>writeIdx\<close>:
  \<^verbatim>\<open>p.update()\<close> changes the object in slot \<open>i\<close>, and a live particle is stored in slot
  \<open>writeIdx\<close>. \<open>writeIdx\<close> never exceeds \<open>i\<close> (lemma \<open>compact_loop_eq\<close> below), so the
  store is within the array.
\<close>

function compact_loop :: "nat \<Rightarrow> nat \<Rightarrow> Particle list \<Rightarrow> nat \<times> Particle list" where
  "compact_loop i writeIdx ps =
     (if i < length ps then
        (let p = update (ps ! i);
             ps = ps[i := p]
         in if \<not> isDead p then compact_loop (Suc i) (Suc writeIdx) (ps[writeIdx := p])
            else compact_loop (Suc i) writeIdx ps)
      else (writeIdx, ps))"
  by pat_completeness auto
termination
  by (relation "measure (\<lambda>(i, writeIdx, ps). length ps - i)") auto

declare compact_loop.simps [simp del]

text \<open>The loop followed by \<^verbatim>\<open>particles.current.length = writeIdx\<close>.\<close>

definition update_particles :: "Particle list \<Rightarrow> Particle list" where
  "update_particles ps0 =
     (let (writeIdx, ps) = compact_loop 0 0 ps0
      in take writeIdx ps)"

text \<open>\<^verbatim>\<open>draw\<close>, one frame at time \<open>now\<close>.\<close>

definition draw :: "int \<Rightarrow> game \<Rightarrow> game" where
  "draw now g0 =
     (case canvasRef g0 of
        None \<Rightarrow> g0
      | Some cv \<Rightarrow>
          if \<not> ctx2d cv then g0
          else
            (let width' = real (width cv);
                 height' = real (height cv);
                 leftState = handStateRef g0 Left;
                 rightState = handStateRef g0 Right;
                 bothHandsOpen = (leftState = OPEN \<and> rightState = OPEN);
                 g = g0\<lparr>grandFinale_active := bothHandsOpen\<rparr>;
                 g = (if bothHandsOpen \<and> now - grandFinale_lastSpawn g > 15 then
                        (let g = finale_patterns width' height' now g
                         in g\<lparr>grandFinale_lastSpawn := now\<rparr>)
                      else g);
                 g = fold (hand_step width' height' now bothHandsOpen) [Left, Right] g;
                 g = g\<lparr>particles := update_particles (particles g)\<rparr>
             in g))"

section \<open>Runs of the component\<close>

text \<open>
  The references as the component creates them, with a random source and a canvas (or
  none).
\<close>

definition initial :: "(nat \<Rightarrow> real) \<Rightarrow> canvas option \<Rightarrow> game" where
  "initial R cv =
     \<lparr>particles = [],
      handStateRef = (\<lambda>hand. UNKNOWN),
      prevHandStateRef = (\<lambda>hand. UNKNOWN),
      handPosRef = (\<lambda>hand. \<lparr>Point.x = 0, Point.y = 0\<rparr>),
      lastTriggerTime = (\<lambda>hand. 0),
      grandFinale_active = False,
      grandFinale_lastSpawn = 0,
      canvasRef = cv,
      random_src = R,
      random_used = 0\<rparr>"

text \<open>
  What happens to the references: a display frame at a time, a callback of the hand
  tracker, a resize of the window. A callback that throws leaves what it had written.
\<close>

datatype event = Frame int | Results results | Resize nat nat

fun step :: "event \<Rightarrow> game \<Rightarrow> game" where
  "step (Frame now) g = draw now g"
| "step (Results res) g = (case onResults res g of Inl (e, g') \<Rightarrow> g' | Inr g' \<Rightarrow> g')"
| "step (Resize w h) g =
     (case canvasRef g of
        None \<Rightarrow> g
      | Some cv \<Rightarrow> g\<lparr>canvasRef := Some (cv\<lparr>width := w, height := h\<rparr>)\<rparr>)"

definition run :: "event list \<Rightarrow> game \<Rightarrow> game" where
  "run evs g = fold step evs g"

section \<open>Notions used in the statements\<close>

text \<open>A random source that returns the same number at every draw (for concrete runs).\<close>

definition steady :: "real \<Rightarrow> nat \<Rightarrow> real" where
  "steady r n = r"

text \<open>A random source that returns the numbers of a list and then the same number forever.\<close>

definition draws :: "real list \<Rightarrow> real \<Rightarrow> nat \<Rightarrow> real" where
  "draws xs d n = (if n < length xs then xs ! n else d)"

text \<open>
  A particle as \<^verbatim>\<open>triggerFirework\<close> pushes it: fully opaque, with a decay in the range
  that the styles allow.
\<close>

definition fresh :: "Particle \<Rightarrow> bool" where
  "fresh p = (alpha p = 1 \<and> 0.008 \<le> decay p \<and> decay p < 0.025)"

text \<open>
  \<open>spawned g g'\<close>: from \<open>g\<close> to \<open>g'\<close> only explosions were composed and random numbers
  drawn. The pool grew at its end by fresh particles, and stayed within 2300 if it was.
\<close>

definition spawned :: "game \<Rightarrow> game \<Rightarrow> bool" where
  "spawned g g' =
     (\<exists>batch k. g' = g\<lparr>particles := particles g @ batch, random_used := k\<rparr>
        \<and> (\<forall>p\<in>set batch. fresh p)
        \<and> (length (particles g) \<le> 2300 \<longrightarrow> length (particles g') \<le> 2300))"

text \<open>The speed of a particle: the Euclidean length of its velocity.\<close>

definition speed :: "Particle \<Rightarrow> real" where
  "speed p = sqrt (vx p * vx p + vy p * vy p)"

text \<open>A canvas of 800 by 600 pixels with a 2D context, and the component at its start on it.\<close>

definition demo_canvas :: canvas where
  "demo_canvas = \<lparr>width = 800, height = 600, ctx2d = True\<rparr>"

definition demo_game :: "(nat \<Rightarrow> real) \<Rightarrow> game" where
  "demo_game R = initial R (Some demo_canvas)"

text \<open>
  The pool between two operations on it: every particle is visible, was opaque at most,
  and decays by an amount in the range that the styles allow.
\<close>

definition pool_inv :: "Particle list \<Rightarrow> bool" where
  "pool_inv ps =
     (\<forall>p\<in>set ps. 0 < alpha p \<and> alpha p \<le> 1 \<and> 0.008 \<le> decay p \<and> decay p < 0.025)"

text \<open>
  The trigger rule in the words of the specification: the lane is open, was not open in
  the previous frame, and more than 250 ms have passed since its last trigger.
\<close>

definition fires_spec :: "int \<Rightarrow> game \<Rightarrow> hand \<Rightarrow> bool" where
  "fires_spec now g hand =
     (handStateRef g hand = OPEN \<and> prevHandStateRef g hand \<noteq> OPEN
      \<and> now - lastTriggerTime g hand > 250)"

text \<open>The mirrored screen position of a normalized point.\<close>

definition screenX_spec :: "canvas \<Rightarrow> Point \<Rightarrow> real" where
  "screenX_spec cv pos = (1 - Point.x pos) * real (width cv)"

definition screenY_spec :: "canvas \<Rightarrow> Point \<Rightarrow> real" where
  "screenY_spec cv pos = Point.y pos * real (height cv)"

text \<open>
  What the specification says a frame in normal mode does for one lane, on the state
  \<open>s\<close> that the frame has reached; the rule is decided on the state \<open>g\<close> at the start of
  the frame.
\<close>

definition lane_spec :: "int \<Rightarrow> canvas \<Rightarrow> game \<Rightarrow> hand \<Rightarrow> game \<Rightarrow> game" where
  "lane_spec now cv g hand s =
     (let s' = (if fires_spec now g hand then
                  (let t = triggerFirework (screenX_spec cv (handPosRef g hand))
                             (screenY_spec cv (handPosRef g hand)) s
                   in t\<lparr>lastTriggerTime := (lastTriggerTime t)(hand := now)\<rparr>)
                else s)
      in s'\<lparr>prevHandStateRef := (prevHandStateRef s')(hand := handStateRef g hand)\<rparr>)"

text \<open>
  The classifier in the words of the specification: the average distance of the four
  fingertips (landmarks 8, 12, 16 and 20) from the wrist (landmark 0), and the state it
  gives.
\<close>

definition distance_spec :: "Point \<Rightarrow> Point \<Rightarrow> real" where
  "distance_spec a b =
     sqrt ((Point.x b - Point.x a) * (Point.x b - Point.x a)
         + (Point.y b - Point.y a) * (Point.y b - Point.y a))"

definition average_distance_spec :: "Point list \<Rightarrow> real" where
  "average_distance_spec lm =
     (distance_spec (lm ! 0) (lm ! 8) + distance_spec (lm ! 0) (lm ! 12)
      + distance_spec (lm ! 0) (lm ! 16) + distance_spec (lm ! 0) (lm ! 20)) / 4"

definition classify_spec :: "Point list \<Rightarrow> HandState" where
  "classify_spec lm = (if average_distance_spec lm < 0.25 then FIST else OPEN)"

text \<open>
  Hands for concrete runs: 21 landmarks, the wrist at the origin and every other
  landmark at distance \<open>d\<close> on the x axis.
\<close>

definition hand_at :: "real \<Rightarrow> Point list" where
  "hand_at d = \<lparr>Point.x = 0, Point.y = 0\<rparr> # replicate 20 \<lparr>Point.x = d, Point.y = 0\<rparr>"

text \<open>A pool of \<open>n\<close> copies of one particle, for concrete runs at the cap.\<close>

definition spark :: Particle where
  "spark = \<lparr>x = 0, y = 0, vx = 0, vy = 0, hue = 0, lightness = 50, alpha = 1,
            decay = 0.01, friction = 0.98, gravity = 0.04, size = 4\<rparr>"

definition crowded :: "nat \<Rightarrow> game" where
  "crowded n = (demo_game (steady (1/2)))\<lparr>particles := replicate n spark\<rparr>"

text \<open>
  \<open>grown g g'\<close>: from \<open>g\<close> to \<open>g'\<close> the hand states, the hand positions, the canvas and
  the random source are the same, and the pool grew at its end by fresh particles, staying
  within 2300 if it was.
\<close>

definition grown :: "game \<Rightarrow> game \<Rightarrow> bool" where
  "grown g g' =
     (handStateRef g' = handStateRef g \<and> handPosRef g' = handPosRef g
      \<and> canvasRef g' = canvasRef g \<and> random_src g' = random_src g
      \<and> (\<exists>batch. particles g' = particles g @ batch
            \<and> (\<forall>p\<in>set batch. fresh p)
            \<and> (length (particles g) \<le> 2300 \<longrightarrow> length (particles g') \<le> 2300)))"

text \<open>\<open>hands_only g g'\<close>: from \<open>g\<close> to \<open>g'\<close> only the hand states and positions changed.\<close>

definition hands_only :: "game \<Rightarrow> game \<Rightarrow> bool" where
  "hands_only g g' =
     (g' = g\<lparr>handStateRef := handStateRef g', handPosRef := handPosRef g'\<rparr>)"

text \<open>
  Payloads and states for concrete runs: one hand with a label and a fingertip distance,
  a payload without its two lists, both lanes open, and the left lane open at a quarter
  of the width and half of the height.
\<close>

definition one_hand :: "hand \<Rightarrow> real \<Rightarrow> results" where
  "one_hand lane d = \<lparr>multiHandLandmarks = Some [hand_at d], multiHandedness = Some [lane]\<rparr>"

definition no_lists :: results where
  "no_lists = \<lparr>multiHandLandmarks = None, multiHandedness = None\<rparr>"

definition demo_events :: "event list" where
  "demo_events = [Results (one_hand Left 1), Frame 1000, Results no_lists, Frame 1016]"

definition both_open :: game where
  "both_open = (demo_game (steady (1/2)))\<lparr>handStateRef := (\<lambda>hand. OPEN)\<rparr>"

definition left_open :: game where
  "left_open =
     (demo_game (steady (1/2)))
       \<lparr>handStateRef := (handStateRef (demo_game (steady (1/2))))(Left := OPEN),
        handPosRef := (handPosRef (demo_game (steady (1/2))))
                        (Left := \<lparr>Point.x = 1/4, Point.y = 1/2\<rparr>)\<rparr>"

text \<open>
  The state after these events: the left hand opens, a frame, a payload without lists, a
  second frame 16 ms later.
\<close>

definition demo_state :: game where
  "demo_state = run demo_events (initial (steady (1/2)) (Some demo_canvas))"

section \<open>Iteration\<close>

lemma for_loop_invariant:
  "P s \<Longrightarrow> (\<And>i s. P s \<Longrightarrow> P (body i s)) \<Longrightarrow> P (for_loop n body i s)"
proof (induction n body i s rule: for_loop.induct)
  case (1 n body i s)
  show ?case
  proof (cases "real i < n")
    case True
    have "P (body i s)"
      using "1.prems"(1) by (rule "1.prems"(2))
    then have "P (for_loop n body (Suc i) (body i s))"
      using "1.IH"[OF True] "1.prems"(2) by simp
    then show ?thesis
      using True by (subst for_loop.simps) simp
  next
    case False
    then show ?thesis using "1.prems"(1) by (subst for_loop.simps) simp
  qed
qed

lemma for_loop_fold: "for_loop n body i s = fold body [i..<nat \<lceil>n\<rceil>] s"
proof (induction n body i s rule: for_loop.induct)
  case (1 n body i s)
  show ?case
  proof (cases "real i < n")
    case True
    then have "int i < \<lceil>n\<rceil>"
      by (simp add: less_ceiling_iff)
    then have lt: "i < nat \<lceil>n\<rceil>"
      by linarith
    have "for_loop n body i s = for_loop n body (Suc i) (body i s)"
      using True by (subst for_loop.simps) simp
    also have "\<dots> = fold body [Suc i..<nat \<lceil>n\<rceil>] (body i s)"
      using "1.IH"[OF True] .
    also have "\<dots> = fold body [i..<nat \<lceil>n\<rceil>] s"
      using lt by (simp add: upt_conv_Cons)
    finally show ?thesis .
  next
    case False
    then have "nat \<lceil>n\<rceil> \<le> i"
      by (simp add: not_less ceiling_le_iff nat_le_iff)
    with False show ?thesis by (subst for_loop.simps) simp
  qed
qed

lemma compact_loop_eq:
  "w \<le> i \<Longrightarrow> i \<le> length ps \<Longrightarrow>
   (case compact_loop i w ps of (w', ps') \<Rightarrow>
      w' \<le> length ps' \<and> take w' ps' = take w ps @ filter (\<lambda>p. \<not> isDead p) (map update (drop i ps)))"
proof (induction i w ps rule: compact_loop.induct)
  case (1 i w ps)
  show ?case
  proof (cases "i < length ps")
    case False
    then show ?thesis using "1.prems" by (subst compact_loop.simps) simp
  next
    case True
    define p where "p = update (ps ! i)"
    have dr: "drop i ps = ps ! i # drop (Suc i) ps"
      using True by (simp add: Cons_nth_drop_Suc)
    show ?thesis
    proof (cases "isDead p")
      case dead: True
      have "compact_loop i w ps = compact_loop (Suc i) w (ps[i := p])"
        using True dead by (subst compact_loop.simps) (simp add: p_def Let_def)
      moreover have "(case compact_loop (Suc i) w (ps[i := p]) of (w', ps') \<Rightarrow>
        w' \<le> length ps' \<and> take w' ps' = take w (ps[i := p]) @ filter (\<lambda>p. \<not> isDead p) (map update (drop (Suc i) (ps[i := p]))))"
        using "1.IH"(2)[OF True p_def refl _ ] dead "1.prems" True by simp
      ultimately show ?thesis using dead "1.prems" dr by (simp add: p_def)
    next
      case alive: False
      have "compact_loop i w ps = compact_loop (Suc i) (Suc w) (ps[i := p, w := p])"
        using True alive by (subst compact_loop.simps) (simp add: p_def Let_def)
      moreover have "(case compact_loop (Suc i) (Suc w) (ps[i := p, w := p]) of (w', ps') \<Rightarrow>
        w' \<le> length ps' \<and> take w' ps' = take (Suc w) (ps[i := p, w := p]) @ filter (\<lambda>p. \<not> isDead p) (map update (drop (Suc i) (ps[i := p, w := p]))))"
        using "1.IH"(1)[OF True p_def refl _ ] alive "1.prems" True by simp
      moreover have "take (Suc w) (ps[i := p, w := p]) = take w ps @ [p]"
        using True "1.prems" by (simp add: take_Suc_conv_app_nth)
      ultimately show ?thesis using alive "1.prems" dr by (simp add: p_def)
    qed
  qed
qed

lemma update_particles_eq:
  "update_particles ps = filter (\<lambda>p. \<not> isDead p) (map update ps)"
  using compact_loop_eq[of 0 0 ps] by (simp add: update_particles_def split: prod.splits)

section \<open>Random draws and the size class\<close>

lemma Math_random_simps [simp]:
  "fst (Math_random R k) = R k" "snd (Math_random R k) = Suc k"
  by (simp_all add: Math_random_def)

lemma randomRange_fst: "fst (randomRange R mn mx k) = R k * (mx - mn) + mn"
  by (simp add: randomRange_def Math_random_def)

lemma randomRange_snd [simp]: "snd (randomRange R mn mx k) = Suc k"
  by (simp add: randomRange_def Math_random_def)

lemma rng_okD: "rng_ok R \<Longrightarrow> 0 \<le> R n \<and> R n < 1"
  by (simp add: rng_ok_def)

lemma affine_bounds:
  fixes r :: real
  assumes "0 \<le> r" "r < 1" "mn < mx"
  shows "mn \<le> r * (mx - mn) + mn" "r * (mx - mn) + mn < mx"
proof -
  have "0 \<le> r * (mx - mn)" using assms by simp
  then show "mn \<le> r * (mx - mn) + mn" by simp
  have "r * (mx - mn) < 1 * (mx - mn)"
    using assms by (intro mult_strict_right_mono) simp_all
  then show "r * (mx - mn) + mn < mx" by simp
qed

lemma randomRange_bounds:
  assumes "rng_ok R" "mn < mx"
  shows "mn \<le> fst (randomRange R mn mx k)" "fst (randomRange R mn mx k) < mx"
  using affine_bounds[of "R k" mn mx] rng_okD[OF assms(1), of k] assms(2)
  by (simp_all add: randomRange_fst)

lemma size_class_snd: "snd (snd (snd (size_class R r k))) = k + 3"
  by (simp add: size_class_def split_def Let_def)

lemma size_class_small:
  "r < 0.3 \<Longrightarrow> size_class R r k = (R k * 40 + 70, R (Suc k) * 3 + 5, R (Suc (Suc k)) * 1.5 + 3.5, Suc (Suc (Suc k)))"
  by (simp add: size_class_def randomRange_def Math_random_def)

lemma size_class_medium:
  "\<not> r < 0.3 \<Longrightarrow> r < 0.7 \<Longrightarrow> size_class R r k = (R k * 60 + 120, R (Suc k) * 3 + 8, R (Suc (Suc k)) * 1.5 + 4.5, Suc (Suc (Suc k)))"
  by (simp add: size_class_def randomRange_def Math_random_def)

lemma size_class_large:
  "\<not> r < 0.7 \<Longrightarrow> size_class R r k = (R k * 100 + 200, R (Suc k) * 4 + 10, R (Suc (Suc k)) * 2 + 5.5, Suc (Suc (Suc k)))"
  by (simp add: size_class_def randomRange_def Math_random_def)

lemma roll_explosion_eq:
  "roll_explosion R k =
     ((COLOR_PALETTES ! nat \<lfloor>R k * 12\<rfloor>, EXPLOSION_STYLES ! nat \<lfloor>R (Suc k) * 5\<rfloor>,
       fst (size_class R (R (k + 2)) (k + 3)),
       fst (snd (size_class R (R (k + 2)) (k + 3))),
       fst (snd (snd (size_class R (R (k + 2)) (k + 3))))), k + 6)"
proof -
  have e: "k + 2 = Suc (Suc k)" "k + 3 = Suc (Suc (Suc k))"
    "k + 6 = Suc (Suc (Suc (Suc (Suc (Suc k)))))"
    by simp_all
  show ?thesis
    unfolding e
    using size_class_snd[of R "R (Suc (Suc k))" "Suc (Suc (Suc k))"]
    by (simp add: roll_explosion_def randomChoice_def Math_random_def split_def Let_def
        COLOR_PALETTES_def EXPLOSION_STYLES_def)
qed

lemma size_class_count_bounds:
  assumes "rng_ok R"
  shows "70 \<le> fst (size_class R r k)" "fst (size_class R r k) < 300"
proof -
  have b: "0 \<le> R k" "R k < 1" using rng_okD[OF assms, of k] by simp_all
  show "70 \<le> fst (size_class R r k)"
    using b by (cases "r < 0.3"; cases "r < 0.7") (simp_all add: size_class_small size_class_medium size_class_large)
  show "fst (size_class R r k) < 300"
    using b by (cases "r < 0.3"; cases "r < 0.7") (simp_all add: size_class_small size_class_medium size_class_large)
qed

lemma size_class_power_pos:
  assumes "rng_ok R"
  shows "0 < fst (snd (size_class R r k))"
proof -
  have b: "0 \<le> R (Suc k)" using rng_okD[OF assms, of "Suc k"] by simp
  have "0 \<le> R (Suc k) * 3" "0 \<le> R (Suc k) * 4" using b by simp_all
  then show ?thesis
    by (cases "r < 0.3"; cases "r < 0.7") (simp_all add: size_class_small size_class_medium size_class_large)
qed

section \<open>The loop body of the composer\<close>

lemma spawn_particle_circle:
  "spawn_particle R x0 y0 pal circle pw bs k =
     (\<lparr>x = x0, y = y0,
       vx = cos (R k * pi * 2) * (R (k + 1) * pw),
       vy = sin (R k * pi * 2) * (R (k + 1) * pw),
       hue = Palette.hue pal + (R (k + 2) - 0.5) * 30,
       lightness = (R (k + 3) * 10 + 45) + R (k + 5) * 10,
       alpha = 1,
       decay = R (k + 4) * 0.01 + 0.01,
       friction = 0.98, gravity = 0.04,
       size = bs + R (k + 7) * 2\<rparr>, k + 8)"
  by (simp add: spawn_particle_def style_adjust_def new_Particle_def randomRange_def
      Math_random_def Let_def numeral_eq_Suc)

lemma spawn_particle_ring:
  "spawn_particle R x0 y0 pal ring pw bs k =
     (\<lparr>x = x0, y = y0,
       vx = cos (R k * pi * 2) * (pw * (0.85 + R (k + 5) * 0.3)),
       vy = sin (R k * pi * 2) * (pw * (0.85 + R (k + 5) * 0.3)),
       hue = Palette.hue pal + (R (k + 2) - 0.5) * 30,
       lightness = (R (k + 7) * 10 + 45) + R (k + 8) * 10,
       alpha = 1,
       decay = R (k + 6) * 0.01 + 0.015,
       friction = 0.98, gravity = 0.04,
       size = bs + R (k + 10) * 2\<rparr>, k + 11)"
  by (simp add: spawn_particle_def style_adjust_def new_Particle_def randomRange_def
      Math_random_def Let_def numeral_eq_Suc)

lemma spawn_particle_fixed:
  "alpha (fst (spawn_particle R x0 y0 pal st pw bs k)) = 1"
  "friction (fst (spawn_particle R x0 y0 pal st pw bs k)) = 0.98"
  "Particle.x (fst (spawn_particle R x0 y0 pal st pw bs k)) = x0"
  "Particle.y (fst (spawn_particle R x0 y0 pal st pw bs k)) = y0"
  by (cases st; simp add: spawn_particle_def style_adjust_def new_Particle_def split_def Let_def)+

lemma style_adjust_decay:
  assumes "rng_ok R" "0.008 \<le> d" "d < 0.025"
  shows "0.008 \<le> fst (snd (snd (snd (fst (style_adjust R pal st pw (v, h, l, d, gr) k)))))
       \<and> fst (snd (snd (snd (fst (style_adjust R pal st pw (v, h, l, d, gr) k))))) < 0.025"
proof (cases st)
  case ring
  have "0.015 \<le> fst (randomRange R 0.015 0.025 (Suc k))" "fst (randomRange R 0.015 0.025 (Suc k)) < 0.025"
    using randomRange_bounds[OF assms(1), of "0.015" "0.025" "Suc k"] by simp_all
  then show ?thesis using ring
    by (simp add: style_adjust_def split_def Let_def)
next
  case willow
  have "0.008 \<le> fst (randomRange R 0.008 0.015 (Suc k))" "fst (randomRange R 0.008 0.015 (Suc k)) < 0.015"
    using randomRange_bounds[OF assms(1), of "0.008" "0.015" "Suc k"] by simp_all
  then show ?thesis using willow
    by (simp add: style_adjust_def split_def Let_def)
qed (use assms in \<open>simp_all add: style_adjust_def split_def Let_def\<close>)

lemma spawn_particle_decay:
  assumes "rng_ok R"
  shows "0.008 \<le> decay (fst (spawn_particle R x0 y0 pal st pw bs k))"
    and "decay (fst (spawn_particle R x0 y0 pal st pw bs k)) < 0.025"
proof -
  define d where "d = fst (randomRange R 0.01 0.02 (k + 4))"
  have d: "0.008 \<le> d" "d < 0.025"
    using randomRange_bounds[OF assms, of "0.01" "0.02" "k + 4"] by (simp_all add: d_def)
  have "decay (fst (spawn_particle R x0 y0 pal st pw bs k)) =
        fst (snd (snd (snd (fst (style_adjust R pal st pw
           (R (k + 1) * pw, Palette.hue pal + (R (k + 2) - 0.5) * 30, fst (randomRange R 45 55 (k + 3)), d, 0.04) (k + 5))))))"
    by (simp add: spawn_particle_def new_Particle_def split_def Let_def d_def numeral_eq_Suc)
  then show "0.008 \<le> decay (fst (spawn_particle R x0 y0 pal st pw bs k))"
    and "decay (fst (spawn_particle R x0 y0 pal st pw bs k)) < 0.025"
    using style_adjust_decay[OF assms d] by simp_all
qed

section \<open>Accepting and dropping an explosion\<close>

lemma spawn_fold_batch:
  "\<exists>batch k'. fold (\<lambda>(i::nat) (ps, k).
                      let (particle, k) = spawn_particle R x0 y0 pal st pw bs k
                      in (ps @ [particle], k)) js (ps, k) = (ps @ batch, k')
        \<and> length batch = length js
        \<and> (\<forall>p\<in>set batch. \<exists>j. p = fst (spawn_particle R x0 y0 pal st pw bs j))"
proof (induction js arbitrary: ps k)
  case Nil
  show ?case by simp
next
  case (Cons i js)
  define p where "p = fst (spawn_particle R x0 y0 pal st pw bs k)"
  define k1 where "k1 = snd (spawn_particle R x0 y0 pal st pw bs k)"
  obtain batch k' where b:
    "fold (\<lambda>(i::nat) (ps, k).
             let (particle, k) = spawn_particle R x0 y0 pal st pw bs k
             in (ps @ [particle], k)) js (ps @ [p], k1) = ((ps @ [p]) @ batch, k')"
    "length batch = length js"
    "\<forall>q\<in>set batch. \<exists>j. q = fst (spawn_particle R x0 y0 pal st pw bs j)"
    using Cons.IH[of "ps @ [p]" k1] by blast
  have "fold (\<lambda>(i::nat) (ps, k).
             let (particle, k) = spawn_particle R x0 y0 pal st pw bs k
             in (ps @ [particle], k)) (i # js) (ps, k) = (ps @ (p # batch), k')"
    using b(1) by (simp add: p_def k1_def split_def Let_def)
  moreover have "length (p # batch) = length (i # js)"
    using b(2) by simp
  moreover have "\<forall>q\<in>set (p # batch). \<exists>j. q = fst (spawn_particle R x0 y0 pal st pw bs j)"
    using b(3) p_def by auto
  ultimately show ?case by blast
qed

lemma triggerFirework_reject:
  "canvasRef g = None \<or> length (particles g) > 2000 \<Longrightarrow> triggerFirework x0 y0 g = g"
  by (auto simp: triggerFirework_def MAX_PARTICLES_def)

lemma triggerFirework_accept:
  assumes "canvasRef g \<noteq> None" and "length (particles g) \<le> 2000"
    and "roll_explosion (random_src g) (random_used g) = ((pal, st, pc, pw, bs), k0)"
  shows "\<exists>batch k'. triggerFirework x0 y0 g = g\<lparr>particles := particles g @ batch, random_used := k'\<rparr>
           \<and> length batch = nat \<lceil>pc\<rceil>
           \<and> (\<forall>p\<in>set batch. \<exists>j. p = fst (spawn_particle (random_src g) x0 y0 pal st pw bs j))"
proof -
  obtain batch k' where b:
    "fold (\<lambda>(i::nat) (ps, k).
             let (particle, k) = spawn_particle (random_src g) x0 y0 pal st pw bs k
             in (ps @ [particle], k)) [0..<nat \<lceil>pc\<rceil>] (particles g, k0) = (particles g @ batch, k')"
    "length batch = length [0..<nat \<lceil>pc\<rceil>]"
    "\<forall>q\<in>set batch. \<exists>j. q = fst (spawn_particle (random_src g) x0 y0 pal st pw bs j)"
    using spawn_fold_batch[of "random_src g" x0 y0 pal st pw bs "[0..<nat \<lceil>pc\<rceil>]" "particles g" k0]
    by blast
  have "triggerFirework x0 y0 g = g\<lparr>particles := particles g @ batch, random_used := k'\<rparr>"
    using assms b(1)
    by (auto simp add: triggerFirework_def MAX_PARTICLES_def Let_def for_loop_fold)
  then show ?thesis using b(2,3) by auto
qed

lemma triggerFirework_frame:
  "handStateRef (triggerFirework x0 y0 g) = handStateRef g"
  "prevHandStateRef (triggerFirework x0 y0 g) = prevHandStateRef g"
  "handPosRef (triggerFirework x0 y0 g) = handPosRef g"
  "lastTriggerTime (triggerFirework x0 y0 g) = lastTriggerTime g"
  "grandFinale_active (triggerFirework x0 y0 g) = grandFinale_active g"
  "grandFinale_lastSpawn (triggerFirework x0 y0 g) = grandFinale_lastSpawn g"
  "canvasRef (triggerFirework x0 y0 g) = canvasRef g"
  "random_src (triggerFirework x0 y0 g) = random_src g"
  by (simp_all add: triggerFirework_def Let_def split_def)

lemma triggerFirework_appends:
  assumes "rng_ok (random_src g)"
  shows "\<exists>batch. particles (triggerFirework x0 y0 g) = particles g @ batch
           \<and> (length (particles g) \<le> 2000 \<longrightarrow> length batch \<le> 300)
           \<and> (length (particles g) > 2000 \<longrightarrow> batch = [])
           \<and> (\<forall>p\<in>set batch. alpha p = 1 \<and> 0.008 \<le> decay p \<and> decay p < 0.025)"
proof (cases "canvasRef g = None \<or> length (particles g) > 2000")
  case True
  then have "triggerFirework x0 y0 g = g" by (rule triggerFirework_reject)
  then show ?thesis by simp
next
  case False
  obtain pal st pc pw bs k0 where
    r: "roll_explosion (random_src g) (random_used g) = ((pal, st, pc, pw, bs), k0)"
    by (metis surj_pair)
  obtain batch k' where b:
    "triggerFirework x0 y0 g = g\<lparr>particles := particles g @ batch, random_used := k'\<rparr>"
    "length batch = nat \<lceil>pc\<rceil>"
    "\<forall>p\<in>set batch. \<exists>j. p = fst (spawn_particle (random_src g) x0 y0 pal st pw bs j)"
    using triggerFirework_accept[OF _ _ r, of x0 y0] False by auto
  have "pc = fst (size_class (random_src g) (random_src g (random_used g + 2)) (random_used g + 3))"
    using r by (simp add: roll_explosion_eq)
  then have "pc < 300"
    using size_class_count_bounds(2)[OF assms] by simp
  then have "\<lceil>pc\<rceil> \<le> 300"
    by (simp add: ceiling_le_iff)
  then have "length batch \<le> 300"
    using b(2) by linarith
  moreover have "\<forall>p\<in>set batch. alpha p = 1 \<and> 0.008 \<le> decay p \<and> decay p < 0.025"
  proof
    fix p assume "p \<in> set batch"
    then obtain j where "p = fst (spawn_particle (random_src g) x0 y0 pal st pw bs j)"
      using b(3) by blast
    then show "alpha p = 1 \<and> 0.008 \<le> decay p \<and> decay p < 0.025"
      using spawn_particle_fixed(1) spawn_particle_decay[OF assms] by simp
  qed
  ultimately show ?thesis using b(1) False by auto
qed

lemma triggerFirework_length:
  assumes "rng_ok (random_src g)" and "length (particles g) \<le> 2300"
  shows "length (particles (triggerFirework x0 y0 g)) \<le> 2300"
proof -
  obtain batch where b: "particles (triggerFirework x0 y0 g) = particles g @ batch"
    "length (particles g) \<le> 2000 \<longrightarrow> length batch \<le> 300"
    "length (particles g) > 2000 \<longrightarrow> batch = []"
    using triggerFirework_appends[OF assms(1), of x0 y0] by blast
  show ?thesis
  proof (cases "length (particles g) \<le> 2000")
    case True
    then show ?thesis using b by simp
  next
    case False
    then show ?thesis using b assms(2) by simp
  qed
qed

section \<open>The grand finale only spawns\<close>

lemma spawned_refl: "spawned g g"
  unfolding spawned_def
  by (rule exI[of _ "[]"], rule exI[of _ "random_used g"]) simp

lemma spawned_trans:
  assumes "spawned g g'" and "spawned g' g''"
  shows "spawned g g''"
proof -
  obtain b1 k1 where 1: "g' = g\<lparr>particles := particles g @ b1, random_used := k1\<rparr>"
    "\<forall>p\<in>set b1. fresh p" "length (particles g) \<le> 2300 \<longrightarrow> length (particles g') \<le> 2300"
    using assms(1) unfolding spawned_def by (elim exE conjE)
  obtain b2 k2 where 2: "g'' = g'\<lparr>particles := particles g' @ b2, random_used := k2\<rparr>"
    "\<forall>p\<in>set b2. fresh p" "length (particles g') \<le> 2300 \<longrightarrow> length (particles g'') \<le> 2300"
    using assms(2) unfolding spawned_def by (elim exE conjE)
  have "g'' = g\<lparr>particles := particles g @ (b1 @ b2), random_used := k2\<rparr>"
    using 1(1) 2(1) by simp
  moreover have "\<forall>p\<in>set (b1 @ b2). fresh p"
    using 1(2) 2(2) by auto
  moreover have "length (particles g) \<le> 2300 \<longrightarrow> length (particles g'') \<le> 2300"
    using 1(3) 2(3) by blast
  ultimately show ?thesis
    unfolding spawned_def
    by (intro exI[of _ "b1 @ b2"] exI[of _ k2] conjI)
qed

lemma spawned_random_src: "spawned g g' \<Longrightarrow> random_src g' = random_src g"
  unfolding spawned_def by auto

lemma triggerFirework_spawned:
  assumes "rng_ok (random_src g)"
  shows "spawned g (triggerFirework x0 y0 g)"
proof -
  obtain batch where b: "particles (triggerFirework x0 y0 g) = particles g @ batch"
    "\<forall>p\<in>set batch. alpha p = 1 \<and> 0.008 \<le> decay p \<and> decay p < 0.025"
    using triggerFirework_appends[OF assms, of x0 y0] by blast
  have "triggerFirework x0 y0 g =
        g\<lparr>particles := particles (triggerFirework x0 y0 g),
          random_used := random_used (triggerFirework x0 y0 g)\<rparr>"
    by (simp add: triggerFirework_def Let_def split_def)
  then have "triggerFirework x0 y0 g =
        g\<lparr>particles := particles g @ batch, random_used := random_used (triggerFirework x0 y0 g)\<rparr>"
    using b(1) by simp
  moreover have "\<forall>p\<in>set batch. fresh p"
    using b(2) by (simp add: fresh_def)
  moreover have "length (particles g) \<le> 2300 \<longrightarrow> length (particles (triggerFirework x0 y0 g)) \<le> 2300"
    using triggerFirework_length[OF assms] by blast
  ultimately show ?thesis
    unfolding spawned_def
    by (intro exI[of _ batch] exI[of _ "random_used (triggerFirework x0 y0 g)"] conjI)
qed

lemma game_random_spawned: "spawned g (snd (game_random g))"
  unfolding spawned_def
  by (rule exI[of _ "[]"], rule exI[of _ "Suc (random_used g)"])
     (simp add: game_random_def Math_random_def)

lemma spawned_trigger:
  assumes "rng_ok (random_src g)" and "spawned g g'"
  shows "spawned g (triggerFirework x0 y0 g')"
proof -
  have "rng_ok (random_src g')"
    using assms spawned_random_src by simp
  then show ?thesis
    using assms(2) triggerFirework_spawned spawned_trans by blast
qed

lemma spawned_random:
  assumes "spawned g g'"
  shows "spawned g (snd (game_random g'))"
  using assms game_random_spawned spawned_trans by blast

lemma finale_patterns_rule:
  assumes "P g"
    and T: "\<And>x0 y0 s. P s \<Longrightarrow> P (triggerFirework x0 y0 s)"
    and Rn: "\<And>s. P s \<Longrightarrow> P (snd (game_random s))"
  shows "P (finale_patterns w h now g)"
proof -
  have 1: "P (finale_pattern1 w h g)"
    unfolding finale_pattern1_def by (simp add: split_def Let_def assms)
  have 2: "P (finale_pattern2 w h g)"
    unfolding finale_pattern2_def
    by (rule for_loop_invariant[where P = P]) (simp_all add: split_def Let_def assms)
  have 3: "P (finale_pattern3 w h g)"
    unfolding finale_pattern3_def by (simp add: split_def Let_def assms)
  have 4: "P (finale_pattern4 w h g)"
    unfolding finale_pattern4_def by (simp add: Let_def assms)
  have 5: "P (finale_pattern5 w h g)"
    unfolding finale_pattern5_def Let_def
    by (rule for_loop_invariant[where P = P]) (simp_all add: Let_def assms)
  have 6: "P (finale_pattern6 w h g)"
    unfolding finale_pattern6_def
    by (rule for_loop_invariant[where P = P]) (simp_all add: split_def Let_def assms)
  show ?thesis
    unfolding finale_patterns_def Let_def using 1 2 3 4 5 6 by simp
qed

lemma finale_patterns_frame:
  "handStateRef (finale_patterns w h now g) = handStateRef g
   \<and> prevHandStateRef (finale_patterns w h now g) = prevHandStateRef g
   \<and> handPosRef (finale_patterns w h now g) = handPosRef g
   \<and> lastTriggerTime (finale_patterns w h now g) = lastTriggerTime g
   \<and> grandFinale_active (finale_patterns w h now g) = grandFinale_active g
   \<and> grandFinale_lastSpawn (finale_patterns w h now g) = grandFinale_lastSpawn g
   \<and> canvasRef (finale_patterns w h now g) = canvasRef g
   \<and> random_src (finale_patterns w h now g) = random_src g"
  by (rule finale_patterns_rule[where P = "\<lambda>s. handStateRef s = handStateRef g
   \<and> prevHandStateRef s = prevHandStateRef g
   \<and> handPosRef s = handPosRef g
   \<and> lastTriggerTime s = lastTriggerTime g
   \<and> grandFinale_active s = grandFinale_active g
   \<and> grandFinale_lastSpawn s = grandFinale_lastSpawn g
   \<and> canvasRef s = canvasRef g
   \<and> random_src s = random_src g"])
     (simp_all add: triggerFirework_frame game_random_def Math_random_def)

lemma finale_patterns_spawned:
  assumes "rng_ok (random_src g)"
  shows "spawned g (finale_patterns w h now g)"
  by (rule finale_patterns_rule[where P = "spawned g"])
     (simp_all add: spawned_refl spawned_trigger[OF assms] spawned_random)

section \<open>Particles of a batch\<close>

lemma rng_ok_steady: "0 \<le> r \<Longrightarrow> r < 1 \<Longrightarrow> rng_ok (steady r)"
  by (simp add: rng_ok_def steady_def)

lemma demo_game_simps:
  "particles (demo_game R) = []" "canvasRef (demo_game R) = Some demo_canvas"
  "random_src (demo_game R) = R" "random_used (demo_game R) = 0"
  by (simp_all add: demo_game_def initial_def)

lemma speed_polar:
  assumes "0 \<le> v"
  shows "sqrt ((cos a * v) * (cos a * v) + (sin a * v) * (sin a * v)) = v"
proof -
  have "(cos a * v) * (cos a * v) + (sin a * v) * (sin a * v) =
        ((cos a)\<^sup>2 + (sin a)\<^sup>2) * (v * v)"
    unfolding power2_eq_square by (simp only: algebra_simps)
  also have "\<dots> = v * v"
    by (simp only: sin_cos_squared_add2 mult_1)
  finally show ?thesis using assms by simp
qed

lemma roll_explosion_power_pos:
  assumes "rng_ok R" and "roll_explosion R k = ((pal, st, pc, pw, bs), k')"
  shows "0 < pw"
proof -
  have "pw = fst (snd (size_class R (R (k + 2)) (k + 3)))"
    using assms(2) by (simp add: roll_explosion_eq)
  then show ?thesis using size_class_power_pos[OF assms(1)] by simp
qed

lemma ring_particle:
  assumes "rng_ok R" and "0 < pw"
  shows "pw * 0.85 \<le> speed (fst (spawn_particle R x0 y0 pal ring pw bs j))"
    and "speed (fst (spawn_particle R x0 y0 pal ring pw bs j)) \<le> pw * 1.15"
    and "0.015 \<le> decay (fst (spawn_particle R x0 y0 pal ring pw bs j))"
    and "decay (fst (spawn_particle R x0 y0 pal ring pw bs j)) \<le> 0.025"
proof -
  define r where "r = R (j + 5)"
  define d where "d = R (j + 6)"
  have b: "0 \<le> r" "r < 1" "0 \<le> d" "d < 1"
    using rng_okD[OF assms(1)] by (simp_all add: r_def d_def)
  define v where "v = pw * (0.85 + r * 0.3)"
  have v0: "0 \<le> v" using assms(2) b by (simp add: v_def)
  have sp: "speed (fst (spawn_particle R x0 y0 pal ring pw bs j)) = v"
    unfolding spawn_particle_ring speed_def using speed_polar[OF v0]
    by (simp add: v_def r_def)
  have "pw * 0.85 \<le> pw * (0.85 + r * 0.3)"
    using assms(2) b by (intro mult_left_mono) simp_all
  then show "pw * 0.85 \<le> speed (fst (spawn_particle R x0 y0 pal ring pw bs j))"
    using sp by (simp add: v_def)
  have "pw * (0.85 + r * 0.3) \<le> pw * 1.15"
    using assms(2) b by (intro mult_left_mono) simp_all
  then show "speed (fst (spawn_particle R x0 y0 pal ring pw bs j)) \<le> pw * 1.15"
    using sp by (simp add: v_def)
  have dec: "decay (fst (spawn_particle R x0 y0 pal ring pw bs j)) = d * 0.01 + 0.015"
    unfolding spawn_particle_ring by (simp add: d_def)
  show "0.015 \<le> decay (fst (spawn_particle R x0 y0 pal ring pw bs j))"
    using b unfolding dec by simp
  show "decay (fst (spawn_particle R x0 y0 pal ring pw bs j)) \<le> 0.025"
    using b unfolding dec by simp
qed

lemma rng_ok_draws:
  assumes "\<forall>x\<in>set xs. 0 \<le> x \<and> x < 1" and "0 \<le> d" and "d < 1"
  shows "rng_ok (draws xs d)"
  using assms by (simp add: rng_ok_def draws_def)

lemma triggerFirework_first:
  assumes "canvasRef g \<noteq> None" and "length (particles g) \<le> 2000"
    and "roll_explosion (random_src g) (random_used g) = ((pal, st, pc, pw, bs), k0)"
    and "0 < pc"
  shows "particles (triggerFirework x0 y0 g) ! length (particles g) =
         fst (spawn_particle (random_src g) x0 y0 pal st pw bs k0)"
proof -
  define B where "B = (\<lambda>(i::nat) (ps, k).
            let (particle, k) = spawn_particle (random_src g) x0 y0 pal st pw bs k
            in (ps @ [particle], k))"
  define p where "p = fst (spawn_particle (random_src g) x0 y0 pal st pw bs k0)"
  define k1 where "k1 = snd (spawn_particle (random_src g) x0 y0 pal st pw bs k0)"
  have "0 < nat \<lceil>pc\<rceil>" using assms(4) by simp
  then have "[0..<nat \<lceil>pc\<rceil>] = 0 # [1..<nat \<lceil>pc\<rceil>]"
    by (simp add: upt_conv_Cons)
  then have "for_loop pc B 0 (particles g, k0) = fold B [1..<nat \<lceil>pc\<rceil>] (particles g @ [p], k1)"
    by (simp add: for_loop_fold B_def p_def k1_def split_def Let_def)
  moreover obtain batch k' where
    "fold B [1..<nat \<lceil>pc\<rceil>] (particles g @ [p], k1) = ((particles g @ [p]) @ batch, k')"
    using spawn_fold_batch[of "random_src g" x0 y0 pal st pw bs "[1..<nat \<lceil>pc\<rceil>]"
        "particles g @ [p]" k1]
    unfolding B_def by blast
  ultimately have "for_loop pc B 0 (particles g, k0) = (particles g @ p # batch, k')"
    by simp
  then have "particles (triggerFirework x0 y0 g) = particles g @ p # batch"
    using assms(1,2,3)
    by (auto simp add: triggerFirework_def MAX_PARTICLES_def Let_def B_def)
  then show ?thesis by (simp add: p_def)
qed

lemma circle_particle:
  assumes "rng_ok R"
  shows "\<exists>b j. lightness (fst (spawn_particle R x0 y0 pal circle pw bs k)) = b + j
            \<and> 45 \<le> b \<and> b < 55 \<and> 0 \<le> j \<and> j < 10"
    and "Palette.hue pal - 15 \<le> hue (fst (spawn_particle R x0 y0 pal circle pw bs k))"
    and "hue (fst (spawn_particle R x0 y0 pal circle pw bs k)) < Palette.hue pal + 15"
    and "0.01 \<le> decay (fst (spawn_particle R x0 y0 pal circle pw bs k))"
    and "decay (fst (spawn_particle R x0 y0 pal circle pw bs k)) \<le> 0.02"
    and "gravity (fst (spawn_particle R x0 y0 pal circle pw bs k)) = 0.04"
proof -
  define h l d c where "h = R (k + 2)" and "l = R (k + 3)" and "d = R (k + 4)" and "c = R (k + 5)"
  have b: "0 \<le> h" "h < 1" "0 \<le> l" "l < 1" "0 \<le> d" "d < 1" "0 \<le> c" "c < 1"
    using rng_okD[OF assms] by (simp_all add: h_def l_def d_def c_def)
  have "lightness (fst (spawn_particle R x0 y0 pal circle pw bs k)) = (l * 10 + 45) + c * 10"
    unfolding spawn_particle_circle by (simp add: l_def c_def)
  moreover have "45 \<le> l * 10 + 45" "l * 10 + 45 < 55" "0 \<le> c * 10" "c * 10 < 10"
    using b by simp_all
  ultimately show "\<exists>b j. lightness (fst (spawn_particle R x0 y0 pal circle pw bs k)) = b + j
            \<and> 45 \<le> b \<and> b < 55 \<and> 0 \<le> j \<and> j < 10"
    by blast
  have hu: "hue (fst (spawn_particle R x0 y0 pal circle pw bs k)) = Palette.hue pal + (h - 0.5) * 30"
    unfolding spawn_particle_circle by (simp add: h_def)
  show "Palette.hue pal - 15 \<le> hue (fst (spawn_particle R x0 y0 pal circle pw bs k))"
    unfolding hu using b by simp
  show "hue (fst (spawn_particle R x0 y0 pal circle pw bs k)) < Palette.hue pal + 15"
    unfolding hu using b by simp
  have de: "decay (fst (spawn_particle R x0 y0 pal circle pw bs k)) = d * 0.01 + 0.01"
    unfolding spawn_particle_circle by (simp add: d_def)
  show "0.01 \<le> decay (fst (spawn_particle R x0 y0 pal circle pw bs k))"
    unfolding de using b by simp
  show "decay (fst (spawn_particle R x0 y0 pal circle pw bs k)) \<le> 0.02"
    unfolding de using b by simp
  show "gravity (fst (spawn_particle R x0 y0 pal circle pw bs k)) = 0.04"
    unfolding spawn_particle_circle by simp
qed

lemma roll_draws:
  "roll_explosion (draws [0, 0, 0] (9/10)) 0 =
     ((\<lparr>Palette.hue = 0, name = ''red''\<rparr>, circle, 106, 77/10, 97/20), 6)"
  by (simp add: roll_explosion_eq size_class_small draws_def COLOR_PALETTES_def
      EXPLOSION_STYLES_def)

section \<open>A frame\<close>

lemma grown_refl: "grown g g"
  unfolding grown_def by simp

lemma grown_trans:
  assumes "grown g g'" and "grown g' g''"
  shows "grown g g''"
proof -
  obtain b1 where 1: "particles g' = particles g @ b1" "\<forall>p\<in>set b1. fresh p"
    "length (particles g) \<le> 2300 \<longrightarrow> length (particles g') \<le> 2300"
    using assms(1) unfolding grown_def by (elim exE conjE)
  obtain b2 where 2: "particles g'' = particles g' @ b2" "\<forall>p\<in>set b2. fresh p"
    "length (particles g') \<le> 2300 \<longrightarrow> length (particles g'') \<le> 2300"
    using assms(2) unfolding grown_def by (elim exE conjE)
  have "particles g'' = particles g @ (b1 @ b2)" using 1(1) 2(1) by simp
  moreover have "\<forall>p\<in>set (b1 @ b2). fresh p" using 1(2) 2(2) by auto
  moreover have "length (particles g) \<le> 2300 \<longrightarrow> length (particles g'') \<le> 2300"
    using 1(3) 2(3) by blast
  ultimately have "\<exists>batch. particles g'' = particles g @ batch
            \<and> (\<forall>p\<in>set batch. fresh p)
            \<and> (length (particles g) \<le> 2300 \<longrightarrow> length (particles g'') \<le> 2300)"
    by (intro exI[of _ "b1 @ b2"] conjI)
  then show ?thesis
    using assms unfolding grown_def by simp
qed

lemma spawned_grown: "spawned g g' \<Longrightarrow> grown g g'"
  unfolding spawned_def grown_def by auto

lemma grown_updates:
  "grown g s \<Longrightarrow> grown g (s\<lparr>prevHandStateRef := pv\<rparr>)"
  "grown g s \<Longrightarrow> grown g (s\<lparr>lastTriggerTime := lt\<rparr>)"
  "grown g s \<Longrightarrow> grown g (s\<lparr>grandFinale_active := b\<rparr>)"
  "grown g s \<Longrightarrow> grown g (s\<lparr>grandFinale_lastSpawn := t\<rparr>)"
  unfolding grown_def by simp_all

lemma grown_trigger:
  assumes "rng_ok (random_src g)" and "grown g s"
  shows "grown g (triggerFirework x0 y0 s)"
proof -
  have "rng_ok (random_src s)" using assms unfolding grown_def by simp
  then have "grown s (triggerFirework x0 y0 s)"
    by (intro spawned_grown triggerFirework_spawned)
  with assms(2) show ?thesis by (rule grown_trans)
qed

lemma grown_finale:
  assumes "rng_ok (random_src g)" and "grown g s"
  shows "grown g (finale_patterns w h now s)"
proof -
  have "rng_ok (random_src s)" using assms unfolding grown_def by simp
  then have "grown s (finale_patterns w h now s)"
    by (intro spawned_grown finale_patterns_spawned)
  with assms(2) show ?thesis by (rule grown_trans)
qed

lemma hand_step_finale:
  "hand_step w h now True lane g =
   g\<lparr>prevHandStateRef := (prevHandStateRef g)(lane := handStateRef g lane)\<rparr>"
  by (simp add: hand_step_def Let_def)

lemma hand_step_normal:
  "hand_step (real (width cv)) (real (height cv)) now False lane s = lane_spec now cv s lane s"
  by (simp add: hand_step_def lane_spec_def fires_spec_def screenX_spec_def screenY_spec_def Let_def)

lemma lane_spec_cong:
  assumes "handStateRef g' lane = handStateRef g lane"
    and "prevHandStateRef g' lane = prevHandStateRef g lane"
    and "lastTriggerTime g' lane = lastTriggerTime g lane"
    and "handPosRef g' lane = handPosRef g lane"
  shows "lane_spec now cv g' lane s = lane_spec now cv g lane s"
  using assms by (simp add: lane_spec_def fires_spec_def)

lemma lane_spec_fields:
  "handStateRef (lane_spec now cv g lane s) = handStateRef s"
  "handPosRef (lane_spec now cv g lane s) = handPosRef s"
  "canvasRef (lane_spec now cv g lane s) = canvasRef s"
  "random_src (lane_spec now cv g lane s) = random_src s"
  "grandFinale_active (lane_spec now cv g lane s) = grandFinale_active s"
  "grandFinale_lastSpawn (lane_spec now cv g lane s) = grandFinale_lastSpawn s"
  "prevHandStateRef (lane_spec now cv g lane s) = (prevHandStateRef s)(lane := handStateRef g lane)"
  "lastTriggerTime (lane_spec now cv g lane s) =
     (if fires_spec now g lane then (lastTriggerTime s)(lane := now) else lastTriggerTime s)"
  by (simp_all add: lane_spec_def Let_def triggerFirework_frame)

lemma lane_spec_idle:
  "\<not> fires_spec now g lane \<Longrightarrow>
   lane_spec now cv g lane s = s\<lparr>prevHandStateRef := (prevHandStateRef s)(lane := handStateRef g lane)\<rparr>"
  by (simp add: lane_spec_def)

lemma grown_lane_spec:
  assumes "rng_ok (random_src g)" and "grown g s"
  shows "grown g (lane_spec now cv g' lane s)"
  unfolding lane_spec_def Let_def
  using assms by (simp add: grown_updates grown_trigger)

lemma hands_both: "(f :: hand \<Rightarrow> 'a)(Left := g Left, Right := g Right) = g"
proof
  fix h show "(f(Left := g Left, Right := g Right)) h = g h"
    by (cases h) simp_all
qed

lemma draw_no_canvas:
  "canvasRef g = None \<Longrightarrow> draw now g = g"
  "canvasRef g = Some cv \<Longrightarrow> \<not> ctx2d cv \<Longrightarrow> draw now g = g"
  by (simp_all add: draw_def)

lemma draw_normal:
  assumes "canvasRef g = Some cv" and "ctx2d cv"
    and "\<not> (handStateRef g Left = OPEN \<and> handStateRef g Right = OPEN)"
  shows "draw now g =
     (let s = lane_spec now cv g Right
                (lane_spec now cv g Left (g\<lparr>grandFinale_active := False\<rparr>))
      in s\<lparr>particles := update_particles (particles s)\<rparr>)"
proof -
  define g0 where "g0 = g\<lparr>grandFinale_active := False\<rparr>"
  define s1 where "s1 = lane_spec now cv g0 Left g0"
  have 1: "lane_spec now cv g0 Left g0 = lane_spec now cv g Left g0"
    by (rule lane_spec_cong) (simp_all add: g0_def)
  have 2: "lane_spec now cv s1 Right s1 = lane_spec now cv g Right s1"
    by (rule lane_spec_cong) (simp_all add: s1_def lane_spec_fields g0_def)
  have "draw now g =
     (let s = lane_spec now cv s1 Right s1 in s\<lparr>particles := update_particles (particles s)\<rparr>)"
    using assms
    by (auto simp add: draw_def Let_def hand_step_normal g0_def s1_def)
  then have "draw now g =
     (let s = lane_spec now cv g Right s1 in s\<lparr>particles := update_particles (particles s)\<rparr>)"
    by (simp only: 2)
  then have "draw now g =
     (let s = lane_spec now cv g Right (lane_spec now cv g Left g0)
      in s\<lparr>particles := update_particles (particles s)\<rparr>)"
    by (simp only: s1_def 1)
  then show ?thesis
    by (simp only: g0_def)
qed

lemma draw_finale:
  assumes "canvasRef g = Some cv" and "ctx2d cv"
    and "handStateRef g Left = OPEN" and "handStateRef g Right = OPEN"
  shows "draw now g =
     (let s0 = g\<lparr>grandFinale_active := True\<rparr>;
          s1 = (if now - grandFinale_lastSpawn g > 15
                then (finale_patterns (real (width cv)) (real (height cv)) now s0)
                       \<lparr>grandFinale_lastSpawn := now\<rparr>
                else s0);
          s2 = s1\<lparr>prevHandStateRef := handStateRef g\<rparr>
      in s2\<lparr>particles := update_particles (particles s2)\<rparr>)"
proof -
  define s0 where "s0 = g\<lparr>grandFinale_active := True\<rparr>"
  define s1 where "s1 = (if now - grandFinale_lastSpawn g > 15
                then (finale_patterns (real (width cv)) (real (height cv)) now s0)
                       \<lparr>grandFinale_lastSpawn := now\<rparr>
                else s0)"
  have hs: "handStateRef s1 = handStateRef g"
  proof -
    have "handStateRef (finale_patterns (real (width cv)) (real (height cv)) now s0) = handStateRef s0"
      using finale_patterns_frame by blast
    then show ?thesis by (simp add: s1_def s0_def)
  qed
  have "draw now g = (let s2 = s1\<lparr>prevHandStateRef :=
            (prevHandStateRef s1)(Left := handStateRef s1 Left, Right := handStateRef s1 Right)\<rparr>
      in s2\<lparr>particles := update_particles (particles s2)\<rparr>)"
    using assms
    by (simp add: draw_def Let_def hand_step_finale s0_def s1_def)
  then show ?thesis
    unfolding hands_both hs unfolding s1_def s0_def Let_def .
qed

lemma update_fields:
  "decay (update p) = decay p" "friction (update p) = friction p"
  "gravity (update p) = gravity p" "size (update p) = size p"
  "hue (update p) = hue p" "lightness (update p) = lightness p"
  "alpha (update p) = alpha p - decay p"
  by (simp_all add: update_def Let_def)

lemma update_particles_length: "length (update_particles ps) \<le> length ps"
  by (simp add: update_particles_eq)

lemma pool_inv_update_particles:
  assumes "pool_inv ps"
  shows "pool_inv (update_particles ps)"
  using assms unfolding pool_inv_def update_particles_eq
  by (auto simp add: update_fields isDead_def not_le)

lemma pool_inv_append:
  "pool_inv ps \<Longrightarrow> \<forall>p\<in>set batch. fresh p \<Longrightarrow> pool_inv (ps @ batch)"
  unfolding pool_inv_def fresh_def by auto

lemma grown_pool_inv:
  assumes "grown g s" and "pool_inv (particles g)"
  shows "pool_inv (particles s)"
proof -
  obtain batch where "particles s = particles g @ batch" "\<forall>p\<in>set batch. fresh p"
    using assms(1) unfolding grown_def by (elim exE conjE)
  then show ?thesis using assms(2) pool_inv_append by simp
qed

lemma grown_length:
  "grown g s \<Longrightarrow> length (particles g) \<le> 2300 \<Longrightarrow> length (particles s) \<le> 2300"
  unfolding grown_def by auto

lemma draw_grown:
  assumes "canvasRef g = Some cv" and "ctx2d cv" and "rng_ok (random_src g)"
  shows "\<exists>s. grown g s \<and> draw now g = s\<lparr>particles := update_particles (particles s)\<rparr>"
proof (cases "handStateRef g Left = OPEN \<and> handStateRef g Right = OPEN")
  case True
  define s0 where "s0 = g\<lparr>grandFinale_active := True\<rparr>"
  define s1 where "s1 = (if now - grandFinale_lastSpawn g > 15
                then (finale_patterns (real (width cv)) (real (height cv)) now s0)
                       \<lparr>grandFinale_lastSpawn := now\<rparr>
                else s0)"
  define s2 where "s2 = s1\<lparr>prevHandStateRef := handStateRef g\<rparr>"
  have g0: "grown g s0"
    unfolding s0_def by (intro grown_updates grown_refl)
  have "grown g s1"
    unfolding s1_def using g0 assms(3) by (simp add: grown_updates grown_finale)
  then have "grown g s2"
    unfolding s2_def by (rule grown_updates)
  moreover have "draw now g = s2\<lparr>particles := update_particles (particles s2)\<rparr>"
    using draw_finale[OF assms(1,2), of now] True
    by (simp add: Let_def s0_def s1_def s2_def)
  ultimately show ?thesis by blast
next
  case False
  define s where "s = lane_spec now cv g Right
                (lane_spec now cv g Left (g\<lparr>grandFinale_active := False\<rparr>))"
  have "grown g (g\<lparr>grandFinale_active := False\<rparr>)"
    by (intro grown_updates grown_refl)
  then have "grown g s"
    unfolding s_def using assms(3) by (intro grown_lane_spec)
  moreover have "draw now g = s\<lparr>particles := update_particles (particles s)\<rparr>"
    using draw_normal[OF assms(1,2) False, of now] by (simp add: Let_def s_def)
  ultimately show ?thesis by blast
qed

lemma draw_invariants:
  assumes "rng_ok (random_src g)"
  shows "random_src (draw now g) = random_src g"
    and "canvasRef (draw now g) = canvasRef g"
    and "handStateRef (draw now g) = handStateRef g"
    and "length (particles g) \<le> 2300 \<Longrightarrow> length (particles (draw now g)) \<le> 2300"
    and "pool_inv (particles g) \<Longrightarrow> pool_inv (particles (draw now g))"
proof -
  consider (idle) "draw now g = g"
    | (frame) s where "grown g s" "draw now g = s\<lparr>particles := update_particles (particles s)\<rparr>"
  proof (cases "canvasRef g")
    case None
    then show ?thesis using idle draw_no_canvas(1) by blast
  next
    case (Some cv)
    show ?thesis
    proof (cases "ctx2d cv")
      case True
      then show ?thesis using draw_grown[OF Some True assms, of now] frame by blast
    next
      case False
      then show ?thesis using idle draw_no_canvas(2)[OF Some] by blast
    qed
  qed
  note c = this
  show "random_src (draw now g) = random_src g"
    using c by cases (simp_all add: grown_def)
  show "canvasRef (draw now g) = canvasRef g"
    using c by cases (simp_all add: grown_def)
  show "handStateRef (draw now g) = handStateRef g"
    using c by cases (simp_all add: grown_def)
  show "length (particles (draw now g)) \<le> 2300" if "length (particles g) \<le> 2300"
    using c
  proof cases
    case idle
    then show ?thesis using that by simp
  next
    case (frame s)
    have "length (particles s) \<le> 2300" using grown_length[OF frame(1) that] .
    then show ?thesis
      using update_particles_length[of "particles s"] frame(2) by simp
  qed
  show "pool_inv (particles (draw now g))" if "pool_inv (particles g)"
    using c
  proof cases
    case idle
    then show ?thesis using that by simp
  next
    case (frame s)
    have "pool_inv (particles s)" using grown_pool_inv[OF frame(1) that] .
    then show ?thesis
      using pool_inv_update_particles frame(2) by simp
  qed
qed

lemma draw_pool:
  assumes "canvasRef g = Some cv" and "ctx2d cv" and "rng_ok (random_src g)"
  shows "\<exists>batch. particles (draw now g) =
            filter (\<lambda>p. 0 < alpha p) (map update (particles g @ batch))
          \<and> (\<forall>p\<in>set batch. alpha p = 1)"
proof -
  obtain s where s: "grown g s" "draw now g = s\<lparr>particles := update_particles (particles s)\<rparr>"
    using draw_grown[OF assms, of now] by blast
  obtain batch where b: "particles s = particles g @ batch" "\<forall>p\<in>set batch. fresh p"
    using s(1) unfolding grown_def by (elim exE conjE)
  have "particles (draw now g) = filter (\<lambda>p. 0 < alpha p) (map update (particles g @ batch))"
    using s(2) b(1) by (simp add: update_particles_eq isDead_def not_le)
  moreover have "\<forall>p\<in>set batch. alpha p = 1"
    using b(2) by (simp add: fresh_def)
  ultimately show ?thesis by blast
qed

lemma draw_normal_fields:
  assumes "canvasRef g = Some cv" and "ctx2d cv"
    and "\<not> (handStateRef g Left = OPEN \<and> handStateRef g Right = OPEN)"
  shows "lastTriggerTime (draw now g) lane =
           (if fires_spec now g lane then now else lastTriggerTime g lane)"
    and "prevHandStateRef (draw now g) = handStateRef g"
    and "grandFinale_active (draw now g) = False"
proof -
  note d = draw_normal[OF assms, of now]
  show "lastTriggerTime (draw now g) lane =
           (if fires_spec now g lane then now else lastTriggerTime g lane)"
    unfolding d Let_def by (cases lane) (simp_all add: lane_spec_fields)
  have "prevHandStateRef (draw now g) =
        (prevHandStateRef g)(Left := handStateRef g Left, Right := handStateRef g Right)"
    unfolding d Let_def by (simp add: lane_spec_fields)
  then show "prevHandStateRef (draw now g) = handStateRef g"
    by (simp only: hands_both)
  show "grandFinale_active (draw now g) = False"
    unfolding d Let_def by (simp add: lane_spec_fields)
qed

lemma draw_normal_idle:
  assumes "canvasRef g = Some cv" and "ctx2d cv"
    and "\<not> (handStateRef g Left = OPEN \<and> handStateRef g Right = OPEN)"
    and "\<not> fires_spec now g Left" and "\<not> fires_spec now g Right"
  shows "particles (draw now g) = update_particles (particles g)"
    and "random_used (draw now g) = random_used g"
  unfolding draw_normal[OF assms(1,2,3), of now] Let_def
  by (simp_all add: lane_spec_idle assms(4,5))

lemma draw_finale_fields:
  assumes "canvasRef g = Some cv" and "ctx2d cv"
    and "handStateRef g Left = OPEN" and "handStateRef g Right = OPEN"
  shows "lastTriggerTime (draw now g) = lastTriggerTime g"
    and "prevHandStateRef (draw now g) = handStateRef g"
    and "grandFinale_active (draw now g) = True"
    and "canvasRef (draw now g) = canvasRef g"
proof -
  note d = draw_finale[OF assms, of now]
  note f = finale_patterns_frame[of "real (width cv)" "real (height cv)" now
      "g\<lparr>grandFinale_active := True\<rparr>"]
  show "lastTriggerTime (draw now g) = lastTriggerTime g"
    unfolding d Let_def using f by simp
  show "prevHandStateRef (draw now g) = handStateRef g"
    unfolding d Let_def by simp
  show "grandFinale_active (draw now g) = True"
    unfolding d Let_def using f by simp
  show "canvasRef (draw now g) = canvasRef g"
    unfolding d Let_def using f by simp
qed

section \<open>The callback of the hand tracker\<close>

lemma hands_only_refl: "hands_only g g"
  by (simp add: hands_only_def)

lemma hands_only_trans: "hands_only g g' \<Longrightarrow> hands_only g' g'' \<Longrightarrow> hands_only g g''"
  unfolding hands_only_def
  by (metis (no_types, lifting) game.surjective game.update_convs(2) game.update_convs(4))

lemma hands_only_fields:
  assumes "hands_only g g'"
  shows "particles g' = particles g" "prevHandStateRef g' = prevHandStateRef g"
    "lastTriggerTime g' = lastTriggerTime g" "grandFinale_active g' = grandFinale_active g"
    "grandFinale_lastSpawn g' = grandFinale_lastSpawn g" "canvasRef g' = canvasRef g"
    "random_src g' = random_src g" "random_used g' = random_used g"
proof -
  have e: "g' = g\<lparr>handStateRef := handStateRef g', handPosRef := handPosRef g'\<rparr>"
    using assms by (simp add: hands_only_def)
  show "particles g' = particles g" by (subst e) simp
  show "prevHandStateRef g' = prevHandStateRef g" by (subst e) simp
  show "lastTriggerTime g' = lastTriggerTime g" by (subst e) simp
  show "grandFinale_active g' = grandFinale_active g" by (subst e) simp
  show "grandFinale_lastSpawn g' = grandFinale_lastSpawn g" by (subst e) simp
  show "canvasRef g' = canvasRef g" by (subst e) simp
  show "random_src g' = random_src g" by (subst e) simp
  show "random_used g' = random_used g" by (subst e) simp
qed

lemma hand_body_frame:
  "hand_body lms hds i (F, g) = Inl (e, g') \<Longrightarrow> g' = g"
  "hand_body lms hds i (F, g) = Inr (F', g') \<Longrightarrow> hands_only g g'"
  by (auto simp add: hand_body_def Let_def hands_only_def split: option.splits sum.splits)

lemma hands_loop_frame:
  "(hands_loop lms hds i (F, g) = Inl (e, g') \<longrightarrow> hands_only g g')
   \<and> (hands_loop lms hds i (F, g) = Inr (F', g') \<longrightarrow> hands_only g g')"
proof (induction "length lms - i" arbitrary: i F g)
  case 0
  then have "\<not> i < length lms" by simp
  then show ?case
    by (subst (1 2) hands_loop.simps) (simp add: hands_only_refl)
next
  case (Suc n)
  then have lt: "i < length lms" by simp
  show ?case
  proof (cases "hand_body lms hds i (F, g)")
    case (Inl a)
    then obtain e1 g1 where a: "a = (e1, g1)" by (cases a)
    have "g1 = g" using Inl a hand_body_frame(1) by simp
    then show ?thesis
      using lt Inl a by (subst (1 2) hands_loop.simps) (simp add: hands_only_refl)
  next
    case (Inr b)
    then obtain F1 g1 where b: "b = (F1, g1)" by (cases b)
    have h: "hands_only g g1" using Inr b hand_body_frame(2) by simp
    have n: "n = length lms - Suc i" using Suc(2) by simp
    have "hands_loop lms hds i (F, g) = hands_loop lms hds (Suc i) (F1, g1)"
      using lt Inr b by (subst hands_loop.simps) simp
    then show ?thesis
      using Suc(1)[OF n, of F1 g1] h hands_only_trans by auto
  qed
qed

lemma clear_missing_frame: "hands_only g (clear_missing F g)"
  by (simp add: clear_missing_def hands_only_def)

lemma clear_missing_state:
  "handStateRef (clear_missing F g) lane = (if lane \<in> F then handStateRef g lane else UNKNOWN)"
  by (cases lane) (simp_all add: clear_missing_def)

lemma onResults_frame:
  "onResults res g = Inl (e, g') \<Longrightarrow> hands_only g g'"
  "onResults res g = Inr g' \<Longrightarrow> hands_only g g'"
proof -
  show "onResults res g = Inl (e, g') \<Longrightarrow> hands_only g g'"
    using hands_loop_frame[of _ _ 0 "{}" g e g']
    by (auto simp add: onResults_def split: option.splits sum.splits)
  show "onResults res g = Inr g' \<Longrightarrow> hands_only g g'"
    using hands_loop_frame[of _ _ 0 "{}" g] clear_missing_frame hands_only_trans
    by (auto simp add: onResults_def hands_only_refl split: option.splits sum.splits) blast
qed

lemma step_Results_frame: "hands_only g (step (Results res) g)"
  using onResults_frame[of res g]
  by (cases "onResults res g") (auto split: prod.splits)

lemma run_Results_frame: "hands_only g (run (map Results rs) g)"
proof (induction rs arbitrary: g)
  case Nil
  show ?case by (simp add: run_def hands_only_refl)
next
  case (Cons r rs)
  have "hands_only g (step (Results r) g)" by (rule step_Results_frame)
  moreover have "hands_only (step (Results r) g) (run (map Results rs) (step (Results r) g))"
    by (rule Cons.IH)
  ultimately have "hands_only g (run (map Results rs) (step (Results r) g))"
    by (rule hands_only_trans)
  then show ?case by (simp add: run_def)
qed

lemma tips_forEach_ok:
  assumes "21 \<le> length lm"
  shows "tips_forEach lm (at_index lm 0) [8, 12, 16, 20] 0 = Inr (4 * average_distance_spec lm)"
proof -
  have "lm \<noteq> []" using assms by auto
  then show ?thesis
    using assms by (simp add: at_index_def average_distance_spec_def distance_spec_def Let_def)
qed

lemma hand_body_ok:
  assumes "i < length hds" and "21 \<le> length (lms ! i)"
  shows "hand_body lms hds i (F, g) =
     Inr (insert (hds ! i) F,
          g\<lparr>handPosRef := (handPosRef g)
               (hds ! i := \<lparr>Point.x = Point.x (lms ! i ! 0), Point.y = Point.y (lms ! i ! 0)\<rparr>),
            handStateRef := (handStateRef g)(hds ! i := classify_spec (lms ! i))\<rparr>)"
proof -
  have "lms ! i \<noteq> []" using assms(2) by auto
  then have w: "at_index (lms ! i) 0 = Some (lms ! i ! 0)"
    by (simp add: at_index_def)
  have l: "at_index hds i = Some (hds ! i)"
    using assms(1) by (simp add: at_index_def)
  have t: "tips_forEach (lms ! i) (Some (lms ! i ! 0)) [8, 12, 16, 20] 0 =
        Inr (4 * average_distance_spec (lms ! i))"
    using tips_forEach_ok[OF assms(2)] w by simp
  show ?thesis
    unfolding hand_body_def Let_def w l
    by (simp add: t classify_spec_def del: tips_forEach.simps)
qed

lemma hands_loop_ok:
  assumes "length lms \<le> length hds" and "\<forall>lm\<in>set lms. 21 \<le> length lm"
  shows "\<exists>F' g'. hands_loop lms hds i (F, g) = Inr (F', g')
        \<and> F' = F \<union> {hds ! j | j. i \<le> j \<and> j < length lms}
        \<and> (\<forall>lane. (\<forall>j. i \<le> j \<and> j < length lms \<longrightarrow> hds ! j \<noteq> lane) \<longrightarrow>
               handStateRef g' lane = handStateRef g lane)
        \<and> (\<forall>lane k. i \<le> k \<and> k < length lms \<and> hds ! k = lane
               \<and> (\<forall>j. k < j \<and> j < length lms \<longrightarrow> hds ! j \<noteq> lane) \<longrightarrow>
               handStateRef g' lane = classify_spec (lms ! k))"
proof (induction "length lms - i" arbitrary: i F g)
  case 0
  then have "\<not> i < length lms" by simp
  then show ?case
    by (subst hands_loop.simps) auto
next
  case (Suc n)
  then have lt: "i < length lms" by simp
  define g1 where "g1 = g\<lparr>handPosRef := (handPosRef g)
               (hds ! i := \<lparr>Point.x = Point.x (lms ! i ! 0), Point.y = Point.y (lms ! i ! 0)\<rparr>),
            handStateRef := (handStateRef g)(hds ! i := classify_spec (lms ! i))\<rparr>"
  have hb: "hand_body lms hds i (F, g) = Inr (insert (hds ! i) F, g1)"
    unfolding g1_def using lt assms by (intro hand_body_ok) auto
  have n: "n = length lms - Suc i" using Suc(2) by simp
  obtain F' g' where r:
    "hands_loop lms hds (Suc i) (insert (hds ! i) F, g1) = Inr (F', g')"
    "F' = insert (hds ! i) F \<union> {hds ! j | j. Suc i \<le> j \<and> j < length lms}"
    "\<forall>lane. (\<forall>j. Suc i \<le> j \<and> j < length lms \<longrightarrow> hds ! j \<noteq> lane) \<longrightarrow>
               handStateRef g' lane = handStateRef g1 lane"
    "\<forall>lane k. Suc i \<le> k \<and> k < length lms \<and> hds ! k = lane
               \<and> (\<forall>j. k < j \<and> j < length lms \<longrightarrow> hds ! j \<noteq> lane) \<longrightarrow>
               handStateRef g' lane = classify_spec (lms ! k)"
    using Suc(1)[OF n, of "insert (hds ! i) F" g1] by blast
  have 1: "hands_loop lms hds i (F, g) = Inr (F', g')"
    using lt hb r(1) by (subst hands_loop.simps) simp
  have 2: "F' = F \<union> {hds ! j | j. i \<le> j \<and> j < length lms}"
  proof -
    have "{hds ! j | j. i \<le> j \<and> j < length lms} =
          insert (hds ! i) {hds ! j | j. Suc i \<le> j \<and> j < length lms}"
      using lt by (auto simp add: Suc_le_eq le_eq_less_or_eq)
    then show ?thesis using r(2) by simp
  qed
  have 3: "\<forall>lane. (\<forall>j. i \<le> j \<and> j < length lms \<longrightarrow> hds ! j \<noteq> lane) \<longrightarrow>
               handStateRef g' lane = handStateRef g lane"
  proof (intro allI impI)
    fix lane assume a: "\<forall>j. i \<le> j \<and> j < length lms \<longrightarrow> hds ! j \<noteq> lane"
    then have "hds ! i \<noteq> lane" using lt by simp
    then have "handStateRef g1 lane = handStateRef g lane" by (simp add: g1_def)
    moreover have "handStateRef g' lane = handStateRef g1 lane"
      using r(3) a by simp
    ultimately show "handStateRef g' lane = handStateRef g lane" by simp
  qed
  have 4: "\<forall>lane k. i \<le> k \<and> k < length lms \<and> hds ! k = lane
               \<and> (\<forall>j. k < j \<and> j < length lms \<longrightarrow> hds ! j \<noteq> lane) \<longrightarrow>
               handStateRef g' lane = classify_spec (lms ! k)"
  proof (intro allI impI)
    fix lane k
    assume a: "i \<le> k \<and> k < length lms \<and> hds ! k = lane
               \<and> (\<forall>j. k < j \<and> j < length lms \<longrightarrow> hds ! j \<noteq> lane)"
    show "handStateRef g' lane = classify_spec (lms ! k)"
    proof (cases "k = i")
      case True
      have "handStateRef g' lane = handStateRef g1 lane"
        using r(3) a True by simp
      then show ?thesis using a True by (simp add: g1_def)
    next
      case False
      then have "Suc i \<le> k" using a by simp
      then show ?thesis using r(4) a by blast
    qed
  qed
  show ?case using 1 2 3 4 by blast
qed

lemma onResults_ok:
  assumes "multiHandLandmarks res = Some lms" and "multiHandedness res = Some hds"
    and "length lms \<le> length hds" and "\<forall>lm\<in>set lms. 21 \<le> length lm"
  shows "\<exists>g'. onResults res g = Inr g'
        \<and> (\<forall>lane. (\<forall>j. j < length lms \<longrightarrow> hds ! j \<noteq> lane) \<longrightarrow>
               handStateRef g' lane = UNKNOWN)
        \<and> (\<forall>lane k. k < length lms \<and> hds ! k = lane
               \<and> (\<forall>j. k < j \<and> j < length lms \<longrightarrow> hds ! j \<noteq> lane) \<longrightarrow>
               handStateRef g' lane = classify_spec (lms ! k))"
proof -
  obtain F' g' where r:
    "hands_loop lms hds 0 ({}, g) = Inr (F', g')"
    "F' = {} \<union> {hds ! j | j. 0 \<le> j \<and> j < length lms}"
    "\<forall>lane k. 0 \<le> k \<and> k < length lms \<and> hds ! k = lane
               \<and> (\<forall>j. k < j \<and> j < length lms \<longrightarrow> hds ! j \<noteq> lane) \<longrightarrow>
               handStateRef g' lane = classify_spec (lms ! k)"
    using hands_loop_ok[OF assms(3,4), of 0 "{}" g] by blast
  have e: "onResults res g = Inr (clear_missing F' g')"
    using assms(1,2) r(1) by (simp add: onResults_def)
  have u: "handStateRef (clear_missing F' g') lane = UNKNOWN"
    if "\<forall>j. j < length lms \<longrightarrow> hds ! j \<noteq> lane" for lane
  proof -
    have "lane \<notin> F'" using that r(2) by auto
    then show ?thesis by (simp add: clear_missing_state)
  qed
  have c: "handStateRef (clear_missing F' g') lane = classify_spec (lms ! k)"
    if "k < length lms \<and> hds ! k = lane \<and> (\<forall>j. k < j \<and> j < length lms \<longrightarrow> hds ! j \<noteq> lane)"
    for lane k
  proof -
    have "lane \<in> F'" using that r(2) by auto
    then have "handStateRef (clear_missing F' g') lane = handStateRef g' lane"
      by (simp add: clear_missing_state)
    then show ?thesis using r(3) that by simp
  qed
  show ?thesis using e u c by blast
qed

lemma one_hand_step:
  "handStateRef (step (Results (one_hand lane d)) g) lane = classify_spec (hand_at d)"
  "lane' \<noteq> lane \<Longrightarrow> handStateRef (step (Results (one_hand lane d)) g) lane' = UNKNOWN"
proof -
  have wf: "length [hand_at d] \<le> length [lane]" "\<forall>lm\<in>set [hand_at d]. 21 \<le> length lm"
    by (simp_all add: hand_at_def)
  obtain g' where r: "onResults (one_hand lane d) g = Inr g'"
    "\<forall>l. (\<forall>j. j < length [hand_at d] \<longrightarrow> [lane] ! j \<noteq> l) \<longrightarrow> handStateRef g' l = UNKNOWN"
    "\<forall>l k. k < length [hand_at d] \<and> [lane] ! k = l
        \<and> (\<forall>j. k < j \<and> j < length [hand_at d] \<longrightarrow> [lane] ! j \<noteq> l) \<longrightarrow>
        handStateRef g' l = classify_spec ([hand_at d] ! k)"
    using onResults_ok[OF _ _ wf, of "one_hand lane d" g] by (auto simp add: one_hand_def)
  have s: "step (Results (one_hand lane d)) g = g'"
    using r(1) by simp
  show "handStateRef (step (Results (one_hand lane d)) g) lane = classify_spec (hand_at d)"
    unfolding s using r(3) by auto
  show "handStateRef (step (Results (one_hand lane d)) g) lane' = UNKNOWN" if "lane' \<noteq> lane"
    unfolding s using r(2) that by auto
qed

lemma classify_hand_at: "classify_spec (hand_at d) = (if \<bar>d\<bar> < 0.25 then FIST else OPEN)"
  by (simp add: classify_spec_def average_distance_spec_def distance_spec_def hand_at_def)

section \<open>Invariants of a run\<close>

lemma step_invariants:
  assumes "rng_ok (random_src g)"
  shows "random_src (step ev g) = random_src g"
    and "length (particles g) \<le> 2300 \<Longrightarrow> length (particles (step ev g)) \<le> 2300"
    and "pool_inv (particles g) \<Longrightarrow> pool_inv (particles (step ev g))"
proof -
  show "random_src (step ev g) = random_src g"
  proof (cases ev)
    case (Frame now)
    then show ?thesis using draw_invariants(1)[OF assms] by simp
  next
    case (Results res)
    then show ?thesis using hands_only_fields(7)[OF step_Results_frame] by simp
  next
    case (Resize w h)
    then show ?thesis by (simp split: option.splits)
  qed
  show "length (particles (step ev g)) \<le> 2300" if "length (particles g) \<le> 2300"
  proof (cases ev)
    case (Frame now)
    then show ?thesis using draw_invariants(4)[OF assms that] by simp
  next
    case (Results res)
    then show ?thesis using hands_only_fields(1)[OF step_Results_frame] that by simp
  next
    case (Resize w h)
    then show ?thesis using that by (simp split: option.splits)
  qed
  show "pool_inv (particles (step ev g))" if "pool_inv (particles g)"
  proof (cases ev)
    case (Frame now)
    then show ?thesis using draw_invariants(5)[OF assms that] by simp
  next
    case (Results res)
    then show ?thesis using hands_only_fields(1)[OF step_Results_frame] that by simp
  next
    case (Resize w h)
    then show ?thesis using that by (simp split: option.splits)
  qed
qed

lemma run_invariants:
  assumes "rng_ok (random_src g)" and "length (particles g) \<le> 2300"
    and "pool_inv (particles g)"
  shows "random_src (run evs g) = random_src g \<and> length (particles (run evs g)) \<le> 2300
       \<and> pool_inv (particles (run evs g))"
  using assms
proof (induction evs arbitrary: g)
  case Nil
  then show ?case by (simp add: run_def)
next
  case (Cons ev evs)
  have 1: "random_src (step ev g) = random_src g"
    using step_invariants(1)[OF Cons.prems(1)] .
  have 2: "length (particles (step ev g)) \<le> 2300"
    using step_invariants(2)[OF Cons.prems(1,2)] .
  have 3: "pool_inv (particles (step ev g))"
    using step_invariants(3)[OF Cons.prems(1,3)] .
  have "rng_ok (random_src (step ev g))" using 1 Cons.prems(1) by simp
  then show ?case
    using Cons.IH[of "step ev g"] 1 2 3 by (simp add: run_def)
qed

lemma initial_simps:
  "particles (initial R cv) = []" "canvasRef (initial R cv) = cv"
  "random_src (initial R cv) = R" "random_used (initial R cv) = 0"
  by (simp_all add: initial_def)

lemma run_initial:
  assumes "rng_ok R"
  shows "random_src (run evs (initial R cv)) = R"
    and "length (particles (run evs (initial R cv))) \<le> 2300"
    and "pool_inv (particles (run evs (initial R cv)))"
  using run_invariants[of "initial R cv" evs] assms
  by (simp_all add: initial_simps pool_inv_def)

lemma triggerFirework_batch_size:
  assumes "rng_ok (random_src g)" and "canvasRef g = Some cv"
    and "length (particles g) \<le> 2000"
  shows "\<exists>batch. particles (triggerFirework x0 y0 g) = particles g @ batch
           \<and> 70 \<le> length batch \<and> length batch \<le> 300"
proof -
  obtain pal st pc pw bs k0 where
    r: "roll_explosion (random_src g) (random_used g) = ((pal, st, pc, pw, bs), k0)"
    by (metis surj_pair)
  have cv: "canvasRef g \<noteq> None" using assms(2) by simp
  obtain batch k' where b:
    "triggerFirework x0 y0 g = g\<lparr>particles := particles g @ batch, random_used := k'\<rparr>"
    "length batch = nat \<lceil>pc\<rceil>"
    using triggerFirework_accept[OF cv assms(3) r, of x0 y0] by blast
  have "pc = fst (size_class (random_src g) (random_src g (random_used g + 2)) (random_used g + 3))"
    using r by (simp add: roll_explosion_eq)
  then have "70 \<le> pc" "pc < 300"
    using size_class_count_bounds[OF assms(1)] by simp_all
  then have "70 \<le> \<lceil>pc\<rceil>" "\<lceil>pc\<rceil> \<le> 300"
    by (simp_all add: le_ceiling_iff ceiling_le_iff)
  then have "70 \<le> length batch" "length batch \<le> 300"
    using b(2) by linarith+
  moreover have "particles (triggerFirework x0 y0 g) = particles g @ batch"
    using b(1) by simp
  ultimately show ?thesis by blast
qed

lemma triggerFirework_batch_at:
  assumes "rng_ok (random_src g)" and "canvasRef g = Some cv"
    and "length (particles g) \<le> 2000"
  shows "\<exists>batch. particles (triggerFirework x0 y0 g) = particles g @ batch
           \<and> 70 \<le> length batch
           \<and> (\<forall>p\<in>set batch. Particle.x p = x0 \<and> Particle.y p = y0)"
proof -
  obtain pal st pc pw bs k0 where
    r: "roll_explosion (random_src g) (random_used g) = ((pal, st, pc, pw, bs), k0)"
    by (metis surj_pair)
  have cv: "canvasRef g \<noteq> None" using assms(2) by simp
  obtain batch k' where b:
    "triggerFirework x0 y0 g = g\<lparr>particles := particles g @ batch, random_used := k'\<rparr>"
    "length batch = nat \<lceil>pc\<rceil>"
    "\<forall>p\<in>set batch. \<exists>j. p = fst (spawn_particle (random_src g) x0 y0 pal st pw bs j)"
    using triggerFirework_accept[OF cv assms(3) r, of x0 y0] by blast
  have "pc = fst (size_class (random_src g) (random_src g (random_used g + 2)) (random_used g + 3))"
    using r by (simp add: roll_explosion_eq)
  then have "70 \<le> pc"
    using size_class_count_bounds(1)[OF assms(1)] by simp
  then have "70 \<le> \<lceil>pc\<rceil>"
    by (simp add: le_ceiling_iff)
  then have "70 \<le> length batch"
    using b(2) by linarith
  moreover have "particles (triggerFirework x0 y0 g) = particles g @ batch"
    using b(1) by simp
  moreover have "\<forall>p\<in>set batch. Particle.x p = x0 \<and> Particle.y p = y0"
    using b(3) spawn_particle_fixed(3,4) by fastforce
  ultimately show ?thesis by blast
qed

lemma lane_spec_fires:
  assumes "fires_spec now g lane" and "rng_ok (random_src s)" and "canvasRef s = Some cv'"
    and "length (particles s) \<le> 2000"
  shows "\<exists>batch. particles (lane_spec now cv g lane s) = particles s @ batch
           \<and> 70 \<le> length batch
           \<and> (\<forall>p\<in>set batch. Particle.x p = screenX_spec cv (handPosRef g lane)
                              \<and> Particle.y p = screenY_spec cv (handPosRef g lane))"
  using triggerFirework_batch_at[OF assms(2,3,4)] assms(1)
  by (simp add: lane_spec_def Let_def)

lemma update_particles_alpha:
  assumes "\<forall>p\<in>set ps. alpha p \<le> a \<and> 0.008 \<le> decay p"
  shows "\<forall>p\<in>set (update_particles ps). alpha p \<le> a - 0.008 \<and> 0.008 \<le> decay p \<and> 0 < alpha p"
  using assms unfolding update_particles_eq
  by (fastforce simp add: update_fields isDead_def not_le)

lemma drain_steps:
  assumes "\<forall>p\<in>set ps. alpha p \<le> a \<and> 0.008 \<le> decay p"
  shows "\<forall>p\<in>set ((update_particles ^^ n) ps). alpha p \<le> a - 0.008 * real n \<and> 0.008 \<le> decay p"
proof (induction n)
  case 0
  then show ?case using assms by simp
next
  case (Suc n)
  show ?case
  proof
    fix p assume "p \<in> set ((update_particles ^^ Suc n) ps)"
    then have "p \<in> set (update_particles ((update_particles ^^ n) ps))" by simp
    then have "alpha p \<le> (a - 0.008 * real n) - 0.008 \<and> 0.008 \<le> decay p"
      using update_particles_alpha[OF Suc.IH] by blast
    moreover have "(a - 0.008 * real n) - 0.008 = a - 0.008 * real (Suc n)"
      by (simp add: field_simps)
    ultimately show "alpha p \<le> a - 0.008 * real (Suc n) \<and> 0.008 \<le> decay p"
      by simp
  qed
qed

lemma drain:
  assumes "pool_inv ps"
  shows "(update_particles ^^ 125) ps = []"
proof -
  have b: "\<forall>p\<in>set ps. alpha p \<le> 1 \<and> 0.008 \<le> decay p"
    using assms unfolding pool_inv_def by blast
  have "\<forall>p\<in>set ((update_particles ^^ 124) ps). alpha p \<le> 1 - 0.008 * real (124::nat) \<and> 0.008 \<le> decay p"
    using drain_steps[OF b] .
  then have "\<forall>p\<in>set (update_particles ((update_particles ^^ 124) ps)).
       alpha p \<le> (1 - 0.008 * real (124::nat)) - 0.008 \<and> 0.008 \<le> decay p \<and> 0 < alpha p"
    by (rule update_particles_alpha)
  then have "\<forall>p\<in>set (update_particles ((update_particles ^^ 124) ps)). False"
    by fastforce
  then have "update_particles ((update_particles ^^ 124) ps) = []"
    by (cases "update_particles ((update_particles ^^ 124) ps)") auto
  moreover have "(update_particles ^^ 125) ps = update_particles ((update_particles ^^ 124) ps)"
  proof -
    have "(125::nat) = Suc 124" by simp
    then show ?thesis by (simp only: funpow.simps o_apply)
  qed
  ultimately show ?thesis by simp
qed

lemma crowded_simps:
  "particles (crowded n) = replicate n spark" "canvasRef (crowded n) = Some demo_canvas"
  "random_src (crowded n) = steady (1/2)" "random_used (crowded n) = 0"
  by (simp_all add: crowded_def demo_game_def initial_def)

lemma pool_inv_crowded: "pool_inv (particles (crowded n))"
  by (simp add: crowded_simps pool_inv_def spark_def)

lemma left_open_simps:
  "canvasRef left_open = Some demo_canvas" "handStateRef left_open Left = OPEN"
  "handStateRef left_open Right = UNKNOWN" "prevHandStateRef left_open Left = UNKNOWN"
  "prevHandStateRef left_open Right = UNKNOWN"
  "lastTriggerTime left_open Left = 0" "lastTriggerTime left_open Right = 0"
  "handPosRef left_open Left = \<lparr>Point.x = 1/4, Point.y = 1/2\<rparr>"
  by (simp_all add: left_open_def demo_game_def initial_def)

lemma both_open_simps:
  "canvasRef both_open = Some demo_canvas" "handStateRef both_open lane = OPEN"
  "lastTriggerTime both_open lane = 0" "prevHandStateRef both_open lane = UNKNOWN"
  by (simp_all add: both_open_def demo_game_def initial_def)

lemma fresh_survive:
  assumes "\<forall>p\<in>set batch. fresh p"
  shows "update_particles batch = map update batch"
    and "update_particles (map update batch) = map update (map update batch)"
proof -
  have a: "\<not> isDead (update p)" "\<not> isDead (update (update p))" if "p \<in> set batch" for p
    using assms that by (auto simp add: fresh_def isDead_def update_fields)
  show "update_particles batch = map update batch"
    unfolding update_particles_eq using a(1) by (simp add: filter_id_conv)
  show "update_particles (map update batch) = map update (map update batch)"
    unfolding update_particles_eq using a(2) by (simp add: filter_id_conv)
qed

lemma first_trigger_frame:
  assumes cv: "canvasRef g = Some cv" "ctx2d cv"
    and st: "handStateRef g Left = OPEN" "handStateRef g Right = UNKNOWN"
      "prevHandStateRef g Left = UNKNOWN" "250 < now - lastTriggerTime g Left"
    and pool: "particles g = []" and ok: "rng_ok (random_src g)"
    and roll: "roll_explosion (random_src g) (random_used g) = ((pal, sty, pc, pw, bs), k)"
  shows "\<exists>batch. particles (draw now g) = map update batch \<and> length batch = nat \<lceil>pc\<rceil>
           \<and> (\<forall>p\<in>set batch. fresh p)"
proof -
  define s0 where "s0 = g\<lparr>grandFinale_active := False\<rparr>"
  have n: "\<not> (handStateRef g Left = OPEN \<and> handStateRef g Right = OPEN)"
    using st by simp
  have fl: "fires_spec now g Left" using st by (simp add: fires_spec_def)
  have fr: "\<not> fires_spec now g Right" using st by (simp add: fires_spec_def)
  have c0: "canvasRef s0 \<noteq> None" "length (particles s0) \<le> 2000"
    "roll_explosion (random_src s0) (random_used s0) = ((pal, sty, pc, pw, bs), k)"
    "rng_ok (random_src s0)" "particles s0 = []"
    using cv pool ok roll by (simp_all add: s0_def)
  obtain batch k' where b:
    "triggerFirework (screenX_spec cv (handPosRef g Left)) (screenY_spec cv (handPosRef g Left)) s0
       = s0\<lparr>particles := particles s0 @ batch, random_used := k'\<rparr>"
    "length batch = nat \<lceil>pc\<rceil>"
    using triggerFirework_accept[OF c0(1,2,3)] by blast
  obtain batch' where b': "particles (triggerFirework (screenX_spec cv (handPosRef g Left))
        (screenY_spec cv (handPosRef g Left)) s0) = particles s0 @ batch'"
    "\<forall>p\<in>set batch'. alpha p = 1 \<and> 0.008 \<le> decay p \<and> decay p < 0.025"
    using triggerFirework_appends[OF c0(4)] by blast
  have "batch' = batch" using b(1) b'(1) by simp
  then have fr': "\<forall>p\<in>set batch. fresh p" using b'(2) by (simp add: fresh_def)
  have "particles (lane_spec now cv g Right (lane_spec now cv g Left s0)) = batch"
    using fl fr b(1) c0(5) by (simp add: lane_spec_idle) (simp add: lane_spec_def Let_def)
  then have "particles (draw now g) = update_particles batch"
    unfolding draw_normal[OF cv n] Let_def s0_def by simp
  then have "particles (draw now g) = map update batch"
    using fresh_survive(1)[OF fr'] by simp
  then show ?thesis using b(2) fr' by blast
qed

lemma demo_run:
  "\<exists>batch. particles demo_state = map update (map update batch)
         \<and> length batch = 150 \<and> (\<forall>p\<in>set batch. fresh p)"
proof -
  define g0 where "g0 = initial (steady (1/2)) (Some demo_canvas)"
  define g1 where "g1 = step (Results (one_hand Left 1)) g0"
  define g2 where "g2 = draw 1000 g1"
  have h1: "hands_only g0 g1" unfolding g1_def by (rule step_Results_frame)
  note f1 = hands_only_fields[OF h1]
  have s1: "handStateRef g1 Left = OPEN" "handStateRef g1 Right = UNKNOWN"
  proof -
    have "handStateRef g1 Left = classify_spec (hand_at 1)"
      unfolding g1_def by (rule one_hand_step(1))
    then show "handStateRef g1 Left = OPEN"
      by (simp add: classify_hand_at)
    show "handStateRef g1 Right = UNKNOWN"
      unfolding g1_def by (rule one_hand_step(2)) simp
  qed
  have c1: "canvasRef g1 = Some demo_canvas" "ctx2d demo_canvas"
    "prevHandStateRef g1 Left = UNKNOWN" "250 < 1000 - lastTriggerTime g1 Left"
    "particles g1 = []" "rng_ok (random_src g1)"
    unfolding f1 by (simp_all add: g0_def initial_def demo_canvas_def rng_ok_steady)
  have r1: "roll_explosion (random_src g1) (random_used g1) =
        ((\<lparr>Palette.hue = 160, name = ''cyan''\<rparr>, burst, 150, 19/2, 21/4), 6)"
    unfolding f1
    by (simp add: g0_def initial_def roll_explosion_eq size_class_medium steady_def
        COLOR_PALETTES_def EXPLOSION_STYLES_def)
  obtain batch where b: "particles g2 = map update batch" "length batch = nat \<lceil>150 :: real\<rceil>"
    "\<forall>p\<in>set batch. fresh p"
    using first_trigger_frame[OF c1(1,2) s1 c1(3,4,5,6) r1] unfolding g2_def by blast
  have n1: "\<not> (handStateRef g1 Left = OPEN \<and> handStateRef g1 Right = OPEN)"
    using s1 by simp
  have s2: "canvasRef g2 = Some demo_canvas" "handStateRef g2 = handStateRef g1"
    "prevHandStateRef g2 = handStateRef g1"
    unfolding g2_def
    using draw_invariants(2,3)[OF c1(6), of 1000] draw_normal_fields(2)[OF c1(1,2) n1, of 1000] c1(1)
    by simp_all
  have e3: "step (Results no_lists) g2 = g2"
    by (simp add: onResults_def no_lists_def)
  have n2: "\<not> (handStateRef g2 Left = OPEN \<and> handStateRef g2 Right = OPEN)"
    using s1 s2 by simp
  have nf: "\<not> fires_spec 1016 g2 Left" "\<not> fires_spec 1016 g2 Right"
    using s1 s2 by (simp_all add: fires_spec_def)
  have "particles (draw 1016 g2) = update_particles (particles g2)"
    using draw_normal_idle(1)[OF s2(1) c1(2) n2 nf] .
  then have "particles (draw 1016 g2) = map update (map update batch)"
    using b(1) fresh_survive(2)[OF b(3)] by simp
  moreover have "demo_state = draw 1016 g2"
    using e3
    by (simp add: demo_state_def run_def demo_events_def g2_def g1_def g0_def
        del: step.simps(2))
  ultimately show ?thesis using b(2,3) by auto
qed

lemma demo_state_pool: "length (particles demo_state) = 150"
  using demo_run by auto

section \<open>Size classes and batches\<close>

lemma size_class_ranges:
  assumes "rng_ok R"
    and "roll_explosion R k = ((palette, style, particleCount, explosionPower, baseSize), k')"
  shows "(R (k + 2) < 0.3 \<longrightarrow>
            particleCount = 70 + 40 * R (k + 3) \<and> 70 \<le> particleCount \<and> particleCount < 110
          \<and> explosionPower = 5 + 3 * R (k + 4) \<and> 5 \<le> explosionPower \<and> explosionPower < 8
          \<and> baseSize = 3.5 + 1.5 * R (k + 5) \<and> 3.5 \<le> baseSize \<and> baseSize < 5)
       \<and> (0.3 \<le> R (k + 2) \<and> R (k + 2) < 0.7 \<longrightarrow>
            particleCount = 120 + 60 * R (k + 3) \<and> 120 \<le> particleCount \<and> particleCount < 180
          \<and> explosionPower = 8 + 3 * R (k + 4) \<and> 8 \<le> explosionPower \<and> explosionPower < 11
          \<and> baseSize = 4.5 + 1.5 * R (k + 5) \<and> 4.5 \<le> baseSize \<and> baseSize < 6)
       \<and> (0.7 \<le> R (k + 2) \<longrightarrow>
            particleCount = 200 + 100 * R (k + 3) \<and> 200 \<le> particleCount \<and> particleCount < 300
          \<and> explosionPower = 10 + 4 * R (k + 4) \<and> 10 \<le> explosionPower \<and> explosionPower < 14
          \<and> baseSize = 5.5 + 2 * R (k + 5) \<and> 5.5 \<le> baseSize \<and> baseSize < 7.5)"
proof -
  define r a b c where "r = R (k + 2)" and "a = R (k + 3)" and "b = R (k + 4)"
    and "c = R (k + 5)"
  have bd: "0 \<le> a" "a < 1" "0 \<le> b" "b < 1" "0 \<le> c" "c < 1"
    using rng_okD[OF assms(1)] by (simp_all add: a_def b_def c_def)
  have e: "R (Suc (k + 3)) = b" "R (Suc (Suc (k + 3))) = c"
    by (simp_all add: b_def c_def add.commute)
  have sc: "size_class R r (k + 3) = (particleCount, explosionPower, baseSize, k + 6)"
    using assms(2) size_class_snd[of R r "k + 3"]
    by (simp add: roll_explosion_eq r_def prod_eq_iff)
  have small: "particleCount = 70 + 40 * a \<and> explosionPower = 5 + 3 * b
      \<and> baseSize = 3.5 + 1.5 * c" if "r < 0.3"
    using sc unfolding size_class_small[OF that] e a_def[symmetric] by simp
  have medium: "particleCount = 120 + 60 * a \<and> explosionPower = 8 + 3 * b
      \<and> baseSize = 4.5 + 1.5 * c" if "0.3 \<le> r" "r < 0.7"
  proof -
    have "\<not> r < 0.3" using that(1) by simp
    then show ?thesis
      using sc unfolding size_class_medium[OF \<open>\<not> r < 0.3\<close> that(2)] e a_def[symmetric] by simp
  qed
  have large: "particleCount = 200 + 100 * a \<and> explosionPower = 10 + 4 * b
      \<and> baseSize = 5.5 + 2 * c" if "0.7 \<le> r"
  proof -
    have "\<not> r < 0.7" using that by simp
    then show ?thesis
      using sc unfolding size_class_large[OF \<open>\<not> r < 0.7\<close>] e a_def[symmetric] by simp
  qed
  have s: "r < 0.3 \<longrightarrow>
            particleCount = 70 + 40 * a \<and> 70 \<le> particleCount \<and> particleCount < 110
          \<and> explosionPower = 5 + 3 * b \<and> 5 \<le> explosionPower \<and> explosionPower < 8
          \<and> baseSize = 3.5 + 1.5 * c \<and> 3.5 \<le> baseSize \<and> baseSize < 5"
    using small bd by auto
  have m: "0.3 \<le> r \<and> r < 0.7 \<longrightarrow>
            particleCount = 120 + 60 * a \<and> 120 \<le> particleCount \<and> particleCount < 180
          \<and> explosionPower = 8 + 3 * b \<and> 8 \<le> explosionPower \<and> explosionPower < 11
          \<and> baseSize = 4.5 + 1.5 * c \<and> 4.5 \<le> baseSize \<and> baseSize < 6"
    using medium bd by auto
  have l: "0.7 \<le> r \<longrightarrow>
            particleCount = 200 + 100 * a \<and> 200 \<le> particleCount \<and> particleCount < 300
          \<and> explosionPower = 10 + 4 * b \<and> 10 \<le> explosionPower \<and> explosionPower < 14
          \<and> baseSize = 5.5 + 2 * c \<and> 5.5 \<le> baseSize \<and> baseSize < 7.5"
    using large bd by auto
  show ?thesis
    using conjI[OF s conjI[OF m l]] unfolding r_def a_def b_def c_def .
qed

lemma spawn_particle_size:
  assumes "rng_ok R"
  shows "bs \<le> size (fst (spawn_particle R x0 y0 pal st pw bs k))"
    and "size (fst (spawn_particle R x0 y0 pal st pw bs k)) < bs + 2"
proof -
  have "\<exists>j. size (fst (spawn_particle R x0 y0 pal st pw bs k)) = bs + R j * 2"
    by (cases st) (auto simp add: spawn_particle_def style_adjust_def new_Particle_def
        split_def Let_def)
  then obtain j where e: "size (fst (spawn_particle R x0 y0 pal st pw bs k)) = bs + R j * 2"
    by blast
  have "0 \<le> R j" "R j < 1" using rng_okD[OF assms, of j] by simp_all
  then show "bs \<le> size (fst (spawn_particle R x0 y0 pal st pw bs k))"
    and "size (fst (spawn_particle R x0 y0 pal st pw bs k)) < bs + 2"
    unfolding e by simp_all
qed

lemma roll_small_top:
  "roll_explosion (draws [0, 0, 0, 99/100] (1/2)) 0 =
     ((\<lparr>Palette.hue = 0, name = ''red''\<rparr>, circle, 548/5, 13/2, 17/4), 6)"
  by (simp add: roll_explosion_eq size_class_small draws_def COLOR_PALETTES_def
      EXPLOSION_STYLES_def)

lemma roll_large_top:
  "roll_explosion (draws [0, 0, 9/10, 999/1000] (1/2)) 0 =
     ((\<lparr>Palette.hue = 0, name = ''red''\<rparr>, circle, 2999/10, 12, 13/2), 6)"
  by (simp add: roll_explosion_eq size_class_large draws_def COLOR_PALETTES_def
      EXPLOSION_STYLES_def)

lemma spawn_particle_velocity:
  assumes "rng_ok R"
  shows "\<exists>a c. vx (fst (spawn_particle R x0 y0 pal st pw bs k)) = cos a * (pw * c)
           \<and> vy (fst (spawn_particle R x0 y0 pal st pw bs k)) = sin a * (pw * c)
           \<and> 0 \<le> c \<and> c < 1.8"
proof -
  define a where "a = R k * pi * 2"
  have b: "0 \<le> R j" "R j < 1" for j using rng_okD[OF assms, of j] by simp_all
  have e: "Suc (Suc (Suc (Suc (Suc k)))) = k + 5" "Suc (Suc (Suc (Suc (Suc (Suc k))))) = k + 6"
    "Suc (Suc (Suc (Suc (Suc (Suc (Suc k)))))) = k + 7"
    by simp_all
  have e2: "7 + k = k + 7" "6 + k = k + 6" by simp_all
  have sh: "\<exists>c. vx (fst (spawn_particle R x0 y0 pal st pw bs k)) = cos a * (pw * c)
           \<and> vy (fst (spawn_particle R x0 y0 pal st pw bs k)) = sin a * (pw * c)
           \<and> 0 \<le> c \<and> c < 1.8"
  proof (cases st)
    case circle
    show ?thesis
      by (rule exI[of _ "R (Suc k)"])
         (use b[of "Suc k"] in \<open>simp add: circle spawn_particle_def style_adjust_def new_Particle_def
            randomRange_def Math_random_def Let_def a_def mult.commute\<close>)
  next
    case ring
    show ?thesis
      by (rule exI[of _ "0.85 + R (k + 5) * 0.3"])
         (use b[of "k + 5"] in \<open>simp add: ring spawn_particle_def style_adjust_def new_Particle_def
            randomRange_def Math_random_def Let_def a_def e\<close>)
  next
    case burst
    show ?thesis
      by (rule exI[of _ "if R (k + 5) > 0.7 then R (Suc k) * 1.8 else R (Suc k)"])
         (use b[of "Suc k"] in \<open>simp add: burst spawn_particle_def style_adjust_def new_Particle_def
            randomRange_def Math_random_def Let_def a_def e mult.commute mult.left_commute\<close>)
  next
    case willow
    show ?thesis
      by (rule exI[of _ "R (k + 5) * (0.7 - 0.3) + 0.3"])
         (use b[of "k + 5"] in \<open>simp add: willow spawn_particle_def style_adjust_def new_Particle_def
            randomRange_def Math_random_def Let_def a_def e\<close>)
  next
    case chrysanthemum
    show ?thesis
      by (rule exI[of _ "if R (k + 5) > 0.7 then R (k + 7) * (1.0 - 0.5) + 0.5
                          else R (k + 6) * (1.0 - 0.5) + 0.5"])
         (use b[of "k + 6"] b[of "k + 7"] in \<open>simp add: chrysanthemum spawn_particle_def
            style_adjust_def new_Particle_def
            randomRange_def Math_random_def Let_def a_def e e2 split_def\<close>)
  qed
  then show ?thesis by blast
qed

lemma spawn_particle_speed:
  assumes "rng_ok R" and "0 < pw"
  shows "speed (fst (spawn_particle R x0 y0 pal st pw bs k)) < 1.8 * pw"
proof -
  obtain a c where v: "vx (fst (spawn_particle R x0 y0 pal st pw bs k)) = cos a * (pw * c)"
    "vy (fst (spawn_particle R x0 y0 pal st pw bs k)) = sin a * (pw * c)" "0 \<le> c" "c < 1.8"
    using spawn_particle_velocity[OF assms(1)] by blast
  have nn: "0 \<le> pw * c" using assms(2) v(3) by simp
  have "speed (fst (spawn_particle R x0 y0 pal st pw bs k)) = pw * c"
    unfolding speed_def v(1,2) using speed_polar[OF nn] .
  moreover have "pw * c < pw * 1.8"
    using assms(2) v(4) by (intro mult_strict_left_mono) simp_all
  ultimately show ?thesis by (simp add: mult.commute)
qed

lemma ceiling_range:
  fixes c :: real
  assumes "real lo \<le> c" and "c < real hi"
  shows "lo \<le> nat \<lceil>c\<rceil>" and "nat \<lceil>c\<rceil> \<le> hi"
proof -
  have "int lo \<le> \<lceil>c\<rceil>" using assms(1) by (simp add: le_ceiling_iff)
  then show "lo \<le> nat \<lceil>c\<rceil>" by linarith
  have "\<lceil>c\<rceil> \<le> int hi" using assms(2) by (simp add: ceiling_le_iff)
  then show "nat \<lceil>c\<rceil> \<le> hi" by linarith
qed

section \<open>Particle physics\<close>

text \<open>
  Claim C3. \<^verbatim>\<open>update()\<close> multiplies both velocity components by the friction, then adds
  the gravity to \<open>vy\<close>, then adds the velocity to the position, then subtracts the decay
  from \<open>alpha\<close>: the new position is the old one plus the damped (and, for \<open>y\<close>,
  gravity-shifted) velocity. \<^verbatim>\<open>isDead()\<close> holds exactly when \<open>alpha \<le> 0\<close>.
\<close>

theorem C3_update_order:
  "update p =
     p\<lparr>vx := vx p * friction p,
       vy := vy p * friction p + gravity p,
       x := Particle.x p + vx p * friction p,
       y := Particle.y p + (vy p * friction p + gravity p),
       alpha := alpha p - decay p\<rparr>
   \<and> isDead p = (alpha p \<le> 0)"
  by (simp add: update_def isDead_def Let_def)

section \<open>Size classes\<close>

text \<open>
  Claim C6, as the code has it. An accepted explosion appends one particle per iteration
  of a loop whose bound is the rolled count, a number that need not be an integer: the
  batch holds the rolled count rounded up. The size class is the third draw of the
  explosion. Below 0.3 the rolled count lies in \<open>[70, 110)\<close> and the batch holds 70 to
  110 particles, the power lies in \<open>[5, 8)\<close> and the base radius in \<open>[3.5, 5)\<close>; from
  0.3 and below 0.7 they are \<open>[120, 180)\<close> with 120 to 180 particles, \<open>[8, 11)\<close> and
  \<open>[4.5, 6)\<close>; from 0.7 they are \<open>[200, 300)\<close> with 200 to 300 particles, \<open>[10, 14)\<close> and
  \<open>[5.5, 7.5)\<close>. Each of the three is the lower bound plus the width of its interval
  times a draw of its own, the next three draws in this order. Every particle of the
  batch is slower than 1.8 times the power, and its size is the base radius plus less
  than 2.
\<close>

theorem C6_batch_parameters:
  assumes "rng_ok (random_src g)" and "canvasRef g = Some cv"
    and "length (particles g) \<le> 2000"
    and "roll_explosion (random_src g) (random_used g) =
           ((palette, style, particleCount, explosionPower, baseSize), k')"
  shows "\<exists>batch. particles (triggerFirework x0 y0 g) = particles g @ batch
       \<and> length batch = nat \<lceil>particleCount\<rceil>
       \<and> (\<forall>p\<in>set batch. speed p < 1.8 * explosionPower
                          \<and> baseSize \<le> size p \<and> size p < baseSize + 2)
       \<and> (random_src g (random_used g + 2) < 0.3 \<longrightarrow>
            particleCount = 70 + 40 * random_src g (random_used g + 3)
          \<and> 70 \<le> particleCount \<and> particleCount < 110
          \<and> 70 \<le> length batch \<and> length batch \<le> 110
          \<and> explosionPower = 5 + 3 * random_src g (random_used g + 4)
          \<and> 5 \<le> explosionPower \<and> explosionPower < 8
          \<and> baseSize = 3.5 + 1.5 * random_src g (random_used g + 5)
          \<and> 3.5 \<le> baseSize \<and> baseSize < 5)
       \<and> (0.3 \<le> random_src g (random_used g + 2) \<and> random_src g (random_used g + 2) < 0.7 \<longrightarrow>
            particleCount = 120 + 60 * random_src g (random_used g + 3)
          \<and> 120 \<le> particleCount \<and> particleCount < 180
          \<and> 120 \<le> length batch \<and> length batch \<le> 180
          \<and> explosionPower = 8 + 3 * random_src g (random_used g + 4)
          \<and> 8 \<le> explosionPower \<and> explosionPower < 11
          \<and> baseSize = 4.5 + 1.5 * random_src g (random_used g + 5)
          \<and> 4.5 \<le> baseSize \<and> baseSize < 6)
       \<and> (0.7 \<le> random_src g (random_used g + 2) \<longrightarrow>
            particleCount = 200 + 100 * random_src g (random_used g + 3)
          \<and> 200 \<le> particleCount \<and> particleCount < 300
          \<and> 200 \<le> length batch \<and> length batch \<le> 300
          \<and> explosionPower = 10 + 4 * random_src g (random_used g + 4)
          \<and> 10 \<le> explosionPower \<and> explosionPower < 14
          \<and> baseSize = 5.5 + 2 * random_src g (random_used g + 5)
          \<and> 5.5 \<le> baseSize \<and> baseSize < 7.5)"
proof -
  have cv: "canvasRef g \<noteq> None" using assms(2) by simp
  obtain batch k'' where b:
    "triggerFirework x0 y0 g = g\<lparr>particles := particles g @ batch, random_used := k''\<rparr>"
    "length batch = nat \<lceil>particleCount\<rceil>"
    "\<forall>p\<in>set batch. \<exists>j. p = fst (spawn_particle (random_src g) x0 y0 palette style
        explosionPower baseSize j)"
    using triggerFirework_accept[OF cv assms(3,4), of x0 y0] by blast
  have pw: "0 < explosionPower"
    using roll_explosion_power_pos[OF assms(1,4)] .
  have 1: "particles (triggerFirework x0 y0 g) = particles g @ batch"
    using b(1) by simp
  have 2: "\<forall>p\<in>set batch. speed p < 1.8 * explosionPower
                          \<and> baseSize \<le> size p \<and> size p < baseSize + 2"
  proof
    fix p assume "p \<in> set batch"
    then obtain j where "p = fst (spawn_particle (random_src g) x0 y0 palette style
        explosionPower baseSize j)"
      using b(3) by blast
    then show "speed p < 1.8 * explosionPower \<and> baseSize \<le> size p \<and> size p < baseSize + 2"
      using spawn_particle_speed[OF assms(1) pw] spawn_particle_size[OF assms(1)] by simp
  qed
  note r = size_class_ranges[OF assms(1,4)]
  have s: "random_src g (random_used g + 2) < 0.3 \<longrightarrow>
            particleCount = 70 + 40 * random_src g (random_used g + 3)
          \<and> 70 \<le> particleCount \<and> particleCount < 110
          \<and> 70 \<le> length batch \<and> length batch \<le> 110
          \<and> explosionPower = 5 + 3 * random_src g (random_used g + 4)
          \<and> 5 \<le> explosionPower \<and> explosionPower < 8
          \<and> baseSize = 3.5 + 1.5 * random_src g (random_used g + 5)
          \<and> 3.5 \<le> baseSize \<and> baseSize < 5"
  proof
    assume a: "random_src g (random_used g + 2) < 0.3"
    note f = r[THEN conjunct1, rule_format, OF a]
    have "real 70 \<le> particleCount" "particleCount < real 110" using f by simp_all
    then have "70 \<le> length batch \<and> length batch \<le> 110"
      unfolding b(2) using ceiling_range by blast
    then show "particleCount = 70 + 40 * random_src g (random_used g + 3)
          \<and> 70 \<le> particleCount \<and> particleCount < 110
          \<and> 70 \<le> length batch \<and> length batch \<le> 110
          \<and> explosionPower = 5 + 3 * random_src g (random_used g + 4)
          \<and> 5 \<le> explosionPower \<and> explosionPower < 8
          \<and> baseSize = 3.5 + 1.5 * random_src g (random_used g + 5)
          \<and> 3.5 \<le> baseSize \<and> baseSize < 5"
      using f by blast
  qed
  have m: "0.3 \<le> random_src g (random_used g + 2) \<and> random_src g (random_used g + 2) < 0.7 \<longrightarrow>
            particleCount = 120 + 60 * random_src g (random_used g + 3)
          \<and> 120 \<le> particleCount \<and> particleCount < 180
          \<and> 120 \<le> length batch \<and> length batch \<le> 180
          \<and> explosionPower = 8 + 3 * random_src g (random_used g + 4)
          \<and> 8 \<le> explosionPower \<and> explosionPower < 11
          \<and> baseSize = 4.5 + 1.5 * random_src g (random_used g + 5)
          \<and> 4.5 \<le> baseSize \<and> baseSize < 6"
  proof
    assume a: "0.3 \<le> random_src g (random_used g + 2) \<and> random_src g (random_used g + 2) < 0.7"
    note f = r[THEN conjunct2, THEN conjunct1, rule_format, OF a]
    have "real 120 \<le> particleCount" "particleCount < real 180" using f by simp_all
    then have "120 \<le> length batch \<and> length batch \<le> 180"
      unfolding b(2) using ceiling_range by blast
    then show "particleCount = 120 + 60 * random_src g (random_used g + 3)
          \<and> 120 \<le> particleCount \<and> particleCount < 180
          \<and> 120 \<le> length batch \<and> length batch \<le> 180
          \<and> explosionPower = 8 + 3 * random_src g (random_used g + 4)
          \<and> 8 \<le> explosionPower \<and> explosionPower < 11
          \<and> baseSize = 4.5 + 1.5 * random_src g (random_used g + 5)
          \<and> 4.5 \<le> baseSize \<and> baseSize < 6"
      using f by blast
  qed
  have l: "0.7 \<le> random_src g (random_used g + 2) \<longrightarrow>
            particleCount = 200 + 100 * random_src g (random_used g + 3)
          \<and> 200 \<le> particleCount \<and> particleCount < 300
          \<and> 200 \<le> length batch \<and> length batch \<le> 300
          \<and> explosionPower = 10 + 4 * random_src g (random_used g + 4)
          \<and> 10 \<le> explosionPower \<and> explosionPower < 14
          \<and> baseSize = 5.5 + 2 * random_src g (random_used g + 5)
          \<and> 5.5 \<le> baseSize \<and> baseSize < 7.5"
  proof
    assume a: "0.7 \<le> random_src g (random_used g + 2)"
    note f = r[THEN conjunct2, THEN conjunct2, rule_format, OF a]
    have "real 200 \<le> particleCount" "particleCount < real 300" using f by simp_all
    then have "200 \<le> length batch \<and> length batch \<le> 300"
      unfolding b(2) using ceiling_range by blast
    then show "particleCount = 200 + 100 * random_src g (random_used g + 3)
          \<and> 200 \<le> particleCount \<and> particleCount < 300
          \<and> 200 \<le> length batch \<and> length batch \<le> 300
          \<and> explosionPower = 10 + 4 * random_src g (random_used g + 4)
          \<and> 10 \<le> explosionPower \<and> explosionPower < 14
          \<and> baseSize = 5.5 + 2 * random_src g (random_used g + 5)
          \<and> 5.5 \<le> baseSize \<and> baseSize < 7.5"
      using f by blast
  qed
  show ?thesis
    using conjI[OF 1 conjI[OF b(2) conjI[OF 2 conjI[OF s conjI[OF m l]]]]]
    by (rule exI[of _ batch])
qed

theorem C6_batch_parameters_witness:
  "rng_ok (random_src (demo_game (steady (1/2))))
   \<and> canvasRef (demo_game (steady (1/2))) = Some demo_canvas
   \<and> length (particles (demo_game (steady (1/2)))) \<le> 2000
   \<and> roll_explosion (random_src (demo_game (steady (1/2))))
        (random_used (demo_game (steady (1/2)))) =
       ((\<lparr>Palette.hue = 160, name = ''cyan''\<rparr>, burst, 150, 19/2, 21/4), 6)
   \<and> 0.3 \<le> steady (1/2) 2 \<and> steady (1/2) 2 < 0.7
   \<and> length (particles (triggerFirework 400 300 (demo_game (steady (1/2))))) = 150
   \<and> 120 \<le> length (particles (triggerFirework 400 300 (demo_game (steady (1/2)))))
   \<and> length (particles (triggerFirework 400 300 (demo_game (steady (1/2))))) \<le> 180
   \<and> speed (last (particles (triggerFirework 400 300 (demo_game (steady (1/2)))))) < 1.8 * (19/2)
   \<and> 21/4 \<le> size (last (particles (triggerFirework 400 300 (demo_game (steady (1/2))))))
   \<and> size (last (particles (triggerFirework 400 300 (demo_game (steady (1/2)))))) < 21/4 + 2
   \<and> (150::real) = 120 + 60 * steady (1/2) 3 \<and> (120::real) \<le> 150 \<and> (150::real) < 180
   \<and> (19/2::real) = 8 + 3 * steady (1/2) 4 \<and> (8::real) \<le> 19/2 \<and> (19/2::real) < 11
   \<and> (21/4::real) = 4.5 + 1.5 * steady (1/2) 5 \<and> (4.5::real) \<le> 21/4 \<and> (21/4::real) < 6"
proof -
  have h1: "rng_ok (random_src (demo_game (steady (1/2))))"
    by (simp add: demo_game_simps rng_ok_steady)
  have h2: "canvasRef (demo_game (steady (1/2))) = Some demo_canvas"
    by (simp add: demo_game_simps)
  have h3: "length (particles (demo_game (steady (1/2)))) \<le> 2000"
    by (simp add: demo_game_simps)
  have h4: "roll_explosion (random_src (demo_game (steady (1/2))))
        (random_used (demo_game (steady (1/2)))) =
       ((\<lparr>Palette.hue = 160, name = ''cyan''\<rparr>, burst, 150, 19/2, 21/4), 6)"
    by (simp add: demo_game_simps roll_explosion_eq size_class_medium steady_def
        COLOR_PALETTES_def EXPLOSION_STYLES_def)
  have md: "0.3 \<le> steady (1/2) 2 \<and> steady (1/2) 2 < 0.7"
    by (simp add: steady_def)
  have md': "0.3 \<le> random_src (demo_game (steady (1/2))) (random_used (demo_game (steady (1/2))) + 2)
      \<and> random_src (demo_game (steady (1/2))) (random_used (demo_game (steady (1/2))) + 2) < 0.7"
    by (simp add: demo_game_simps steady_def)
  obtain batch where b:
    "particles (triggerFirework 400 300 (demo_game (steady (1/2)))) =
       particles (demo_game (steady (1/2))) @ batch"
    "length batch = nat \<lceil>150 :: real\<rceil>"
    "\<forall>p\<in>set batch. speed p < 1.8 * (19/2) \<and> 21/4 \<le> size p \<and> size p < 21/4 + 2"
    "0.3 \<le> random_src (demo_game (steady (1/2))) (random_used (demo_game (steady (1/2))) + 2)
      \<and> random_src (demo_game (steady (1/2))) (random_used (demo_game (steady (1/2))) + 2) < 0.7
     \<longrightarrow> (150::real) = 120 + 60 * random_src (demo_game (steady (1/2)))
                                    (random_used (demo_game (steady (1/2))) + 3)
          \<and> (120::real) \<le> 150 \<and> (150::real) < 180
          \<and> 120 \<le> length batch \<and> length batch \<le> 180
          \<and> (19/2::real) = 8 + 3 * random_src (demo_game (steady (1/2)))
                                    (random_used (demo_game (steady (1/2))) + 4)
          \<and> (8::real) \<le> 19/2 \<and> (19/2::real) < 11
          \<and> (21/4::real) = 4.5 + 1.5 * random_src (demo_game (steady (1/2)))
                                    (random_used (demo_game (steady (1/2))) + 5)
          \<and> (4.5::real) \<le> 21/4 \<and> (21/4::real) < 6"
    using C6_batch_parameters[OF h1 h2 h3 h4, of 400 300] by blast
  have e: "particles (triggerFirework 400 300 (demo_game (steady (1/2)))) = batch"
    using b(1) by (simp add: demo_game_simps)
  have l: "length batch = 150" using b(2) by simp
  then have "batch \<noteq> []" by auto
  then have "last batch \<in> set batch" by simp
  then have c: "speed (last batch) < 1.8 * (19/2) \<and> 21/4 \<le> size (last batch)
      \<and> size (last batch) < 21/4 + 2"
    using b(3) by blast
  have rg: "120 \<le> length batch \<and> length batch \<le> 180"
    using b(4) md' by blast
  have pr: "(150::real) = 120 + 60 * steady (1/2) 3 \<and> (120::real) \<le> 150 \<and> (150::real) < 180
   \<and> (19/2::real) = 8 + 3 * steady (1/2) 4 \<and> (8::real) \<le> 19/2 \<and> (19/2::real) < 11
   \<and> (21/4::real) = 4.5 + 1.5 * steady (1/2) 5 \<and> (4.5::real) \<le> 21/4 \<and> (21/4::real) < 6"
    by (simp add: steady_def)
  note md1 = md[THEN conjunct1] and md2 = md[THEN conjunct2]
  note rg1 = rg[THEN conjunct1] and rg2 = rg[THEN conjunct2]
  note c1 = c[THEN conjunct1] and c2 = c[THEN conjunct2, THEN conjunct1]
    and c3 = c[THEN conjunct2, THEN conjunct2]
  show ?thesis
    unfolding e
    using conjI[OF h1 conjI[OF h2 conjI[OF h3 conjI[OF h4 conjI[OF md1 conjI[OF md2
          conjI[OF l conjI[OF rg1 conjI[OF rg2 conjI[OF c1 conjI[OF c2
          conjI[OF c3 pr]]]]]]]]]]]] .
qed

text \<open>
  Claim C6 as stated fails for the number of particles of a batch: with the draws 0, 0, 0,
  0.99 the size class is the small one, the rolled count is 109.6 and the batch holds 110
  particles; with the draws 0, 0, 0.9, 0.999 the size class is the large one, the rolled
  count is 299.9 and the batch holds 300 particles.
\<close>

theorem C6_batch_size_counterexample:
  "rng_ok (draws [0, 0, 0, 99/100] (1/2))
   \<and> canvasRef (demo_game (draws [0, 0, 0, 99/100] (1/2))) = Some demo_canvas
   \<and> length (particles (demo_game (draws [0, 0, 0, 99/100] (1/2)))) = 0
   \<and> draws [0, 0, 0, 99/100] (1/2) 2 < 0.3
   \<and> roll_explosion (draws [0, 0, 0, 99/100] (1/2)) 0 =
       ((\<lparr>Palette.hue = 0, name = ''red''\<rparr>, circle, 548/5, 13/2, 17/4), 6)
   \<and> length (particles (triggerFirework 400 300 (demo_game (draws [0, 0, 0, 99/100] (1/2))))) = 110
   \<and> rng_ok (draws [0, 0, 9/10, 999/1000] (1/2))
   \<and> 0.7 \<le> draws [0, 0, 9/10, 999/1000] (1/2) 2
   \<and> roll_explosion (draws [0, 0, 9/10, 999/1000] (1/2)) 0 =
       ((\<lparr>Palette.hue = 0, name = ''red''\<rparr>, circle, 2999/10, 12, 13/2), 6)
   \<and> length (particles (triggerFirework 400 300
        (demo_game (draws [0, 0, 9/10, 999/1000] (1/2))))) = 300"
proof -
  have o1: "rng_ok (draws [0, 0, 0, 99/100] (1/2))" by (simp add: rng_ok_draws)
  have o2: "rng_ok (draws [0, 0, 9/10, 999/1000] (1/2))" by (simp add: rng_ok_draws)
  have c1: "canvasRef (demo_game (draws [0, 0, 0, 99/100] (1/2))) = Some demo_canvas"
    and p1: "length (particles (demo_game (draws [0, 0, 0, 99/100] (1/2)))) = 0"
    by (simp_all add: demo_game_simps)
  have s1: "draws [0, 0, 0, 99/100] (1/2) 2 < 0.3" by (simp add: draws_def)
  have s2: "0.7 \<le> draws [0, 0, 9/10, 999/1000] (1/2) 2" by (simp add: draws_def)
  have len: "length (particles (triggerFirework 400 300 (demo_game R))) = nat \<lceil>pc\<rceil>"
    if "roll_explosion R 0 = ((pal, st, pc, pw, bs), 6)" for R pal st pc pw bs
  proof -
    have a: "canvasRef (demo_game R) \<noteq> None" "length (particles (demo_game R)) \<le> 2000"
      "roll_explosion (random_src (demo_game R)) (random_used (demo_game R)) =
         ((pal, st, pc, pw, bs), 6)"
      using that by (simp_all add: demo_game_simps)
    obtain batch k' where "triggerFirework 400 300 (demo_game R) =
        (demo_game R)\<lparr>particles := particles (demo_game R) @ batch, random_used := k'\<rparr>"
      "length batch = nat \<lceil>pc\<rceil>"
      using triggerFirework_accept[OF a, of 400 300] by blast
    then show ?thesis by (simp add: demo_game_simps)
  qed
  have l1: "length (particles (triggerFirework 400 300
        (demo_game (draws [0, 0, 0, 99/100] (1/2))))) = 110"
    using len[OF roll_small_top] by simp
  have l2: "length (particles (triggerFirework 400 300
        (demo_game (draws [0, 0, 9/10, 999/1000] (1/2))))) = 300"
    using len[OF roll_large_top] by simp
  show ?thesis
    using conjI[OF o1 conjI[OF c1 conjI[OF p1 conjI[OF s1 conjI[OF roll_small_top conjI[OF l1
          conjI[OF o2 conjI[OF s2 conjI[OF roll_large_top l2]]]]]]]]] .
qed

section \<open>Explosion styles\<close>

text \<open>
  Claim C7. When the style rolled for an accepted explosion is the ring, every particle
  of the batch has a speed between 0.85 and 1.15 times the rolled explosion power and a
  decay between 0.015 and 0.025.
\<close>

theorem C7_ring_batch:
  assumes "rng_ok (random_src g)" and "canvasRef g = Some cv"
    and "length (particles g) \<le> 2000"
    and "roll_explosion (random_src g) (random_used g) =
           ((palette, ring, particleCount, explosionPower, baseSize), k)"
  shows "\<exists>batch. particles (triggerFirework x0 y0 g) = particles g @ batch
           \<and> length batch = nat \<lceil>particleCount\<rceil>
           \<and> (\<forall>p\<in>set batch.
                 explosionPower * 0.85 \<le> speed p \<and> speed p \<le> explosionPower * 1.15
               \<and> 0.015 \<le> decay p \<and> decay p \<le> 0.025)"
proof -
  have cv: "canvasRef g \<noteq> None" using assms(2) by simp
  obtain batch k' where b:
    "triggerFirework x0 y0 g = g\<lparr>particles := particles g @ batch, random_used := k'\<rparr>"
    "length batch = nat \<lceil>particleCount\<rceil>"
    "\<forall>p\<in>set batch. \<exists>j. p = fst (spawn_particle (random_src g) x0 y0 palette ring
        explosionPower baseSize j)"
    using triggerFirework_accept[OF cv assms(3,4), of x0 y0] by blast
  have pw: "0 < explosionPower"
    using roll_explosion_power_pos[OF assms(1,4)] .
  have "\<forall>p\<in>set batch.
                 explosionPower * 0.85 \<le> speed p \<and> speed p \<le> explosionPower * 1.15
               \<and> 0.015 \<le> decay p \<and> decay p \<le> 0.025"
  proof
    fix p assume "p \<in> set batch"
    then obtain j where "p = fst (spawn_particle (random_src g) x0 y0 palette ring
        explosionPower baseSize j)"
      using b(3) by blast
    then show "explosionPower * 0.85 \<le> speed p \<and> speed p \<le> explosionPower * 1.15
               \<and> 0.015 \<le> decay p \<and> decay p \<le> 0.025"
      using ring_particle[OF assms(1) pw] by simp
  qed
  moreover have "particles (triggerFirework x0 y0 g) = particles g @ batch"
    using b(1) by simp
  ultimately show ?thesis using b(2) by (intro exI[of _ batch] conjI)
qed

theorem C7_ring_batch_witness:
  "rng_ok (random_src (demo_game (steady (3/10))))
   \<and> canvasRef (demo_game (steady (3/10))) = Some demo_canvas
   \<and> length (particles (demo_game (steady (3/10)))) \<le> 2000
   \<and> roll_explosion (random_src (demo_game (steady (3/10)))) (random_used (demo_game (steady (3/10)))) =
        ((\<lparr>Palette.hue = 45, name = ''gold''\<rparr>, ring, 138, 89/10, 99/20), 6)
   \<and> length (particles (triggerFirework 400 300 (demo_game (steady (3/10))))) = 138
   \<and> 89/10 * 0.85 \<le> speed (last (particles (triggerFirework 400 300 (demo_game (steady (3/10))))))
   \<and> speed (last (particles (triggerFirework 400 300 (demo_game (steady (3/10)))))) \<le> 89/10 * 1.15
   \<and> 0.015 \<le> decay (last (particles (triggerFirework 400 300 (demo_game (steady (3/10))))))
   \<and> decay (last (particles (triggerFirework 400 300 (demo_game (steady (3/10)))))) \<le> 0.025"
proof -
  have h1: "rng_ok (random_src (demo_game (steady (3/10))))"
    by (simp add: demo_game_simps rng_ok_steady)
  have h2: "canvasRef (demo_game (steady (3/10))) = Some demo_canvas"
    by (simp add: demo_game_simps)
  have h3: "length (particles (demo_game (steady (3/10)))) \<le> 2000"
    by (simp add: demo_game_simps)
  have h4: "roll_explosion (random_src (demo_game (steady (3/10)))) (random_used (demo_game (steady (3/10)))) =
        ((\<lparr>Palette.hue = 45, name = ''gold''\<rparr>, ring, 138, 89/10, 99/20), 6)"
    by (simp add: demo_game_simps roll_explosion_eq size_class_medium steady_def
        COLOR_PALETTES_def EXPLOSION_STYLES_def)
  obtain batch where b:
    "particles (triggerFirework 400 300 (demo_game (steady (3/10)))) = particles (demo_game (steady (3/10))) @ batch"
    "length batch = nat \<lceil>138 :: real\<rceil>"
    "\<forall>p\<in>set batch. 89/10 * 0.85 \<le> speed p \<and> speed p \<le> 89/10 * 1.15
               \<and> 0.015 \<le> decay p \<and> decay p \<le> 0.025"
    using C7_ring_batch[OF h1 h2 h3 h4, of 400 300] by blast
  have e: "particles (triggerFirework 400 300 (demo_game (steady (3/10)))) = batch"
    using b(1) by (simp add: demo_game_simps)
  have l: "length batch = 138" using b(2) by simp
  then have "batch \<noteq> []" by auto
  then have "last batch \<in> set batch" by simp
  then have c: "89/10 * 0.85 \<le> speed (last batch) \<and> speed (last batch) \<le> 89/10 * 1.15
               \<and> 0.015 \<le> decay (last batch) \<and> decay (last batch) \<le> 0.025"
    using b(3) by blast
  show ?thesis
    unfolding e using conjI[OF h1 conjI[OF h2 conjI[OF h3 conjI[OF h4 conjI[OF l c]]]]] .
qed

text \<open>
  Claim C8, as the code has it. When the style rolled for an accepted explosion is the
  circle, every particle of the batch has a lightness in \<open>[45, 65)\<close>: the value drawn in
  \<open>[45, 55)\<close> by the composer plus the amount in \<open>[0, 10)\<close> that the constructor adds.
  Its hue is within 15 of the palette hue, its decay in \<open>[0.01, 0.02]\<close> and its gravity
  0.04.
\<close>

theorem C8_circle_batch:
  assumes "rng_ok (random_src g)" and "canvasRef g = Some cv"
    and "length (particles g) \<le> 2000"
    and "roll_explosion (random_src g) (random_used g) =
           ((palette, circle, particleCount, explosionPower, baseSize), k)"
  shows "\<exists>batch. particles (triggerFirework x0 y0 g) = particles g @ batch
           \<and> length batch = nat \<lceil>particleCount\<rceil>
           \<and> (\<forall>p\<in>set batch.
                 (\<exists>b j. lightness p = b + j \<and> 45 \<le> b \<and> b < 55 \<and> 0 \<le> j \<and> j < 10)
               \<and> 45 \<le> lightness p \<and> lightness p < 65
               \<and> Palette.hue palette - 15 \<le> hue p \<and> hue p < Palette.hue palette + 15
               \<and> 0.01 \<le> decay p \<and> decay p \<le> 0.02
               \<and> gravity p = 0.04)"
proof -
  have cv: "canvasRef g \<noteq> None" using assms(2) by simp
  obtain batch k' where b:
    "triggerFirework x0 y0 g = g\<lparr>particles := particles g @ batch, random_used := k'\<rparr>"
    "length batch = nat \<lceil>particleCount\<rceil>"
    "\<forall>p\<in>set batch. \<exists>j. p = fst (spawn_particle (random_src g) x0 y0 palette circle
        explosionPower baseSize j)"
    using triggerFirework_accept[OF cv assms(3,4), of x0 y0] by blast
  have "\<forall>p\<in>set batch.
                 (\<exists>b j. lightness p = b + j \<and> 45 \<le> b \<and> b < 55 \<and> 0 \<le> j \<and> j < 10)
               \<and> 45 \<le> lightness p \<and> lightness p < 65
               \<and> Palette.hue palette - 15 \<le> hue p \<and> hue p < Palette.hue palette + 15
               \<and> 0.01 \<le> decay p \<and> decay p \<le> 0.02
               \<and> gravity p = 0.04"
  proof
    fix p assume "p \<in> set batch"
    then obtain j where p: "p = fst (spawn_particle (random_src g) x0 y0 palette circle
        explosionPower baseSize j)"
      using b(3) by blast
    have c: "\<exists>b j. lightness p = b + j \<and> 45 \<le> b \<and> b < 55 \<and> 0 \<le> j \<and> j < 10"
      "Palette.hue palette - 15 \<le> hue p" "hue p < Palette.hue palette + 15"
      "0.01 \<le> decay p" "decay p \<le> 0.02" "gravity p = 0.04"
      unfolding p by (rule circle_particle[OF assms(1)])+
    obtain b' j' where l: "lightness p = b' + j'" "45 \<le> b'" "b' < 55" "0 \<le> j'" "j' < 10"
      using c(1) by blast
    have "45 \<le> lightness p" "lightness p < 65"
      using l by simp_all
    then show "(\<exists>b j. lightness p = b + j \<and> 45 \<le> b \<and> b < 55 \<and> 0 \<le> j \<and> j < 10)
               \<and> 45 \<le> lightness p \<and> lightness p < 65
               \<and> Palette.hue palette - 15 \<le> hue p \<and> hue p < Palette.hue palette + 15
               \<and> 0.01 \<le> decay p \<and> decay p \<le> 0.02
               \<and> gravity p = 0.04"
      using c by (intro conjI)
  qed
  moreover have "particles (triggerFirework x0 y0 g) = particles g @ batch"
    using b(1) by simp
  ultimately show ?thesis using b(2) by (intro exI[of _ batch] conjI)
qed

theorem C8_circle_batch_witness:
  "rng_ok (random_src (demo_game (steady (1/10))))
   \<and> canvasRef (demo_game (steady (1/10))) = Some demo_canvas
   \<and> length (particles (demo_game (steady (1/10)))) \<le> 2000
   \<and> roll_explosion (random_src (demo_game (steady (1/10))))
         (random_used (demo_game (steady (1/10)))) =
        ((\<lparr>Palette.hue = 15, name = ''scarlet''\<rparr>, circle, 74, 53/10, 73/20), 6)
   \<and> length (particles (triggerFirework 400 300 (demo_game (steady (1/10))))) = 74
   \<and> 45 \<le> lightness (last (particles (triggerFirework 400 300 (demo_game (steady (1/10))))))
   \<and> lightness (last (particles (triggerFirework 400 300 (demo_game (steady (1/10)))))) < 65
   \<and> 15 - 15 \<le> hue (last (particles (triggerFirework 400 300 (demo_game (steady (1/10))))))
   \<and> hue (last (particles (triggerFirework 400 300 (demo_game (steady (1/10)))))) < 15 + 15
   \<and> 0.01 \<le> decay (last (particles (triggerFirework 400 300 (demo_game (steady (1/10))))))
   \<and> decay (last (particles (triggerFirework 400 300 (demo_game (steady (1/10)))))) \<le> 0.02
   \<and> gravity (last (particles (triggerFirework 400 300 (demo_game (steady (1/10)))))) = 0.04"
proof -
  have h1: "rng_ok (random_src (demo_game (steady (1/10))))"
    by (simp add: demo_game_simps rng_ok_steady)
  have h2: "canvasRef (demo_game (steady (1/10))) = Some demo_canvas"
    by (simp add: demo_game_simps)
  have h3: "length (particles (demo_game (steady (1/10)))) \<le> 2000"
    by (simp add: demo_game_simps)
  have h4: "roll_explosion (random_src (demo_game (steady (1/10))))
         (random_used (demo_game (steady (1/10)))) =
        ((\<lparr>Palette.hue = 15, name = ''scarlet''\<rparr>, circle, 74, 53/10, 73/20), 6)"
    by (simp add: demo_game_simps roll_explosion_eq size_class_small steady_def
        COLOR_PALETTES_def EXPLOSION_STYLES_def)
  obtain batch where b:
    "particles (triggerFirework 400 300 (demo_game (steady (1/10)))) =
       particles (demo_game (steady (1/10))) @ batch"
    "length batch = nat \<lceil>74 :: real\<rceil>"
    "\<forall>p\<in>set batch.
        (\<exists>b j. lightness p = b + j \<and> 45 \<le> b \<and> b < 55 \<and> 0 \<le> j \<and> j < 10)
      \<and> 45 \<le> lightness p \<and> lightness p < 65
      \<and> Palette.hue \<lparr>Palette.hue = 15, name = ''scarlet''\<rparr> - 15 \<le> hue p
      \<and> hue p < Palette.hue \<lparr>Palette.hue = 15, name = ''scarlet''\<rparr> + 15
      \<and> 0.01 \<le> decay p \<and> decay p \<le> 0.02 \<and> gravity p = 0.04"
    using C8_circle_batch[OF h1 h2 h3 h4, of 400 300] by blast
  have e: "particles (triggerFirework 400 300 (demo_game (steady (1/10)))) = batch"
    using b(1) by (simp add: demo_game_simps)
  have l: "length batch = 74" using b(2) by simp
  then have "batch \<noteq> []" by auto
  then have "last batch \<in> set batch" by simp
  then have c: "45 \<le> lightness (last batch) \<and> lightness (last batch) < 65
      \<and> 15 - 15 \<le> hue (last batch) \<and> hue (last batch) < 15 + 15
      \<and> 0.01 \<le> decay (last batch) \<and> decay (last batch) \<le> 0.02
      \<and> gravity (last batch) = 0.04"
    using b(3) by simp
  show ?thesis
    unfolding e using conjI[OF h1 conjI[OF h2 conjI[OF h3 conjI[OF h4 conjI[OF l c]]]]] .
qed

text \<open>
  Claim C8 as stated fails: with the draws 0, 0, 0 and then 0.9 forever the explosion is a
  circle, and its first particle has lightness 63, above 55.
\<close>

theorem C8_lightness_counterexample:
  "rng_ok (random_src (demo_game (draws [0, 0, 0] (9/10))))
   \<and> canvasRef (demo_game (draws [0, 0, 0] (9/10))) = Some demo_canvas
   \<and> length (particles (demo_game (draws [0, 0, 0] (9/10)))) = 0
   \<and> roll_explosion (draws [0, 0, 0] (9/10)) 0 =
       ((\<lparr>Palette.hue = 0, name = ''red''\<rparr>, circle, 106, 77/10, 97/20), 6)
   \<and> lightness (particles (triggerFirework 400 300 (demo_game (draws [0, 0, 0] (9/10)))) ! 0) = 63"
proof -
  have h1: "rng_ok (random_src (demo_game (draws [0, 0, 0] (9/10))))"
    by (simp add: demo_game_simps rng_ok_draws)
  have h2: "canvasRef (demo_game (draws [0, 0, 0] (9/10))) = Some demo_canvas"
    by (simp add: demo_game_simps)
  have h3: "length (particles (demo_game (draws [0, 0, 0] (9/10)))) = 0"
    by (simp add: demo_game_simps)
  have f: "particles (triggerFirework 400 300 (demo_game (draws [0, 0, 0] (9/10)))) ! 0 =
        fst (spawn_particle (draws [0, 0, 0] (9/10)) 400 300 \<lparr>Palette.hue = 0, name = ''red''\<rparr>
              circle (77/10) (97/20) 6)"
    using triggerFirework_first[of "demo_game (draws [0, 0, 0] (9/10))"
        "\<lparr>Palette.hue = 0, name = ''red''\<rparr>" circle 106 "77/10" "97/20" 6 400 300]
      roll_draws
    by (simp add: demo_game_simps)
  have l: "lightness (particles (triggerFirework 400 300 (demo_game (draws [0, 0, 0] (9/10)))) ! 0) = 63"
    unfolding f spawn_particle_circle by (simp add: draws_def)
  show ?thesis
    using conjI[OF h1 conjI[OF h2 conjI[OF h3 conjI[OF roll_draws l]]]] .
qed

section \<open>The pool and its cap\<close>

text \<open>
  Claim C2. A request made while the pool holds more than 2000 particles changes nothing:
  no particle, no random draw, no error. A request made with a canvas while the pool
  holds at most 2000 appends its whole batch, one particle per iteration of the loop,
  that is the rolled count rounded up, at least 70. The clean-up pass never lengthens
  the pool, and 125 passes without a new explosion empty a pool of live particles, so the
  count does come back under the cap.
\<close>

theorem C2_pool_cap:
  "(length (particles g) > 2000 \<longrightarrow> triggerFirework x0 y0 g = g)
   \<and> (rng_ok (random_src g) \<and> canvasRef g = Some cv \<and> length (particles g) \<le> 2000
        \<and> roll_explosion (random_src g) (random_used g) =
            ((palette, style, particleCount, explosionPower, baseSize), k) \<longrightarrow>
        (\<exists>batch. particles (triggerFirework x0 y0 g) = particles g @ batch
           \<and> length batch = nat \<lceil>particleCount\<rceil> \<and> 70 \<le> length batch))
   \<and> length (update_particles (particles g)) \<le> length (particles g)
   \<and> (pool_inv (particles g) \<longrightarrow> (update_particles ^^ 125) (particles g) = [])"
proof (intro conjI impI)
  assume "length (particles g) > 2000"
  then show "triggerFirework x0 y0 g = g"
    by (simp add: triggerFirework_reject)
next
  assume a: "rng_ok (random_src g) \<and> canvasRef g = Some cv \<and> length (particles g) \<le> 2000
        \<and> roll_explosion (random_src g) (random_used g) =
            ((palette, style, particleCount, explosionPower, baseSize), k)"
  then have cv: "canvasRef g \<noteq> None" by simp
  obtain batch k' where b:
    "triggerFirework x0 y0 g = g\<lparr>particles := particles g @ batch, random_used := k'\<rparr>"
    "length batch = nat \<lceil>particleCount\<rceil>"
    using triggerFirework_accept[OF cv, of palette style particleCount explosionPower baseSize k x0 y0] a
    by blast
  have "particleCount =
        fst (size_class (random_src g) (random_src g (random_used g + 2)) (random_used g + 3))"
    using a by (simp add: roll_explosion_eq)
  then have "70 \<le> particleCount"
    using size_class_count_bounds(1)[of "random_src g"] a by simp
  then have "70 \<le> \<lceil>particleCount\<rceil>"
    by (simp add: le_ceiling_iff)
  then have "70 \<le> length batch"
    using b(2) by linarith
  moreover have "particles (triggerFirework x0 y0 g) = particles g @ batch"
    using b(1) by simp
  ultimately show "\<exists>batch. particles (triggerFirework x0 y0 g) = particles g @ batch
           \<and> length batch = nat \<lceil>particleCount\<rceil> \<and> 70 \<le> length batch"
    using b(2) by blast
next
  show "length (update_particles (particles g)) \<le> length (particles g)"
    by (rule update_particles_length)
next
  assume "pool_inv (particles g)"
  then show "(update_particles ^^ 125) (particles g) = []"
    by (rule drain)
qed

theorem C2_pool_cap_witness:
  "length (particles (crowded 2001)) > 2000
   \<and> triggerFirework 400 300 (crowded 2001) = crowded 2001
   \<and> rng_ok (random_src (crowded 2000)) \<and> canvasRef (crowded 2000) = Some demo_canvas
   \<and> length (particles (crowded 2000)) \<le> 2000
   \<and> roll_explosion (random_src (crowded 2000)) (random_used (crowded 2000)) =
        ((\<lparr>Palette.hue = 160, name = ''cyan''\<rparr>, burst, 150, 19/2, 21/4), 6)
   \<and> length (particles (triggerFirework 400 300 (crowded 2000))) = 2150
   \<and> pool_inv (particles (crowded 2001))
   \<and> (update_particles ^^ 125) (particles (crowded 2001)) = []"
proof -
  have 1: "length (particles (crowded 2001)) > 2000"
    by (simp add: crowded_simps)
  have 2: "triggerFirework 400 300 (crowded 2001) = crowded 2001"
    using C2_pool_cap[of "crowded 2001" 400 300] 1 by blast
  have 3: "rng_ok (random_src (crowded 2000))"
    by (simp add: crowded_simps rng_ok_steady)
  have 4: "canvasRef (crowded 2000) = Some demo_canvas"
    by (simp add: crowded_simps)
  have 5: "length (particles (crowded 2000)) \<le> 2000"
    by (simp add: crowded_simps)
  have 6: "roll_explosion (random_src (crowded 2000)) (random_used (crowded 2000)) =
        ((\<lparr>Palette.hue = 160, name = ''cyan''\<rparr>, burst, 150, 19/2, 21/4), 6)"
    by (simp add: crowded_simps roll_explosion_eq size_class_medium steady_def
        COLOR_PALETTES_def EXPLOSION_STYLES_def)
  obtain batch where b:
    "particles (triggerFirework 400 300 (crowded 2000)) = particles (crowded 2000) @ batch"
    "length batch = nat \<lceil>150 :: real\<rceil>"
    using C2_pool_cap[of "crowded 2000" 400 300 demo_canvas "\<lparr>Palette.hue = 160, name = ''cyan''\<rparr>"
        burst 150 "19/2" "21/4" 6] 3 4 5 6
    by blast
  have 7: "length (particles (triggerFirework 400 300 (crowded 2000))) = 2150"
    using b by (simp add: crowded_simps)
  have 8: "pool_inv (particles (crowded 2001))"
    by (rule pool_inv_crowded)
  have 9: "(update_particles ^^ 125) (particles (crowded 2001)) = []"
    using C2_pool_cap[of "crowded 2001" 400 300] 8 by blast
  show ?thesis
    using conjI[OF 1 conjI[OF 2 conjI[OF 3 conjI[OF 4 conjI[OF 5 conjI[OF 6 conjI[OF 7
          conjI[OF 8 9]]]]]]]] .
qed

text \<open>
  Claim C10. In every state the component reaches from its start, the pool holds at most
  2300 particles. A request keeps a pool of at most 2300 within 2300; it is accepted
  whenever the pool holds at most 2000 and then adds between 70 and 300 particles; above
  2000 it changes nothing; the clean-up pass never lengthens the pool.
\<close>

theorem C10_pool_bound:
  assumes "rng_ok R"
  shows "length (particles (run evs (initial R cv))) \<le> 2300
       \<and> (\<forall>g x0 y0. random_src g = R \<and> length (particles g) \<le> 2300 \<longrightarrow>
             length (particles (triggerFirework x0 y0 g)) \<le> 2300)
       \<and> (\<forall>g x0 y0 c. random_src g = R \<and> canvasRef g = Some c \<and> length (particles g) \<le> 2000 \<longrightarrow>
             (\<exists>batch. particles (triggerFirework x0 y0 g) = particles g @ batch
                \<and> 70 \<le> length batch \<and> length batch \<le> 300))
       \<and> (\<forall>g x0 y0. length (particles g) > 2000 \<longrightarrow> triggerFirework x0 y0 g = g)
       \<and> (\<forall>ps. length (update_particles ps) \<le> length ps)"
proof (intro conjI allI impI)
  show "length (particles (run evs (initial R cv))) \<le> 2300"
    using run_initial(2)[OF assms] .
next
  fix g :: game and x0 y0
  assume "random_src g = R \<and> length (particles g) \<le> 2300"
  then show "length (particles (triggerFirework x0 y0 g)) \<le> 2300"
    using triggerFirework_length[of g x0 y0] assms by simp
next
  fix g :: game and x0 y0 c
  assume "random_src g = R \<and> canvasRef g = Some c \<and> length (particles g) \<le> 2000"
  then show "\<exists>batch. particles (triggerFirework x0 y0 g) = particles g @ batch
                \<and> 70 \<le> length batch \<and> length batch \<le> 300"
    using triggerFirework_batch_size[of g c x0 y0] assms by simp
next
  fix g :: game and x0 y0
  assume "length (particles g) > 2000"
  then show "triggerFirework x0 y0 g = g"
    by (simp add: triggerFirework_reject)
next
  fix ps
  show "length (update_particles ps) \<le> length ps"
    by (rule update_particles_length)
qed

theorem C10_pool_bound_witness:
  "rng_ok (steady (1/2))
   \<and> length (particles demo_state) = 150 \<and> length (particles demo_state) \<le> 2300
   \<and> length (particles (crowded 2000)) \<le> 2300
   \<and> length (particles (triggerFirework 400 300 (crowded 2000))) \<le> 2300
   \<and> length (particles (crowded 2001)) > 2000
   \<and> triggerFirework 400 300 (crowded 2001) = crowded 2001
   \<and> length (update_particles (particles (crowded 2001))) \<le> 2001"
proof -
  have h: "rng_ok (steady (1/2))" by (simp add: rng_ok_steady)
  note c = C10_pool_bound[OF h, of demo_events "Some demo_canvas"]
  have 0: "length (particles demo_state) = 150" by (rule demo_state_pool)
  have 1: "length (particles demo_state) \<le> 2300"
    unfolding demo_state_def using c by blast
  have 2: "length (particles (crowded 2000)) \<le> 2300"
    by (simp add: crowded_simps)
  have "random_src (crowded 2000) = steady (1/2) \<and> length (particles (crowded 2000)) \<le> 2300"
    using 2 by (simp add: crowded_simps)
  then have 3: "length (particles (triggerFirework 400 300 (crowded 2000))) \<le> 2300"
    using c by blast
  have 4: "length (particles (crowded 2001)) > 2000"
    by (simp add: crowded_simps)
  then have 5: "triggerFirework 400 300 (crowded 2001) = crowded 2001"
    using c by blast
  have "length (update_particles (particles (crowded 2001))) \<le> length (particles (crowded 2001))"
    using c by blast
  then have 6: "length (update_particles (particles (crowded 2001))) \<le> 2001"
    by (simp add: crowded_simps)
  show ?thesis
    using conjI[OF h conjI[OF 0 conjI[OF 1 conjI[OF 2 conjI[OF 3 conjI[OF 4 conjI[OF 5 6]]]]]]] .
qed

text \<open>
  Claim C9. \<^verbatim>\<open>update()\<close> leaves decay, friction, gravity and size as they are and lowers
  \<open>alpha\<close> by the decay. In every state the component reaches from its start, each
  particle of the pool has a positive decay and a positive \<open>alpha\<close>, so each update lowers
  its \<open>alpha\<close> strictly. The clean-up pass keeps, in their order, exactly the updated
  particles whose \<open>alpha\<close> is still positive; a frame is this pass over the old pool
  followed by the particles created in the frame, which start with \<open>alpha = 1\<close>; the
  callback of the hand tracker leaves the pool alone.
\<close>

theorem C9_particle_lifetime:
  assumes "rng_ok R" and "g = run evs (initial R cv)"
  shows "(\<forall>p. decay (update p) = decay p \<and> friction (update p) = friction p
            \<and> gravity (update p) = gravity p \<and> size (update p) = size p
            \<and> alpha (update p) = alpha p - decay p)
       \<and> (\<forall>p\<in>set (particles g). 0 < decay p \<and> 0 < alpha p \<and> alpha (update p) < alpha p)
       \<and> update_particles (particles g) = filter (\<lambda>p. 0 < alpha p) (map update (particles g))
       \<and> (\<forall>now c. canvasRef g = Some c \<and> ctx2d c \<longrightarrow>
            (\<exists>batch. particles (draw now g) =
                filter (\<lambda>p. 0 < alpha p) (map update (particles g @ batch))
              \<and> (\<forall>p\<in>set batch. alpha p = 1)))
       \<and> (\<forall>res. particles (step (Results res) g) = particles g)"
proof -
  have src: "random_src g = R" and inv: "pool_inv (particles g)"
    using run_initial[OF assms(1), of evs cv] assms(2) by simp_all
  have 1: "\<forall>p. decay (update p) = decay p \<and> friction (update p) = friction p
            \<and> gravity (update p) = gravity p \<and> size (update p) = size p
            \<and> alpha (update p) = alpha p - decay p"
    by (simp add: update_fields)
  have 2: "\<forall>p\<in>set (particles g). 0 < decay p \<and> 0 < alpha p \<and> alpha (update p) < alpha p"
    using inv unfolding pool_inv_def by (fastforce simp add: update_fields)
  have 3: "update_particles (particles g) = filter (\<lambda>p. 0 < alpha p) (map update (particles g))"
    by (simp add: update_particles_eq isDead_def not_le)
  have 4: "\<forall>now c. canvasRef g = Some c \<and> ctx2d c \<longrightarrow>
            (\<exists>batch. particles (draw now g) =
                filter (\<lambda>p. 0 < alpha p) (map update (particles g @ batch))
              \<and> (\<forall>p\<in>set batch. alpha p = 1))"
    using draw_pool[of g] src assms(1) by simp
  have 5: "\<forall>res. particles (step (Results res) g) = particles g"
    using hands_only_fields(1)[OF step_Results_frame] by blast
  show ?thesis
    using conjI[OF 1 conjI[OF 2 conjI[OF 3 conjI[OF 4 5]]]] .
qed

theorem C9_particle_lifetime_witness:
  "rng_ok (steady (1/2))
   \<and> demo_state = run demo_events (initial (steady (1/2)) (Some demo_canvas))
   \<and> length (particles demo_state) = 150
   \<and> 0 < decay (hd (particles demo_state)) \<and> 0 < alpha (hd (particles demo_state))
   \<and> alpha (update (hd (particles demo_state))) < alpha (hd (particles demo_state))
   \<and> decay (update (hd (particles demo_state))) = decay (hd (particles demo_state))
   \<and> friction (update (hd (particles demo_state))) = friction (hd (particles demo_state))
   \<and> gravity (update (hd (particles demo_state))) = gravity (hd (particles demo_state))
   \<and> size (update (hd (particles demo_state))) = size (hd (particles demo_state))
   \<and> update_particles (particles demo_state) =
       filter (\<lambda>p. 0 < alpha p) (map update (particles demo_state))
   \<and> particles (step (Results no_lists) demo_state) = particles demo_state"
proof -
  have h: "rng_ok (steady (1/2))" by (simp add: rng_ok_steady)
  have d: "demo_state = run demo_events (initial (steady (1/2)) (Some demo_canvas))"
    by (rule demo_state_def)
  note c = C9_particle_lifetime[OF h d]
  have l: "length (particles demo_state) = 150" by (rule demo_state_pool)
  then have "particles demo_state \<noteq> []" by auto
  then have m: "hd (particles demo_state) \<in> set (particles demo_state)" by simp
  have 1: "0 < decay (hd (particles demo_state)) \<and> 0 < alpha (hd (particles demo_state))
   \<and> alpha (update (hd (particles demo_state))) < alpha (hd (particles demo_state))"
    using c[THEN conjunct2, THEN conjunct1] m by blast
  have 2: "decay (update (hd (particles demo_state))) = decay (hd (particles demo_state))
   \<and> friction (update (hd (particles demo_state))) = friction (hd (particles demo_state))
   \<and> gravity (update (hd (particles demo_state))) = gravity (hd (particles demo_state))
   \<and> size (update (hd (particles demo_state))) = size (hd (particles demo_state))"
    using c[THEN conjunct1] by blast
  have 3: "update_particles (particles demo_state) =
       filter (\<lambda>p. 0 < alpha p) (map update (particles demo_state))"
    using c[THEN conjunct2, THEN conjunct2, THEN conjunct1] .
  have 4: "particles (step (Results no_lists) demo_state) = particles demo_state"
    using c[THEN conjunct2, THEN conjunct2, THEN conjunct2, THEN conjunct2] by blast
  show ?thesis
    using conjI[OF h conjI[OF d conjI[OF l conjI[OF 1 conjI[OF 2 conjI[OF 3 4]]]]]]
    by (simp only: conj_assoc)
qed

section \<open>Gesture classifier\<close>

text \<open>
  Claim C5. A frame of observations is a payload with the list of landmarks and the list
  of handedness entries, a handedness entry for each hand and at least 21 landmarks per
  hand. For such a payload the callback returns; a lane whose label no hand carries
  becomes UNKNOWN, whatever its state was, and a lane takes from the last hand that
  carries its label the state FIST when the average distance of the four fingertips from
  the wrist is below 0.25, and OPEN otherwise. A payload without one of the two lists
  does not pass the guard of the callback and changes nothing.
\<close>

theorem C5_classifier:
  "(multiHandLandmarks res = None \<or> multiHandedness res = None \<longrightarrow> onResults res g = Inr g)
   \<and> (\<forall>lms hds.
        multiHandLandmarks res = Some lms \<and> multiHandedness res = Some hds
        \<and> length lms \<le> length hds \<and> (\<forall>lm\<in>set lms. 21 \<le> length lm) \<longrightarrow>
        (\<exists>g'. onResults res g = Inr g'
           \<and> (\<forall>lane. (\<forall>j. j < length lms \<longrightarrow> hds ! j \<noteq> lane) \<longrightarrow>
                 handStateRef g' lane = UNKNOWN)
           \<and> (\<forall>lane k. k < length lms \<and> hds ! k = lane
                 \<and> (\<forall>j. k < j \<and> j < length lms \<longrightarrow> hds ! j \<noteq> lane) \<longrightarrow>
                 handStateRef g' lane =
                   (if average_distance_spec (lms ! k) < 0.25 then FIST else OPEN))))"
proof (intro conjI allI impI)
  assume "multiHandLandmarks res = None \<or> multiHandedness res = None"
  then show "onResults res g = Inr g"
    by (auto simp add: onResults_def split: option.splits)
next
  fix lms hds
  assume a: "multiHandLandmarks res = Some lms \<and> multiHandedness res = Some hds
        \<and> length lms \<le> length hds \<and> (\<forall>lm\<in>set lms. 21 \<le> length lm)"
  then have 1: "multiHandLandmarks res = Some lms" and 2: "multiHandedness res = Some hds"
    and 3: "length lms \<le> length hds" and 4: "\<forall>lm\<in>set lms. 21 \<le> length lm"
    by simp_all
  show "\<exists>g'. onResults res g = Inr g'
           \<and> (\<forall>lane. (\<forall>j. j < length lms \<longrightarrow> hds ! j \<noteq> lane) \<longrightarrow>
                 handStateRef g' lane = UNKNOWN)
           \<and> (\<forall>lane k. k < length lms \<and> hds ! k = lane
                 \<and> (\<forall>j. k < j \<and> j < length lms \<longrightarrow> hds ! j \<noteq> lane) \<longrightarrow>
                 handStateRef g' lane =
                   (if average_distance_spec (lms ! k) < 0.25 then FIST else OPEN))"
    using onResults_ok[OF 1 2 3 4, of g] unfolding classify_spec_def .
qed

theorem C5_classifier_witness:
  "multiHandLandmarks (one_hand Left 0) = Some [hand_at 0]
   \<and> multiHandedness (one_hand Left 0) = Some [Left]
   \<and> length [hand_at 0] \<le> length [Left] \<and> length (hand_at 0) = 21
   \<and> handStateRef both_open Left = OPEN \<and> handStateRef both_open Right = OPEN
   \<and> average_distance_spec (hand_at 0) = 0 \<and> average_distance_spec (hand_at 1) = 1
   \<and> (\<exists>g'. onResults (one_hand Left 0) both_open = Inr g'
          \<and> handStateRef g' Left = FIST \<and> handStateRef g' Right = UNKNOWN)
   \<and> (\<exists>g'. onResults (one_hand Left 1) both_open = Inr g'
          \<and> handStateRef g' Left = OPEN \<and> handStateRef g' Right = UNKNOWN)
   \<and> multiHandLandmarks no_lists = None \<and> onResults no_lists both_open = Inr both_open"
proof -
  have a: "multiHandLandmarks (one_hand Left d) = Some [hand_at d]
      \<and> multiHandedness (one_hand Left d) = Some [Left]
      \<and> length [hand_at d] \<le> length [Left] \<and> (\<forall>lm\<in>set [hand_at d]. 21 \<le> length lm)" for d
    by (simp add: one_hand_def hand_at_def)
  have d0: "average_distance_spec (hand_at 0) = 0" and d1: "average_distance_spec (hand_at 1) = 1"
    by (simp_all add: average_distance_spec_def distance_spec_def hand_at_def)
  have r: "\<exists>g'. onResults (one_hand Left d) both_open = Inr g'
          \<and> handStateRef g' Left = (if average_distance_spec (hand_at d) < 0.25 then FIST else OPEN)
          \<and> handStateRef g' Right = UNKNOWN" for d
  proof -
    obtain g' where g': "onResults (one_hand Left d) both_open = Inr g'"
      "\<forall>lane. (\<forall>j. j < length [hand_at d] \<longrightarrow> [Left] ! j \<noteq> lane) \<longrightarrow>
                 handStateRef g' lane = UNKNOWN"
      "\<forall>lane k. k < length [hand_at d] \<and> [Left] ! k = lane
                 \<and> (\<forall>j. k < j \<and> j < length [hand_at d] \<longrightarrow> [Left] ! j \<noteq> lane) \<longrightarrow>
                 handStateRef g' lane =
                   (if average_distance_spec ([hand_at d] ! k) < 0.25 then FIST else OPEN)"
      using C5_classifier[of "one_hand Left d" both_open, THEN conjunct2, rule_format, OF a]
      by blast
    have "handStateRef g' Left = (if average_distance_spec (hand_at d) < 0.25 then FIST else OPEN)"
      using g'(3) by auto
    moreover have "handStateRef g' Right = UNKNOWN"
      using g'(2) by auto
    ultimately show ?thesis using g'(1) by blast
  qed
  have r0: "\<exists>g'. onResults (one_hand Left 0) both_open = Inr g'
          \<and> handStateRef g' Left = FIST \<and> handStateRef g' Right = UNKNOWN"
    using r[of 0] d0 by simp
  have r1: "\<exists>g'. onResults (one_hand Left 1) both_open = Inr g'
          \<and> handStateRef g' Left = OPEN \<and> handStateRef g' Right = UNKNOWN"
    using r[of 1] d1 by simp
  have n: "multiHandLandmarks no_lists = None" by (simp add: no_lists_def)
  then have n2: "onResults no_lists both_open = Inr both_open"
    using C5_classifier[of no_lists both_open, THEN conjunct1] by blast
  have b: "handStateRef both_open Left = OPEN \<and> handStateRef both_open Right = OPEN"
    by (simp add: both_open_simps)
  have w: "multiHandLandmarks (one_hand Left 0) = Some [hand_at 0]
   \<and> multiHandedness (one_hand Left 0) = Some [Left]
   \<and> length [hand_at 0] \<le> length [Left] \<and> length (hand_at 0) = 21"
    by (simp add: one_hand_def hand_at_def)
  show ?thesis
    using w b d0 d1 r0 r1 n n2 by (intro conjI) (simp_all only: simp_thms)
qed

section \<open>Trigger controller\<close>

text \<open>
  Claim C1. In a frame with a canvas in which not both lanes are open, \<^verbatim>\<open>draw\<close> does for
  the left lane and then for the right lane what \<open>lane_spec\<close> says, with the rule
  \<open>fires_spec\<close> decided on the state at the start of the frame: where the lane is open, was
  not open in the frame before and more than 250 ms have passed since its last trigger,
  the composer is called at the mirrored position \<open>((1 - x) * width, y * height)\<close> and
  the time of the frame becomes the lane's last trigger time; otherwise neither happens.
  So the last trigger time of a lane changes exactly when the rule holds, and when it
  holds for neither lane the frame creates no particle and draws no random number. Where
  the rule holds and the pool has room, the lane's step appends at least 70 particles, all
  of them at the mirrored position.
\<close>

theorem C1_normal_trigger:
  assumes "canvasRef g = Some cv" and "ctx2d cv"
    and "\<not> (handStateRef g Left = OPEN \<and> handStateRef g Right = OPEN)"
  shows "draw now g =
           (let s = lane_spec now cv g Right
                      (lane_spec now cv g Left (g\<lparr>grandFinale_active := False\<rparr>))
            in s\<lparr>particles := update_particles (particles s)\<rparr>)
       \<and> (\<forall>lane. lastTriggerTime (draw now g) lane =
                    (if fires_spec now g lane then now else lastTriggerTime g lane))
       \<and> (\<forall>lane. fires_spec now g lane \<longrightarrow> lastTriggerTime g lane \<noteq> now)
       \<and> (\<not> fires_spec now g Left \<and> \<not> fires_spec now g Right \<longrightarrow>
            particles (draw now g) = update_particles (particles g)
          \<and> random_used (draw now g) = random_used g)
       \<and> (\<forall>lane s c. fires_spec now g lane \<and> rng_ok (random_src s) \<and> canvasRef s = Some c
                    \<and> length (particles s) \<le> 2000 \<longrightarrow>
            (\<exists>batch. particles (lane_spec now cv g lane s) = particles s @ batch
               \<and> 70 \<le> length batch
               \<and> (\<forall>p\<in>set batch. Particle.x p = screenX_spec cv (handPosRef g lane)
                                  \<and> Particle.y p = screenY_spec cv (handPosRef g lane))))"
proof -
  have 1: "draw now g =
           (let s = lane_spec now cv g Right
                      (lane_spec now cv g Left (g\<lparr>grandFinale_active := False\<rparr>))
            in s\<lparr>particles := update_particles (particles s)\<rparr>)"
    using draw_normal[OF assms] .
  have 2: "\<forall>lane. lastTriggerTime (draw now g) lane =
                    (if fires_spec now g lane then now else lastTriggerTime g lane)"
    using draw_normal_fields(1)[OF assms] by blast
  have 3: "\<forall>lane. fires_spec now g lane \<longrightarrow> lastTriggerTime g lane \<noteq> now"
    by (auto simp add: fires_spec_def)
  have 4: "\<not> fires_spec now g Left \<and> \<not> fires_spec now g Right \<longrightarrow>
            particles (draw now g) = update_particles (particles g)
          \<and> random_used (draw now g) = random_used g"
    using draw_normal_idle[OF assms] by blast
  have 5: "\<forall>lane s c. fires_spec now g lane \<and> rng_ok (random_src s) \<and> canvasRef s = Some c
                    \<and> length (particles s) \<le> 2000 \<longrightarrow>
            (\<exists>batch. particles (lane_spec now cv g lane s) = particles s @ batch
               \<and> 70 \<le> length batch
               \<and> (\<forall>p\<in>set batch. Particle.x p = screenX_spec cv (handPosRef g lane)
                                  \<and> Particle.y p = screenY_spec cv (handPosRef g lane)))"
    using lane_spec_fires by blast
  show ?thesis
    using conjI[OF 1 conjI[OF 2 conjI[OF 3 conjI[OF 4 5]]]] .
qed

theorem C1_normal_trigger_witness:
  "canvasRef left_open = Some demo_canvas \<and> ctx2d demo_canvas
   \<and> \<not> (handStateRef left_open Left = OPEN \<and> handStateRef left_open Right = OPEN)
   \<and> fires_spec 1000 left_open Left \<and> \<not> fires_spec 1000 left_open Right
   \<and> \<not> fires_spec 200 left_open Left
   \<and> lastTriggerTime (draw 1000 left_open) Left = 1000
   \<and> lastTriggerTime (draw 1000 left_open) Right = 0
   \<and> lastTriggerTime (draw 200 left_open) Left = 0
   \<and> particles (draw 200 left_open) = update_particles (particles left_open)
   \<and> screenX_spec demo_canvas (handPosRef left_open Left) = 600
   \<and> screenY_spec demo_canvas (handPosRef left_open Left) = 300
   \<and> 70 \<le> length (particles (lane_spec 1000 demo_canvas left_open Left left_open))
   \<and> Particle.x (last (particles (lane_spec 1000 demo_canvas left_open Left left_open))) = 600
   \<and> Particle.y (last (particles (lane_spec 1000 demo_canvas left_open Left left_open))) = 300"
proof -
  have h1: "canvasRef left_open = Some demo_canvas" by (simp add: left_open_simps)
  have h2: "ctx2d demo_canvas" by (simp add: demo_canvas_def)
  have h3: "\<not> (handStateRef left_open Left = OPEN \<and> handStateRef left_open Right = OPEN)"
    by (simp add: left_open_simps)
  have f1: "fires_spec 1000 left_open Left" by (simp add: fires_spec_def left_open_simps)
  have f2: "\<not> fires_spec 1000 left_open Right" by (simp add: fires_spec_def left_open_simps)
  have f3: "\<not> fires_spec 200 left_open Left" by (simp add: fires_spec_def left_open_simps)
  have f4: "\<not> fires_spec 200 left_open Right" by (simp add: fires_spec_def left_open_simps)
  note a = C1_normal_trigger[OF h1 h2 h3, of 1000]
  note b = C1_normal_trigger[OF h1 h2 h3, of 200]
  have 1: "lastTriggerTime (draw 1000 left_open) Left = 1000"
    using a[THEN conjunct2, THEN conjunct1] f1 by simp
  have 2: "lastTriggerTime (draw 1000 left_open) Right = 0"
    using a[THEN conjunct2, THEN conjunct1] f2 by (simp add: left_open_simps)
  have 3: "lastTriggerTime (draw 200 left_open) Left = 0"
    using b[THEN conjunct2, THEN conjunct1] f3 by (simp add: left_open_simps)
  have 4: "particles (draw 200 left_open) = update_particles (particles left_open)"
    using b[THEN conjunct2, THEN conjunct2, THEN conjunct2, THEN conjunct1] f3 f4 by blast
  have 5: "screenX_spec demo_canvas (handPosRef left_open Left) = 600"
    by (simp add: screenX_spec_def left_open_simps demo_canvas_def)
  have 6: "screenY_spec demo_canvas (handPosRef left_open Left) = 300"
    by (simp add: screenY_spec_def left_open_simps demo_canvas_def)
  have p: "rng_ok (random_src left_open)" "length (particles left_open) \<le> 2000"
    "particles left_open = []"
    by (simp_all add: left_open_def demo_game_def initial_def rng_ok_steady)
  obtain batch where bt:
    "particles (lane_spec 1000 demo_canvas left_open Left left_open) = particles left_open @ batch"
    "70 \<le> length batch"
    "\<forall>p\<in>set batch. Particle.x p = screenX_spec demo_canvas (handPosRef left_open Left)
                   \<and> Particle.y p = screenY_spec demo_canvas (handPosRef left_open Left)"
    using a[THEN conjunct2, THEN conjunct2, THEN conjunct2, THEN conjunct2] f1 p(1,2) h1
    by blast
  have e: "particles (lane_spec 1000 demo_canvas left_open Left left_open) = batch"
    using bt(1) p(3) by simp
  have "batch \<noteq> []" using bt(2) by auto
  then have "last batch \<in> set batch" by simp
  then have 8: "Particle.x (last batch) = 600 \<and> Particle.y (last batch) = 300"
    using bt(3) 5 6 by simp
  show ?thesis
    unfolding e
    using conjI[OF h1 conjI[OF h2 conjI[OF h3 conjI[OF f1 conjI[OF f2 conjI[OF f3 conjI[OF 1
          conjI[OF 2 conjI[OF 3 conjI[OF 4 conjI[OF 5 conjI[OF 6 conjI[OF bt(2) 8]]]]]]]]]]]]] .
qed

text \<open>
  Claim C4. In a frame with a canvas, the finale flag is set exactly when both lanes are
  open, and the previous state of each lane becomes its current state, in finale and in
  normal mode alike. In a finale frame no lane's last trigger time changes and nothing
  but the finale patterns can call the composer. After a finale frame, whatever the hand
  tracker reports before the next frame, the trigger rule holds for no lane; if that
  next frame is a normal one, it creates no particle and changes no last trigger time.
\<close>

theorem C4_finale:
  assumes "canvasRef g = Some cv" and "ctx2d cv"
  shows "grandFinale_active (draw now g) =
           (handStateRef g Left = OPEN \<and> handStateRef g Right = OPEN)
       \<and> prevHandStateRef (draw now g) = handStateRef g
       \<and> (handStateRef g Left = OPEN \<and> handStateRef g Right = OPEN \<longrightarrow>
            lastTriggerTime (draw now g) = lastTriggerTime g
          \<and> draw now g =
              (let s0 = g\<lparr>grandFinale_active := True\<rparr>;
                   s1 = (if now - grandFinale_lastSpawn g > 15
                         then (finale_patterns (real (width cv)) (real (height cv)) now s0)
                                \<lparr>grandFinale_lastSpawn := now\<rparr>
                         else s0);
                   s2 = s1\<lparr>prevHandStateRef := handStateRef g\<rparr>
               in s2\<lparr>particles := update_particles (particles s2)\<rparr>)
          \<and> (\<forall>rs now' lane. \<not> fires_spec now' (run (map Results rs) (draw now g)) lane)
          \<and> (\<forall>rs now'.
                \<not> (handStateRef (run (map Results rs) (draw now g)) Left = OPEN
                   \<and> handStateRef (run (map Results rs) (draw now g)) Right = OPEN) \<longrightarrow>
                particles (draw now' (run (map Results rs) (draw now g))) =
                  update_particles (particles (run (map Results rs) (draw now g)))
              \<and> lastTriggerTime (draw now' (run (map Results rs) (draw now g))) =
                  lastTriggerTime (run (map Results rs) (draw now g))))"
proof -
  have 1: "grandFinale_active (draw now g) =
           (handStateRef g Left = OPEN \<and> handStateRef g Right = OPEN)"
  proof (cases "handStateRef g Left = OPEN \<and> handStateRef g Right = OPEN")
    case True
    then show ?thesis using draw_finale_fields(3)[OF assms, of now] by simp
  next
    case False
    then show ?thesis using draw_normal_fields(3)[OF assms False, of now] by simp
  qed
  have 2: "prevHandStateRef (draw now g) = handStateRef g"
  proof (cases "handStateRef g Left = OPEN \<and> handStateRef g Right = OPEN")
    case True
    then show ?thesis using draw_finale_fields(2)[OF assms, of now] by simp
  next
    case False
    then show ?thesis using draw_normal_fields(2)[OF assms False, of now] by simp
  qed
  have 3: "handStateRef g Left = OPEN \<and> handStateRef g Right = OPEN \<longrightarrow>
            lastTriggerTime (draw now g) = lastTriggerTime g
          \<and> draw now g =
              (let s0 = g\<lparr>grandFinale_active := True\<rparr>;
                   s1 = (if now - grandFinale_lastSpawn g > 15
                         then (finale_patterns (real (width cv)) (real (height cv)) now s0)
                                \<lparr>grandFinale_lastSpawn := now\<rparr>
                         else s0);
                   s2 = s1\<lparr>prevHandStateRef := handStateRef g\<rparr>
               in s2\<lparr>particles := update_particles (particles s2)\<rparr>)
          \<and> (\<forall>rs now' lane. \<not> fires_spec now' (run (map Results rs) (draw now g)) lane)
          \<and> (\<forall>rs now'.
                \<not> (handStateRef (run (map Results rs) (draw now g)) Left = OPEN
                   \<and> handStateRef (run (map Results rs) (draw now g)) Right = OPEN) \<longrightarrow>
                particles (draw now' (run (map Results rs) (draw now g))) =
                  update_particles (particles (run (map Results rs) (draw now g)))
              \<and> lastTriggerTime (draw now' (run (map Results rs) (draw now g))) =
                  lastTriggerTime (run (map Results rs) (draw now g)))"
  proof (intro impI)
    assume both: "handStateRef g Left = OPEN \<and> handStateRef g Right = OPEN"
    then have l: "handStateRef g Left = OPEN" and r: "handStateRef g Right = OPEN"
      by simp_all
    note f = draw_finale_fields[OF assms l r, of now]
    have all_open: "handStateRef g lane = OPEN" for lane
      using l r by (cases lane) simp_all
    have after: "prevHandStateRef (run (map Results rs) (draw now g)) lane = OPEN
        \<and> canvasRef (run (map Results rs) (draw now g)) = Some cv" for rs lane
      using hands_only_fields(2,6)[OF run_Results_frame, of rs "draw now g"] f(2,4) all_open assms(1)
      by simp
    have nf: "\<not> fires_spec now' (run (map Results rs) (draw now g)) lane" for rs now' lane
      using after[of rs lane] by (simp add: fires_spec_def)
    have nxt: "particles (draw now' (run (map Results rs) (draw now g))) =
                    update_particles (particles (run (map Results rs) (draw now g)))
                \<and> lastTriggerTime (draw now' (run (map Results rs) (draw now g))) =
                    lastTriggerTime (run (map Results rs) (draw now g))"
      if n: "\<not> (handStateRef (run (map Results rs) (draw now g)) Left = OPEN
                     \<and> handStateRef (run (map Results rs) (draw now g)) Right = OPEN)"
      for rs now'
    proof -
      define g' where "g' = run (map Results rs) (draw now g)"
      have c: "canvasRef g' = Some cv" using after[of rs Left] by (simp add: g'_def)
      have n': "\<not> (handStateRef g' Left = OPEN \<and> handStateRef g' Right = OPEN)"
        using n by (simp add: g'_def)
      have nf': "\<not> fires_spec now' g' lane" for lane using nf by (simp add: g'_def)
      have "particles (draw now' g') = update_particles (particles g')"
        using draw_normal_idle(1)[OF c assms(2) n' nf' nf'] .
      moreover have "lastTriggerTime (draw now' g') = lastTriggerTime g'"
      proof
        fix lane show "lastTriggerTime (draw now' g') lane = lastTriggerTime g' lane"
          using draw_normal_fields(1)[OF c assms(2) n', of now' lane] nf' by simp
      qed
      ultimately show ?thesis by (simp add: g'_def)
    qed
    show "lastTriggerTime (draw now g) = lastTriggerTime g
          \<and> draw now g =
              (let s0 = g\<lparr>grandFinale_active := True\<rparr>;
                   s1 = (if now - grandFinale_lastSpawn g > 15
                         then (finale_patterns (real (width cv)) (real (height cv)) now s0)
                                \<lparr>grandFinale_lastSpawn := now\<rparr>
                         else s0);
                   s2 = s1\<lparr>prevHandStateRef := handStateRef g\<rparr>
               in s2\<lparr>particles := update_particles (particles s2)\<rparr>)
          \<and> (\<forall>rs now' lane. \<not> fires_spec now' (run (map Results rs) (draw now g)) lane)
          \<and> (\<forall>rs now'.
                \<not> (handStateRef (run (map Results rs) (draw now g)) Left = OPEN
                   \<and> handStateRef (run (map Results rs) (draw now g)) Right = OPEN) \<longrightarrow>
                particles (draw now' (run (map Results rs) (draw now g))) =
                  update_particles (particles (run (map Results rs) (draw now g)))
              \<and> lastTriggerTime (draw now' (run (map Results rs) (draw now g))) =
                  lastTriggerTime (run (map Results rs) (draw now g)))"
      using f(1) draw_finale[OF assms l r, of now] nf nxt by (intro conjI allI impI) blast+
  qed
  show ?thesis
    using conjI[OF 1 conjI[OF 2 3]] .
qed

theorem C4_finale_witness:
  "canvasRef both_open = Some demo_canvas \<and> ctx2d demo_canvas
   \<and> handStateRef both_open Left = OPEN \<and> handStateRef both_open Right = OPEN
   \<and> grandFinale_active (draw 1000 both_open)
   \<and> prevHandStateRef (draw 1000 both_open) Left = OPEN
   \<and> prevHandStateRef (draw 1000 both_open) Right = OPEN
   \<and> lastTriggerTime (draw 1000 both_open) Left = 0
   \<and> handStateRef (run (map Results [one_hand Left 1]) (draw 1000 both_open)) Left = OPEN
   \<and> handStateRef (run (map Results [one_hand Left 1]) (draw 1000 both_open)) Right = UNKNOWN
   \<and> \<not> fires_spec 1016 (run (map Results [one_hand Left 1]) (draw 1000 both_open)) Left
   \<and> particles (draw 1016 (run (map Results [one_hand Left 1]) (draw 1000 both_open))) =
       update_particles (particles (run (map Results [one_hand Left 1]) (draw 1000 both_open)))
   \<and> lastTriggerTime (draw 1016 (run (map Results [one_hand Left 1]) (draw 1000 both_open))) Left = 0"
proof -
  have h1: "canvasRef both_open = Some demo_canvas" by (simp add: both_open_simps)
  have h2: "ctx2d demo_canvas" by (simp add: demo_canvas_def)
  have l: "handStateRef both_open Left = OPEN" and r: "handStateRef both_open Right = OPEN"
    by (simp_all add: both_open_simps)
  note c = C4_finale[OF h1 h2, of 1000]
  have 1: "grandFinale_active (draw 1000 both_open)"
    using c[THEN conjunct1] l r by simp
  have p: "prevHandStateRef (draw 1000 both_open) = handStateRef both_open"
    using c[THEN conjunct2, THEN conjunct1] .
  have 2: "prevHandStateRef (draw 1000 both_open) Left = OPEN"
    unfolding p by (rule l)
  have 3: "prevHandStateRef (draw 1000 both_open) Right = OPEN"
    unfolding p by (rule r)
  note f = c[THEN conjunct2, THEN conjunct2, rule_format, OF conjI[OF l r]]
  have 4: "lastTriggerTime (draw 1000 both_open) Left = 0"
    using f[THEN conjunct1] by (simp add: both_open_simps)
  have e: "run (map Results [one_hand Left 1]) (draw 1000 both_open) =
           step (Results (one_hand Left 1)) (draw 1000 both_open)"
    by (simp add: run_def)
  have 5: "handStateRef (run (map Results [one_hand Left 1]) (draw 1000 both_open)) Left = OPEN"
    unfolding e one_hand_step(1) by (simp add: classify_hand_at)
  have 6: "handStateRef (run (map Results [one_hand Left 1]) (draw 1000 both_open)) Right = UNKNOWN"
    unfolding e by (rule one_hand_step(2)) simp
  have 7: "\<not> fires_spec 1016 (run (map Results [one_hand Left 1]) (draw 1000 both_open)) Left"
    using f[THEN conjunct2, THEN conjunct2, THEN conjunct1] by blast
  have n: "\<not> (handStateRef (run (map Results [one_hand Left 1]) (draw 1000 both_open)) Left = OPEN
      \<and> handStateRef (run (map Results [one_hand Left 1]) (draw 1000 both_open)) Right = OPEN)"
    using 6 by simp
  note g = f[THEN conjunct2, THEN conjunct2, THEN conjunct2, rule_format, OF n, of 1016]
  have 8: "particles (draw 1016 (run (map Results [one_hand Left 1]) (draw 1000 both_open))) =
       update_particles (particles (run (map Results [one_hand Left 1]) (draw 1000 both_open)))"
    using g[THEN conjunct1] .
  have "lastTriggerTime (run (map Results [one_hand Left 1]) (draw 1000 both_open)) Left = 0"
    unfolding e using hands_only_fields(3)[OF step_Results_frame] 4 by simp
  then have 9: "lastTriggerTime (draw 1016 (run (map Results [one_hand Left 1])
        (draw 1000 both_open))) Left = 0"
    using g[THEN conjunct2] by simp
  show ?thesis
    using conjI[OF h1 conjI[OF h2 conjI[OF l conjI[OF r conjI[OF 1 conjI[OF 2 conjI[OF 3
          conjI[OF 4 conjI[OF 5 conjI[OF 6 conjI[OF 7 conjI[OF 8 9]]]]]]]]]]]] .
qed

end
